theory Spec2Isabelle
  imports Complex_Main
begin

section \<open>Single-precision values\<close>

text \<open>
  The kernels of \<^verbatim>\<open>NativeOp.py\<close> compute on C \<^verbatim>\<open>float\<close>s. A value is a finite number,
  one of the two infinities, or NaN. Finite numbers are carried as exact reals: rounding and
  overflow of finite arithmetic are left out, the IEEE rules for the special values are kept
  (\<open>\<infinity> - \<infinity>\<close> and \<open>0 * \<infinity>\<close> are NaN, NaN compares unequal to everything,
  \<^verbatim>\<open>fminf\<close> returns the operand that is not NaN).
\<close>

datatype fl = Finite real | PosInf | NegInf | NaN

fun fl_add :: "fl \<Rightarrow> fl \<Rightarrow> fl" where
  "fl_add NaN y = NaN"
| "fl_add x NaN = NaN"
| "fl_add (Finite a) (Finite b) = Finite (a + b)"
| "fl_add PosInf NegInf = NaN"
| "fl_add NegInf PosInf = NaN"
| "fl_add PosInf y = PosInf"
| "fl_add x PosInf = PosInf"
| "fl_add NegInf y = NegInf"
| "fl_add x NegInf = NegInf"

fun fl_neg :: "fl \<Rightarrow> fl" where
  "fl_neg (Finite a) = Finite (- a)"
| "fl_neg PosInf = NegInf"
| "fl_neg NegInf = PosInf"
| "fl_neg NaN = NaN"

fun fl_mul :: "fl \<Rightarrow> fl \<Rightarrow> fl" where
  "fl_mul NaN y = NaN"
| "fl_mul x NaN = NaN"
| "fl_mul (Finite a) (Finite b) = Finite (a * b)"
| "fl_mul (Finite a) PosInf = (if a = 0 then NaN else if 0 < a then PosInf else NegInf)"
| "fl_mul (Finite a) NegInf = (if a = 0 then NaN else if 0 < a then NegInf else PosInf)"
| "fl_mul PosInf (Finite b) = (if b = 0 then NaN else if 0 < b then PosInf else NegInf)"
| "fl_mul NegInf (Finite b) = (if b = 0 then NaN else if 0 < b then NegInf else PosInf)"
| "fl_mul PosInf PosInf = PosInf"
| "fl_mul NegInf NegInf = PosInf"
| "fl_mul PosInf NegInf = NegInf"
| "fl_mul NegInf PosInf = NegInf"

instantiation fl :: "{zero, plus, minus, uminus, times}"
begin

definition zero_fl :: fl where "zero_fl = Finite 0"
definition plus_fl :: "fl \<Rightarrow> fl \<Rightarrow> fl" where "plus_fl = fl_add"
definition uminus_fl :: "fl \<Rightarrow> fl" where "uminus_fl = fl_neg"
definition minus_fl :: "fl \<Rightarrow> fl \<Rightarrow> fl" where "minus_fl x y = fl_add x (fl_neg y)"
definition times_fl :: "fl \<Rightarrow> fl \<Rightarrow> fl" where "times_fl = fl_mul"

instance ..

end

fun fl_abs :: "fl \<Rightarrow> fl" where
  "fl_abs (Finite a) = Finite \<bar>a\<bar>"
| "fl_abs PosInf = PosInf"
| "fl_abs NegInf = PosInf"
| "fl_abs NaN = NaN"

fun fl_min :: "fl \<Rightarrow> fl \<Rightarrow> fl" where
  "fl_min NaN y = y"
| "fl_min x NaN = x"
| "fl_min NegInf y = NegInf"
| "fl_min x NegInf = NegInf"
| "fl_min PosInf y = y"
| "fl_min x PosInf = x"
| "fl_min (Finite a) (Finite b) = Finite (min a b)"

fun fl_exp :: "fl \<Rightarrow> fl" where
  "fl_exp (Finite a) = Finite (exp a)"
| "fl_exp PosInf = PosInf"
| "fl_exp NegInf = Finite 0"
| "fl_exp NaN = NaN"

fun fl_log1p :: "fl \<Rightarrow> fl" where
  "fl_log1p (Finite a) =
     (if - 1 < a then Finite (ln (1 + a)) else if a = - 1 then NegInf else NaN)"
| "fl_log1p PosInf = PosInf"
| "fl_log1p NegInf = NaN"
| "fl_log1p NaN = NaN"

text \<open>The C function \<^verbatim>\<open>log\<close>.\<close>

fun fl_log :: "fl \<Rightarrow> fl" where
  "fl_log (Finite a) = (if 0 < a then Finite (ln a) else if a = 0 then NegInf else NaN)"
| "fl_log PosInf = PosInf"
| "fl_log NegInf = NaN"
| "fl_log NaN = NaN"

fun isinf :: "fl \<Rightarrow> bool" where
  "isinf PosInf = True"
| "isinf NegInf = True"
| "isinf x = False"

fun isnan :: "fl \<Rightarrow> bool" where
  "isnan NaN = True"
| "isnan x = False"

text \<open>The C comparison \<^verbatim>\<open>==\<close> on floats.\<close>

fun fl_eq :: "fl \<Rightarrow> fl \<Rightarrow> bool" where
  "fl_eq NaN y = False"
| "fl_eq x NaN = False"
| "fl_eq x y = (x = y)"

section \<open>Log-domain arithmetic\<close>

text \<open>\<^verbatim>\<open>prob_add\<close>, kernel \<^verbatim>\<open>012_prob_add\<close>.\<close>

definition prob_add :: "fl \<Rightarrow> fl \<Rightarrow> fl" where
  "prob_add a b =
     (let diff = a - b in
      if isnan diff then PosInf
      else - fl_log1p (fl_exp (- fl_abs diff)) + fl_min a b)"


section \<open>Device memory and kernel launches\<close>

text \<open>
  Arrays are lists. An access outside the array is undefined behaviour in the source; the
  model makes it the value \<open>Inl OutOfBounds\<close>, so that it can be told apart from a run that
  stays inside its arrays and from a failed \<^verbatim>\<open>assert\<close>. Index arithmetic on
  \<^verbatim>\<open>unsigned\<close> is done in \<open>nat\<close>; the places where the 32-bit wrap-around decides the
  result are written with \<open>mod 2 ^ 32\<close>.
\<close>

datatype error = AssertionFailed | OutOfBounds | BadConversion

definition bindE :: "error + 'a \<Rightarrow> ('a \<Rightarrow> error + 'b) \<Rightarrow> error + 'b" where
  "bindE m f = (case m of Inl e \<Rightarrow> Inl e | Inr x \<Rightarrow> f x)"

definition rd :: "'a list \<Rightarrow> nat \<Rightarrow> error + 'a" where
  "rd xs i = (if i < length xs then Inr (xs ! i) else Inl OutOfBounds)"

definition wr :: "'a list \<Rightarrow> nat \<Rightarrow> 'a \<Rightarrow> error + 'a list" where
  "wr xs i v = (if i < length xs then Inr (xs[i := v]) else Inl OutOfBounds)"

text \<open>A pointer into an array that is only read: the array and the offset of element 0.\<close>

type_synonym 'a ptr = "'a list \<times> nat"

definition rdp :: "'a ptr \<Rightarrow> nat \<Rightarrow> error + 'a" where
  "rdp p i = rd (fst p) (snd p + i)"

fun foldE :: "('a \<Rightarrow> 's \<Rightarrow> error + 's) \<Rightarrow> 'a list \<Rightarrow> 's \<Rightarrow> error + 's" where
  "foldE f [] s = Inr s"
| "foldE f (x # xs) s = (case f x s of Inl e \<Rightarrow> Inl e | Inr s' \<Rightarrow> foldE f xs s')"

text \<open>
  \<^verbatim>\<open>kernel<<<n_blocks, n_threads>>>(...)\<close>: the threads run one after the other in the
  order of \<^verbatim>\<open>blockIdx.x * blockDim.x + threadIdx.x\<close>. Every write to a cell shared
  between threads goes through \<^verbatim>\<open>atomic_prob_add\<close>, whose compare-and-swap loop is one
  read-modify-write of the cell.
\<close>

definition launch :: "nat \<Rightarrow> nat \<Rightarrow> (nat \<Rightarrow> 's \<Rightarrow> error + 's) \<Rightarrow> 's \<Rightarrow> error + 's" where
  "launch blocks threads body s = foldE body [0..<blocks * threads] s"

definition n_threads :: nat where
  "n_threads = 1024"

text \<open>\<^verbatim>\<open>(size + n_threads - 1) / n_threads\<close>\<close>

definition blocks_for :: "nat \<Rightarrow> nat" where
  "blocks_for n = (n + n_threads - 1) div n_threads"

text \<open>
  \<^verbatim>\<open>device_malloc\<close>: the contents of fresh memory are indeterminate; the hosts below fill
  every buffer before reading it.
\<close>

definition device_malloc :: "nat \<Rightarrow> fl list" where
  "device_malloc n = replicate n NaN"

definition atomic_prob_add :: "fl list \<Rightarrow> nat \<Rightarrow> fl \<Rightarrow> error + fl list" where
  "atomic_prob_add mem a b = bindE (rd mem a) (\<lambda>old. wr mem a (prob_add old b))"

section \<open>Kernels shared by the engines\<close>

text \<open>\<^verbatim>\<open>001_set_start_states\<close>; \<open>states\<close> is the offset of the frame in the state buffer.\<close>

definition set_start_states :: "nat \<Rightarrow> nat ptr \<Rightarrow> nat \<Rightarrow> fl list \<Rightarrow> error + fl list" where
  "set_start_states states start_states idx mem =
     bindE (rdp start_states idx) (\<lambda>state_idx. wr mem (states + state_idx) 0)"

text \<open>\<^verbatim>\<open>010_fill_array\<close>\<close>

definition fill_array :: "nat \<Rightarrow> fl \<Rightarrow> nat \<Rightarrow> nat \<Rightarrow> fl list \<Rightarrow> error + fl list" where
  "fill_array array v size_n idx mem = (if idx < size_n then wr mem (array + idx) v else Inr mem)"

text \<open>
  \<^verbatim>\<open>011_remove_inf\<close>. The literal \<^verbatim>\<open>1e32\<close> reaches \<^verbatim>\<open>fminf\<close> as the single-precision
  number nearest to \<open>10 ^ 32\<close>, which is \<open>100000003318135351409612647563264\<close>.
\<close>

definition remove_inf :: "nat \<Rightarrow> nat \<Rightarrow> fl list \<Rightarrow> error + fl list" where
  "remove_inf size_n idx mem =
     (if idx < size_n
      then bindE (rd mem idx)
             (\<lambda>x. wr mem idx (fl_min x (Finite 100000003318135351409612647563264)))
      else Inr mem)"

section \<open>The base engine: kernels of \<^verbatim>\<open>FastBaumWelchOp\<close>\<close>

text \<open>\<^verbatim>\<open>100_init_bwd_state_buffer\<close>; \<^verbatim>\<open>&&\<close> and \<^verbatim>\<open>||\<close> read the mask left to right.\<close>

definition init_bwd_state_buffer ::
  "nat \<Rightarrow> nat ptr \<Rightarrow> nat \<Rightarrow> nat \<Rightarrow> fl ptr \<Rightarrow> nat \<Rightarrow> nat \<Rightarrow> fl list \<Rightarrow> error + fl list" where
  "init_bwd_state_buffer states end_states t max_t index index_stride idx mem =
     bindE (rdp index (t * index_stride + idx)) (\<lambda>here.
       if \<not> fl_eq here (Finite 1) then Inr mem
       else bindE (if t = max_t then Inr True
                   else bindE (rdp index ((t + 1) * index_stride + idx))
                          (\<lambda>after. Inr (fl_eq after (Finite 0)))) (\<lambda>last.
         if last
         then bindE (rdp end_states idx) (\<lambda>state_idx. wr mem (states + state_idx) 0)
         else Inr mem))"

text \<open>
  \<^verbatim>\<open>101_next_frame\<close>. The state is the state buffer and the edge buffer;
  \<open>prev_frame\<close>, \<open>next_frame'\<close> and \<open>edge_buffer\<close> are the offsets the host passes as
  pointers into them. The parameter \<open>num_emissions\<close> receives the sequence stride.
\<close>

definition next_frame ::
  "bool \<Rightarrow> nat \<Rightarrow> nat \<Rightarrow> nat ptr \<Rightarrow> nat ptr \<Rightarrow> nat ptr \<Rightarrow> fl ptr \<Rightarrow> nat ptr \<Rightarrow>
   nat \<Rightarrow> nat \<Rightarrow> fl ptr \<Rightarrow> nat \<Rightarrow> nat \<Rightarrow> fl list \<times> fl list \<Rightarrow> error + fl list \<times> fl list" where
  "next_frame fwd num_edges num_emissions sequence_idxs from_buffer to_buffer weight_buffer
     emission_idxs prev_frame next_frame' am_scores edge_buffer idx mem =
     (case mem of (sb, eb) \<Rightarrow>
      if idx \<ge> num_edges then Inr (sb, eb)
      else
        bindE (rdp from_buffer idx) (\<lambda>from.
        bindE (rd sb (prev_frame + from)) (\<lambda>prev_val.
        if isinf prev_val
        then bindE (wr eb (edge_buffer + idx) PosInf) (\<lambda>eb'. Inr (sb, eb'))
        else
          bindE (rdp to_buffer idx) (\<lambda>to.
          bindE (rdp emission_idxs idx) (\<lambda>emission_idx.
          bindE (rdp weight_buffer idx) (\<lambda>edge_weight.
          bindE (rdp sequence_idxs idx) (\<lambda>sequence_idx.
          bindE (rdp am_scores (sequence_idx * num_emissions + emission_idx)) (\<lambda>am.
          let val = prev_val + edge_weight + am in
          bindE (rd eb (edge_buffer + idx)) (\<lambda>old.
          bindE (wr eb (edge_buffer + idx) (old + (if fwd then val else prev_val))) (\<lambda>eb'.
          bindE (atomic_prob_add sb (next_frame' + to) val) (\<lambda>sb'.
          Inr (sb', eb'))))))))))))"

text \<open>
  \<^verbatim>\<open>102_normalize\<close>, one block per frame and one thread per block. \<open>sum_sh\<close> is the shared
  array of \<open>num_seqs\<close> floats; the state is the edge buffer and \<open>sum_output\<close>.
\<close>

definition normalize_sum :: "nat ptr \<Rightarrow> nat \<Rightarrow> nat \<Rightarrow> fl list \<Rightarrow> nat \<Rightarrow> fl list \<Rightarrow> error + fl list" where
  "normalize_sum sequence_idxs num_edges buffer eb e sum_sh =
     bindE (rdp sequence_idxs e) (\<lambda>s.
     bindE (rd sum_sh s) (\<lambda>acc.
     bindE (rd eb (buffer + e)) (\<lambda>x.
     wr sum_sh s (prob_add acc x))))"

definition normalize_out :: "nat \<Rightarrow> nat \<Rightarrow> fl list \<Rightarrow> nat \<Rightarrow> fl list \<Rightarrow> error + fl list" where
  "normalize_out block num_seqs sum_sh s sum_output =
     bindE (rd sum_sh s) (\<lambda>v.
       if isinf v then wr sum_output (block * num_seqs + s) 0
       else wr sum_output (block * num_seqs + s) v)"

definition normalize_sub :: "nat ptr \<Rightarrow> nat \<Rightarrow> fl list \<Rightarrow> nat \<Rightarrow> fl list \<Rightarrow> error + fl list" where
  "normalize_sub sequence_idxs buffer sum_sh e eb =
     bindE (rdp sequence_idxs e) (\<lambda>s.
     bindE (rd eb (buffer + e)) (\<lambda>x.
     bindE (rd sum_sh s) (\<lambda>v.
     wr eb (buffer + e) (x - v))))"

definition normalize ::
  "nat ptr \<Rightarrow> nat \<Rightarrow> nat \<Rightarrow> nat \<Rightarrow> fl list \<times> fl list \<Rightarrow> error + fl list \<times> fl list" where
  "normalize sequence_idxs num_edges num_seqs block mem =
     (case mem of (eb, sum_output) \<Rightarrow>
      let buffer = block * num_edges in
      bindE (foldE (normalize_sum sequence_idxs num_edges buffer eb) [0..<num_edges]
               (replicate num_seqs PosInf)) (\<lambda>sum_sh.
      bindE (foldE (normalize_out block num_seqs sum_sh) [0..<num_seqs] sum_output) (\<lambda>sum_output'.
      bindE (foldE (normalize_sub sequence_idxs buffer sum_sh) [0..<num_edges] eb) (\<lambda>eb'.
      Inr (eb', sum_output')))))"

text \<open>\<^verbatim>\<open>103_compute_result\<close>; the edge buffer is only read.\<close>

definition compute_result ::
  "fl list \<Rightarrow> nat ptr \<Rightarrow> nat ptr \<Rightarrow> nat \<Rightarrow> nat \<Rightarrow> nat \<Rightarrow> nat \<Rightarrow> nat \<Rightarrow> nat \<Rightarrow> fl list \<Rightarrow>
   error + fl list" where
  "compute_result edge_buffer emission_idxs sequence_idxs frame_stride seq_stride
     num_frames num_seqs num_edges idx out =
     (if idx \<ge> num_frames * num_edges then Inr out
      else
        let e_idx = idx mod num_edges; frame = idx div num_edges in
        bindE (rdp emission_idxs e_idx) (\<lambda>emission_idx.
        bindE (rdp sequence_idxs e_idx) (\<lambda>seq_idx.
        bindE (rd edge_buffer idx) (\<lambda>score.
        atomic_prob_add out (frame * frame_stride + seq_idx * seq_stride + emission_idx) score))))"


section \<open>The segmental engine: kernels of \<^verbatim>\<open>SegmentFastBaumWelchOp\<close>\<close>

text \<open>
  \<^verbatim>\<open>static_cast<unsigned>\<close> of a float truncates towards zero and is undefined outside the
  range of \<^verbatim>\<open>unsigned\<close>; \<open>u32\<close> is the conversion of an \<^verbatim>\<open>int\<close> expression to
  \<^verbatim>\<open>unsigned\<close>.
\<close>

definition to_unsigned :: "fl \<Rightarrow> error + nat" where
  "to_unsigned x =
     (case x of
        Finite r \<Rightarrow> if - 1 < r \<and> r < 2 ^ 32 then Inr (nat \<lfloor>r\<rfloor>) else Inl BadConversion
      | _ \<Rightarrow> Inl BadConversion)"

definition u32 :: "int \<Rightarrow> nat" where
  "u32 i = nat (i mod 2 ^ 32)"

text \<open>\<^verbatim>\<open>100_init_bwd_state_buffer\<close> of the segmental engine.\<close>

definition seg_init_bwd_state_buffer ::
  "nat \<Rightarrow> nat \<Rightarrow> nat \<Rightarrow> int ptr \<Rightarrow> fl ptr \<Rightarrow> nat \<Rightarrow> nat ptr \<Rightarrow> nat \<Rightarrow> fl list \<Rightarrow> error + fl list" where
  "seg_init_bwd_state_buffer t num_batches num_seqs batch_idxs index states end_states idx mem =
     bindE (rdp batch_idxs (t * num_seqs + idx)) (\<lambda>batch_idx.
     if batch_idx < 0 then Inr mem
     else
       bindE (rdp index (nat batch_idx + 0)) (\<lambda>first.
       if fl_eq first (Finite 0) then Inr mem
       else
         bindE (rdp index (nat batch_idx + num_batches)) (\<lambda>beyond.
         if fl_eq beyond (Finite 0)
         then bindE (rdp end_states idx) (\<lambda>state_idx. wr mem (states + state_idx) 0)
         else Inr mem)))"

text \<open>
  \<^verbatim>\<open>101_next_frame_fwd\<close>: the body of the loop over the segment lengths, then the kernel.
  The state is the ring buffer of states and the edge buffer.
\<close>

definition next_frame_fwd_seg ::
  "nat \<Rightarrow> nat \<Rightarrow> nat \<Rightarrow> nat \<Rightarrow> nat \<Rightarrow> nat \<Rightarrow> fl \<Rightarrow> fl \<Rightarrow> fl ptr \<Rightarrow> fl ptr \<Rightarrow> nat \<Rightarrow> nat \<Rightarrow>
   fl list \<times> fl list \<Rightarrow> error + fl list \<times> fl list" where
  "next_frame_fwd_seg num_states num_edges num_emissions num_ringbuffer_frames prev_frame_idx to
     prev_plus_edge am_score_scale am_buffer_in length_scores edge_buffer_out i mem =
     (case mem of (sb, eb) \<Rightarrow>
      bindE (rdp am_buffer_in (i * num_emissions)) (\<lambda>am.
      bindE (rdp length_scores i) (\<lambda>len.
      let val = prev_plus_edge + am_score_scale * am + len in
      bindE (wr eb (edge_buffer_out + i * num_edges) val) (\<lambda>eb'.
      let next_frame = (prev_frame_idx + 1 + i) mod num_ringbuffer_frames in
      bindE (atomic_prob_add sb (next_frame * num_states + to) val) (\<lambda>sb'.
      Inr (sb', eb'))))))"

definition next_frame_fwd ::
  "nat \<Rightarrow> nat \<Rightarrow> nat \<Rightarrow> nat \<Rightarrow> nat \<Rightarrow> nat \<Rightarrow> nat \<Rightarrow> nat \<Rightarrow>
   nat ptr \<Rightarrow> nat ptr \<Rightarrow> nat ptr \<Rightarrow> fl ptr \<Rightarrow> nat ptr \<Rightarrow> nat ptr \<Rightarrow> int ptr \<Rightarrow>
   fl ptr \<Rightarrow> fl ptr \<Rightarrow> fl ptr \<Rightarrow> fl ptr \<Rightarrow> nat \<Rightarrow> nat \<Rightarrow>
   fl list \<times> fl list \<Rightarrow> error + fl list \<times> fl list" where
  "next_frame_fwd time num_states num_edges num_emissions num_seg_frames num_tot_frames num_seqs
     num_am_score_scales sequence_idxs from_buffer to_buffer weight_buffer emission_idxs
     lenmod_idxs batch_idxs am_scores length_models am_score_scales epoch edge_buffer idx mem =
     (case mem of (sb, eb) \<Rightarrow>
      if idx \<ge> num_edges then Inr (sb, eb)
      else
        let num_ringbuffer_frames = num_seg_frames + 1;
            max_seg_frames = min num_seg_frames (num_tot_frames - time);
            prev_frame_idx = time mod num_ringbuffer_frames;
            prev_frame_start = prev_frame_idx * num_states in
        bindE (rdp from_buffer idx) (\<lambda>from.
        bindE (rd sb (prev_frame_start + from)) (\<lambda>prev_val.
        if isinf prev_val then Inr (sb, eb)
        else
          bindE (rdp sequence_idxs idx) (\<lambda>sequence_idx.
          bindE (rdp batch_idxs (time * num_seqs + sequence_idx)) (\<lambda>batch_idx.
          if batch_idx = - 1 then Inr (sb, eb)
          else
            bindE (rdp epoch 0) (\<lambda>ep.
            bindE (to_unsigned ep) (\<lambda>ep_u.
            let amss_idx = min ep_u ((num_am_score_scales + 2 ^ 32 - 1) mod 2 ^ 32) in
            bindE (rdp am_score_scales amss_idx) (\<lambda>am_score_scale.
            bindE (rdp to_buffer idx) (\<lambda>to.
            bindE (rdp emission_idxs idx) (\<lambda>emission_idx.
            bindE (rdp lenmod_idxs idx) (\<lambda>lenmod_idx.
            bindE (rdp weight_buffer idx) (\<lambda>edge_weight.
            let prev_plus_edge = prev_val + edge_weight;
                am_buffer_in =
                  (fst am_scores,
                   snd am_scores
                   + u32 (batch_idx * int num_seg_frames * int num_emissions) + emission_idx);
                length_scores =
                  (fst length_models, snd length_models + lenmod_idx * num_seg_frames);
                edge_buffer_out = edge_buffer + idx in
            foldE (next_frame_fwd_seg num_states num_edges num_emissions num_ringbuffer_frames
                     prev_frame_idx to prev_plus_edge am_score_scale am_buffer_in length_scores
                     edge_buffer_out)
              [0..<max_seg_frames] (sb, eb)))))))))))))"

text \<open>
  \<^verbatim>\<open>102_next_frame_bwd\<close>: the loop over the segment lengths works on the edge buffer and
  \<open>acc_val\<close>; the accumulated value is then added to the frame of \<open>time\<close>.
\<close>

definition next_frame_bwd_seg ::
  "nat \<Rightarrow> nat \<Rightarrow> nat \<Rightarrow> nat \<Rightarrow> nat \<Rightarrow> nat \<Rightarrow> fl \<Rightarrow> fl \<Rightarrow> fl ptr \<Rightarrow> fl ptr \<Rightarrow> nat \<Rightarrow> fl list \<Rightarrow> nat \<Rightarrow>
   fl list \<times> fl \<Rightarrow> error + fl list \<times> fl" where
  "next_frame_bwd_seg num_states num_edges num_emissions num_ringbuffer_frames next_frame_idx from
     edge_weight am_score_scale am_buffer_in length_scores edge_buffer_out sb i mem =
     (case mem of (eb, acc_val) \<Rightarrow>
      let prev_frame_idx = (next_frame_idx + i + 1) mod num_ringbuffer_frames in
      bindE (rd sb (prev_frame_idx * num_states + from)) (\<lambda>prev_val.
      if isinf prev_val
      then bindE (wr eb (edge_buffer_out + i * num_edges) PosInf) (\<lambda>eb'. Inr (eb', acc_val))
      else
        bindE (rdp am_buffer_in (i * num_emissions)) (\<lambda>am.
        bindE (rdp length_scores i) (\<lambda>len.
        let val = prev_val + edge_weight + am_score_scale * am + len in
        bindE (rd eb (edge_buffer_out + i * num_edges)) (\<lambda>old.
        bindE (wr eb (edge_buffer_out + i * num_edges) (old + prev_val)) (\<lambda>eb'.
        Inr (eb', prob_add acc_val val)))))))"

definition next_frame_bwd ::
  "nat \<Rightarrow> nat \<Rightarrow> nat \<Rightarrow> nat \<Rightarrow> nat \<Rightarrow> nat \<Rightarrow> nat \<Rightarrow> nat \<Rightarrow>
   nat ptr \<Rightarrow> nat ptr \<Rightarrow> nat ptr \<Rightarrow> fl ptr \<Rightarrow> nat ptr \<Rightarrow> nat ptr \<Rightarrow> int ptr \<Rightarrow>
   fl ptr \<Rightarrow> fl ptr \<Rightarrow> fl ptr \<Rightarrow> fl ptr \<Rightarrow> nat \<Rightarrow> nat \<Rightarrow>
   fl list \<times> fl list \<Rightarrow> error + fl list \<times> fl list" where
  "next_frame_bwd time num_states num_edges num_emissions num_seg_frames num_tot_frames num_seqs
     num_am_score_scales sequence_idxs from_buffer to_buffer weight_buffer emission_idxs
     lenmod_idxs batch_idxs am_scores length_models am_score_scales epoch edge_buffer idx mem =
     (case mem of (sb, eb) \<Rightarrow>
      if idx \<ge> num_edges then Inr (sb, eb)
      else
        let num_ringbuffer_frames = num_seg_frames + 1;
            max_seg_frames = min num_seg_frames (num_tot_frames - time) in
        bindE (rdp sequence_idxs idx) (\<lambda>sequence_idx.
        bindE (rdp batch_idxs (time * num_seqs + sequence_idx)) (\<lambda>batch_idx.
        if batch_idx = - 1 then Inr (sb, eb)
        else
          bindE (rdp epoch 0) (\<lambda>ep.
          bindE (to_unsigned ep) (\<lambda>ep_u.
          let amss_idx = min ep_u ((num_am_score_scales + 2 ^ 32 - 1) mod 2 ^ 32) in
          bindE (rdp am_score_scales amss_idx) (\<lambda>am_score_scale.
          bindE (rdp from_buffer idx) (\<lambda>from.
          bindE (rdp to_buffer idx) (\<lambda>to.
          bindE (rdp emission_idxs idx) (\<lambda>emission_idx.
          bindE (rdp lenmod_idxs idx) (\<lambda>lenmod_idx.
          bindE (rdp weight_buffer idx) (\<lambda>edge_weight.
          let next_frame_idx = time mod num_ringbuffer_frames;
              am_buffer_in =
                (fst am_scores,
                 snd am_scores
                 + u32 (batch_idx * int num_seg_frames * int num_emissions) + emission_idx);
              length_scores =
                (fst length_models, snd length_models + lenmod_idx * num_seg_frames);
              edge_buffer_out = edge_buffer + idx in
          bindE (foldE (next_frame_bwd_seg num_states num_edges num_emissions
                          num_ringbuffer_frames next_frame_idx from edge_weight am_score_scale
                          am_buffer_in length_scores edge_buffer_out sb)
                   [0..<max_seg_frames] (eb, PosInf)) (\<lambda>(eb', acc_val).
          bindE (atomic_prob_add sb (next_frame_idx * num_states + to) acc_val) (\<lambda>sb'.
          Inr (sb', eb'))))))))))))))"

text \<open>
  \<^verbatim>\<open>103_compute_framewise_sum\<close>. \<open>sum_buffer\<close> is the thread's slice of \<open>num_seqs\<close> floats
  of the shared array.
\<close>

definition framewise_sum_edge :: "nat ptr \<Rightarrow> fl ptr \<Rightarrow> nat \<Rightarrow> fl list \<Rightarrow> error + fl list" where
  "framewise_sum_edge sequence_idxs edge_buffer i sum_buffer =
     bindE (rdp sequence_idxs i) (\<lambda>seq_idx.
     bindE (rd sum_buffer seq_idx) (\<lambda>acc.
     bindE (rdp edge_buffer i) (\<lambda>x.
     wr sum_buffer seq_idx (prob_add acc x))))"

definition framewise_sum_out ::
  "nat \<Rightarrow> nat \<Rightarrow> nat \<Rightarrow> nat \<Rightarrow> int ptr \<Rightarrow> fl ptr \<Rightarrow> fl list \<Rightarrow> nat \<Rightarrow> fl list \<Rightarrow> error + fl list" where
  "framewise_sum_out time seg_size num_seqs num_batches batch_idxs index sum_buffer s output_buffer =
     bindE (rdp batch_idxs (time * num_seqs + s)) (\<lambda>batch_idx.
     if batch_idx \<ge> 0
     then
       let output_idx = seg_size * num_batches + nat batch_idx in
       bindE (rd sum_buffer s) (\<lambda>v.
       bindE (if isinf v then Inr True
              else bindE (rdp index output_idx) (\<lambda>m. Inr (fl_eq m (Finite 0)))) (\<lambda>empty.
       if empty then wr output_buffer output_idx 0
       else wr output_buffer output_idx v))
     else Inr output_buffer)"

definition compute_framewise_sum ::
  "nat \<Rightarrow> nat \<Rightarrow> nat \<Rightarrow> nat \<Rightarrow> nat \<Rightarrow> nat ptr \<Rightarrow> int ptr \<Rightarrow> fl ptr \<Rightarrow> fl list \<Rightarrow> nat \<Rightarrow>
   fl list \<Rightarrow> error + fl list" where
  "compute_framewise_sum num_tot_frames num_seqs num_seg_frames num_batches num_edges
     sequence_idxs batch_idxs index edge_buffer idx output_buffer =
     (if idx \<ge> num_tot_frames * num_seg_frames then Inr output_buffer
      else
        bindE (foldE (framewise_sum_edge sequence_idxs (edge_buffer, idx * num_edges))
                 [0..<num_edges] (replicate num_seqs PosInf)) (\<lambda>sum_buffer.
        let time = idx div num_seg_frames; seg_size = idx mod num_seg_frames in
        foldE (framewise_sum_out time seg_size num_seqs num_batches batch_idxs index sum_buffer)
          [0..<num_seqs] output_buffer))"

text \<open>\<^verbatim>\<open>104_merge_framewise_sums\<close>\<close>

definition merge_sum_step :: "nat \<Rightarrow> nat \<Rightarrow> fl ptr \<Rightarrow> fl list \<Rightarrow> nat \<Rightarrow> fl \<Rightarrow> error + fl" where
  "merge_sum_step idx num_batches index sum_buffer s acc =
     bindE (rdp index (idx + s * num_batches)) (\<lambda>m.
     if \<not> fl_eq m (Finite 0)
     then bindE (rd sum_buffer (idx + s * num_batches)) (\<lambda>x. Inr (prob_add acc x))
     else Inr acc)"

definition merge_sum_store :: "nat \<Rightarrow> nat \<Rightarrow> fl ptr \<Rightarrow> fl \<Rightarrow> nat \<Rightarrow> fl list \<Rightarrow> error + fl list" where
  "merge_sum_store idx num_batches index acc s sum_buffer =
     bindE (rdp index (idx + s * num_batches)) (\<lambda>m.
     if \<not> fl_eq m (Finite 0) then wr sum_buffer (idx + s * num_batches) acc
     else Inr sum_buffer)"

definition merge_framewise_sum :: "nat \<Rightarrow> nat \<Rightarrow> fl ptr \<Rightarrow> nat \<Rightarrow> fl list \<Rightarrow> error + fl list" where
  "merge_framewise_sum num_seg_frames num_batches index idx sum_buffer =
     (if idx \<ge> num_batches then Inr sum_buffer
      else
        bindE (rd sum_buffer (idx + 0)) (\<lambda>first.
        bindE (foldE (merge_sum_step idx num_batches index sum_buffer) [1..<num_seg_frames] first)
          (\<lambda>acc.
        foldE (merge_sum_store idx num_batches index acc) [0..<num_seg_frames] sum_buffer)))"

text \<open>\<^verbatim>\<open>105_compute_targets\<close>\<close>

definition compute_targets ::
  "nat \<Rightarrow> nat \<Rightarrow> nat \<Rightarrow> nat \<Rightarrow> nat \<Rightarrow> nat \<Rightarrow> nat ptr \<Rightarrow> nat ptr \<Rightarrow> int ptr \<Rightarrow> fl ptr \<Rightarrow>
   fl list \<Rightarrow> fl list \<Rightarrow> nat \<Rightarrow> fl list \<Rightarrow> error + fl list" where
  "compute_targets num_tot_frames num_seg_frames num_edges num_batches num_seqs num_emissions
     sequence_idxs emission_idxs batch_idxs index edge_buffer normalization_buffer idx
     output_buffer =
     (if idx \<ge> num_tot_frames * num_seg_frames * num_edges then Inr output_buffer
      else
        let edge_idx = idx mod num_edges;
            time = idx div (num_edges * num_seg_frames) in
        bindE (rdp sequence_idxs edge_idx) (\<lambda>seq_idx.
        bindE (rdp batch_idxs (time * num_seqs + seq_idx)) (\<lambda>batch_idx.
        if batch_idx < 0 then Inr output_buffer
        else
          let seg_length = (idx div num_edges) mod num_seg_frames in
          bindE (rdp index (seg_length * num_batches + nat batch_idx)) (\<lambda>m.
          if fl_eq m (Finite 0) then Inr output_buffer
          else
            bindE (rdp emission_idxs edge_idx) (\<lambda>emission_idx.
            bindE (rd normalization_buffer (seg_length * num_batches + nat batch_idx))
              (\<lambda>normalization.
            bindE (rd edge_buffer idx) (\<lambda>score.
            atomic_prob_add output_buffer
              (seg_length * num_batches * num_emissions + nat batch_idx * num_emissions
               + emission_idx)
              (score - normalization))))))))"

text \<open>
  \<^verbatim>\<open>106_compute_posterior_weights\<close>. The loop over the segment lengths leaves the kernel
  (\<^verbatim>\<open>return\<close>) at the first length whose mask is 0.
\<close>

fun posterior_weights_loop ::
  "nat \<Rightarrow> nat \<Rightarrow> fl ptr \<Rightarrow> fl list \<Rightarrow> fl \<Rightarrow> nat list \<Rightarrow> fl list \<Rightarrow> error + fl list" where
  "posterior_weights_loop num_batches batch_idx index normalization_factors seq_sum [] pw = Inr pw"
| "posterior_weights_loop num_batches batch_idx index normalization_factors seq_sum (s # ss) pw =
     (let i = s * num_batches + batch_idx in
      bindE (rdp index i) (\<lambda>m.
      if fl_eq m (Finite 0) then Inr pw
      else
        bindE (rd normalization_factors i) (\<lambda>norm.
        bindE (wr pw i (fl_exp (- (norm - seq_sum)))) (\<lambda>pw'.
        posterior_weights_loop num_batches batch_idx index normalization_factors seq_sum ss pw'))))"

definition compute_posterior_weights ::
  "nat \<Rightarrow> nat \<Rightarrow> nat \<Rightarrow> nat \<Rightarrow> fl list \<Rightarrow> nat ptr \<Rightarrow> int ptr \<Rightarrow> fl ptr \<Rightarrow> fl list \<Rightarrow> nat \<Rightarrow>
   fl list \<Rightarrow> error + fl list" where
  "compute_posterior_weights num_tot_frames num_seg_frames num_seqs num_batches state_buffer
     start_states batch_idxs index normalization_factors idx posterior_weigths =
     (if idx \<ge> num_tot_frames * num_seqs then Inr posterior_weigths
      else
        let time = idx div num_seqs; seq_idx = idx mod num_seqs in
        bindE (rdp batch_idxs (time * num_seqs + seq_idx)) (\<lambda>batch_idx.
        if batch_idx < 0 then Inr posterior_weigths
        else
          bindE (rdp start_states seq_idx) (\<lambda>start.
          bindE (rd state_buffer start) (\<lambda>seq_sum.
          posterior_weights_loop num_batches (nat batch_idx) index normalization_factors seq_sum
            [0..<num_seg_frames] posterior_weigths))))"

section \<open>The base engine: the host code of \<^verbatim>\<open>FastBaumWelchOp\<close>\<close>

text \<open>
  An \<^verbatim>\<open>Ndarray\<close> is its shape and its contiguous data
  (\<^verbatim>\<open>need_contiguous\<close> in \<^verbatim>\<open>in_info\<close>); the stride of an axis is the product of the
  later dimensions.
\<close>

record 'a ndarray =
  dims :: "nat list"
  data :: "'a list"

definition stride :: "'a ndarray \<Rightarrow> nat \<Rightarrow> nat" where
  "stride a i = prod_list (drop (Suc i) (dims a))"

text \<open>
  The inputs and the allocated outputs of one call. The columns of \<open>edges\<close> arrive as
  \<^verbatim>\<open>int32\<close> and are read as \<^verbatim>\<open>unsigned\<close>; the model holds them as the unsigned values.
\<close>

record fbw_args =
  am_scores :: "fl ndarray"
  edges :: "nat ndarray"
  weights :: "fl ndarray"
  start_end_states :: "nat ndarray"
  index :: "fl ndarray"
  state_buffer :: "fl ndarray"
  out :: "fl ndarray"
  sum_output :: "fl ndarray"

definition n_frames :: "fbw_args \<Rightarrow> nat" where
  "n_frames a = dims (am_scores a) ! 0"

definition n_seqs :: "fbw_args \<Rightarrow> nat" where
  "n_seqs a = dims (am_scores a) ! 1"

definition n_emissions :: "fbw_args \<Rightarrow> nat" where
  "n_emissions a = dims (am_scores a) ! 2"

definition n_states :: "fbw_args \<Rightarrow> nat" where
  "n_states a = dims (state_buffer a) ! 1"

definition n_edges :: "fbw_args \<Rightarrow> nat" where
  "n_edges a = dims (edges a) ! 1"

definition d_from :: "fbw_args \<Rightarrow> nat ptr" where
  "d_from a = (data (edges a), 0 * stride (edges a) 0)"

definition d_to :: "fbw_args \<Rightarrow> nat ptr" where
  "d_to a = (data (edges a), 1 * stride (edges a) 0)"

definition d_emission_idxs :: "fbw_args \<Rightarrow> nat ptr" where
  "d_emission_idxs a = (data (edges a), 2 * stride (edges a) 0)"

definition d_sequence_idxs :: "fbw_args \<Rightarrow> nat ptr" where
  "d_sequence_idxs a = (data (edges a), 3 * stride (edges a) 0)"

definition d_weights :: "fbw_args \<Rightarrow> fl ptr" where
  "d_weights a = (data (weights a), 0)"

definition d_start_states :: "fbw_args \<Rightarrow> nat ptr" where
  "d_start_states a = (data (start_end_states a), 0 * stride (start_end_states a) 0)"

definition d_end_states :: "fbw_args \<Rightarrow> nat ptr" where
  "d_end_states a = (data (start_end_states a), 1 * stride (start_end_states a) 0)"

definition d_index :: "fbw_args \<Rightarrow> fl ptr" where
  "d_index a = (data (index a), 0)"

text \<open>The \<^verbatim>\<open>assert\<close>s of \<^verbatim>\<open>c_fw_code\<close>; all of them come before the first launch.\<close>

definition fbw_asserts :: "fbw_args \<Rightarrow> bool" where
  "fbw_asserts a \<longleftrightarrow>
     dims (am_scores a) ! 0 = dims (out a) ! 0 \<and>
     dims (am_scores a) ! 1 = dims (out a) ! 1 \<and>
     dims (am_scores a) ! 2 = dims (out a) ! 2 \<and>
     dims (am_scores a) ! 1 = dims (start_end_states a) ! 1 \<and>
     dims (sum_output a) ! 0 = dims (am_scores a) ! 0 \<and>
     dims (sum_output a) ! 1 = dims (am_scores a) ! 1 \<and>
     n_frames a > 0"

text \<open>
  The device state of the sweeps: the state buffer with the offsets of its two frames
  (\<^verbatim>\<open>std::swap\<close> exchanges them) and the edge buffer.
\<close>

record device =
  d_state_buffer :: "fl list"
  d_state_buffer_prev :: nat
  d_state_buffer_next :: nat
  d_edge_buffer :: "fl list"

text \<open>Up to \<^verbatim>\<open>set_start_states\<close>: the edge buffer is 0, the previous frame holds the start states.\<close>

definition fbw_init :: "fbw_args \<Rightarrow> error + device" where
  "fbw_init a =
     bindE (launch (blocks_for (n_edges a * n_frames a)) n_threads
              (fill_array 0 0 (n_edges a * n_frames a))
              (device_malloc (n_edges a * n_frames a))) (\<lambda>eb.
     bindE (launch (blocks_for (n_states a)) n_threads
              (fill_array (0 * stride (state_buffer a) 0) PosInf (n_states a))
              (data (state_buffer a))) (\<lambda>sb.
     bindE (launch 1 (n_seqs a)
              (set_start_states (0 * stride (state_buffer a) 0) (d_start_states a)) sb) (\<lambda>sb'.
     Inr \<lparr>d_state_buffer = sb',
          d_state_buffer_prev = 0 * stride (state_buffer a) 0,
          d_state_buffer_next = 1 * stride (state_buffer a) 0,
          d_edge_buffer = eb\<rparr>)))"

text \<open>One iteration of \<^verbatim>\<open>// fwd pass\<close>.\<close>

definition fwd_frame :: "fbw_args \<Rightarrow> nat \<Rightarrow> device \<Rightarrow> error + device" where
  "fwd_frame a t d =
     bindE (launch (blocks_for (n_states a)) n_threads
              (fill_array (d_state_buffer_next d) PosInf (n_states a)) (d_state_buffer d)) (\<lambda>sb.
     bindE (launch (blocks_for (n_edges a)) n_threads
              (next_frame True (n_edges a) (stride (am_scores a) 1)
                 (d_sequence_idxs a) (d_from a) (d_to a) (d_weights a) (d_emission_idxs a)
                 (d_state_buffer_prev d) (d_state_buffer_next d)
                 (data (am_scores a), t * stride (am_scores a) 0) (t * n_edges a))
              (sb, d_edge_buffer d)) (\<lambda>(sb', eb').
     Inr \<lparr>d_state_buffer = sb',
          d_state_buffer_prev = d_state_buffer_next d,
          d_state_buffer_next = d_state_buffer_prev d,
          d_edge_buffer = eb'\<rparr>))"

text \<open>The device after the first \<open>t\<close> iterations of the forward loop.\<close>

fun fwd_pass :: "fbw_args \<Rightarrow> nat \<Rightarrow> error + device" where
  "fwd_pass a 0 = fbw_init a"
| "fwd_pass a (Suc t) = bindE (fwd_pass a t) (fwd_frame a t)"

text \<open>
  One iteration of \<^verbatim>\<open>// bwd pass\<close> for the frame \<open>t\<close> (the loop variable is \<open>t + 1\<close>):
  first \<^verbatim>\<open>init_bwd_state_buffer\<close>, then the step with \<^verbatim>\<open>d_to\<close> and \<^verbatim>\<open>d_from\<close> exchanged.
\<close>

definition bwd_enter :: "fbw_args \<Rightarrow> nat \<Rightarrow> device \<Rightarrow> error + device" where
  "bwd_enter a t d =
     bindE (launch 1 (n_seqs a)
              (init_bwd_state_buffer (d_state_buffer_prev d) (d_end_states a) t (n_frames a - 1)
                 (d_index a) (stride (index a) 0)) (d_state_buffer d)) (\<lambda>sb.
     Inr (d\<lparr>d_state_buffer := sb\<rparr>))"

definition bwd_step :: "fbw_args \<Rightarrow> nat \<Rightarrow> device \<Rightarrow> error + device" where
  "bwd_step a t d =
     bindE (launch (blocks_for (n_states a)) n_threads
              (fill_array (d_state_buffer_next d) PosInf (n_states a)) (d_state_buffer d)) (\<lambda>sb.
     bindE (launch (blocks_for (n_edges a)) n_threads
              (next_frame False (n_edges a) (stride (am_scores a) 1)
                 (d_sequence_idxs a) (d_to a) (d_from a) (d_weights a) (d_emission_idxs a)
                 (d_state_buffer_prev d) (d_state_buffer_next d)
                 (data (am_scores a), t * stride (am_scores a) 0) (t * n_edges a))
              (sb, d_edge_buffer d)) (\<lambda>(sb', eb').
     Inr \<lparr>d_state_buffer = sb',
          d_state_buffer_prev = d_state_buffer_next d,
          d_state_buffer_next = d_state_buffer_prev d,
          d_edge_buffer = eb'\<rparr>))"

definition bwd_frame :: "fbw_args \<Rightarrow> nat \<Rightarrow> device \<Rightarrow> error + device" where
  "bwd_frame a t d = bindE (bwd_enter a t d) (bwd_step a t)"

text \<open>
  The device after the forward loop, the reset of the previous frame and the first \<open>k\<close>
  iterations of the backward loop, which handle the frames \<open>n_frames - 1\<close> down to
  \<open>n_frames - k\<close>.
\<close>

fun bwd_pass :: "fbw_args \<Rightarrow> nat \<Rightarrow> error + device" where
  "bwd_pass a 0 =
     bindE (fwd_pass a (n_frames a)) (\<lambda>d.
     bindE (launch (blocks_for (n_states a)) n_threads
              (fill_array (d_state_buffer_prev d) PosInf (n_states a)) (d_state_buffer d)) (\<lambda>sb.
     Inr (d\<lparr>d_state_buffer := sb\<rparr>)))"
| "bwd_pass a (Suc k) = bindE (bwd_pass a k) (bwd_frame a (n_frames a - Suc k))"

text \<open>
  The scores the sweeps read: \<open>forward_score a t s\<close> is the entry of state \<open>s\<close> in the
  previous frame when the forward loop reaches frame \<open>t\<close>; \<open>backward_score a t s\<close> is the
  entry of \<open>s\<close> in the previous frame when the backward loop has run
  \<^verbatim>\<open>init_bwd_state_buffer\<close> for frame \<open>t - 1\<close>.
\<close>

definition forward_score :: "fbw_args \<Rightarrow> nat \<Rightarrow> nat \<Rightarrow> error + fl" where
  "forward_score a t s =
     bindE (fwd_pass a t) (\<lambda>d. rd (d_state_buffer d) (d_state_buffer_prev d + s))"

definition backward_score :: "fbw_args \<Rightarrow> nat \<Rightarrow> nat \<Rightarrow> error + fl" where
  "backward_score a t s =
     bindE (bwd_pass a (n_frames a - t)) (\<lambda>d.
     bindE (bwd_enter a (t - 1) d) (\<lambda>d'.
     rd (d_state_buffer d') (d_state_buffer_prev d' + s)))"

text \<open>The edge buffer after both sweeps.\<close>

definition fbw_sweeps :: "fbw_args \<Rightarrow> error + fl list" where
  "fbw_sweeps a = bindE (bwd_pass a (n_frames a)) (\<lambda>d. Inr (d_edge_buffer d))"

text \<open>
  \<^verbatim>\<open>// normalize at each time frame\<close> and \<^verbatim>\<open>compute_result\<close> on the output filled
  with \<open>+\<infinity>\<close>. The result is the normalized edge buffer, \<open>out\<close> and \<open>sum_output\<close>.
\<close>

definition fbw_normalize :: "fbw_args \<Rightarrow> fl list \<Rightarrow> error + fl list \<times> fl list" where
  "fbw_normalize a eb =
     launch (n_frames a) 1 (normalize (d_sequence_idxs a) (n_edges a) (n_seqs a))
       (eb, data (sum_output a))"

definition fbw_result :: "fbw_args \<Rightarrow> fl list \<Rightarrow> error + fl list" where
  "fbw_result a eb =
     bindE (launch (blocks_for (n_frames a * n_seqs a * n_emissions a)) n_threads
              (fill_array 0 PosInf (n_frames a * n_seqs a * n_emissions a)) (data (out a))) (\<lambda>ob.
     launch (blocks_for (n_frames a * n_edges a)) n_threads
       (compute_result eb (d_emission_idxs a) (d_sequence_idxs a)
          (stride (out a) 0) (stride (out a) 1) (n_frames a) (n_seqs a) (n_edges a)) ob)"

definition fbw_compute :: "fbw_args \<Rightarrow> error + fl list \<times> fl list \<times> fl list" where
  "fbw_compute a =
     bindE (fbw_sweeps a) (\<lambda>eb.
     bindE (fbw_normalize a eb) (\<lambda>(eb', so).
     bindE (fbw_result a eb') (\<lambda>ob.
     Inr (eb', ob, so))))"

text \<open>
  \<^verbatim>\<open>c_fw_code\<close>: the asserts, the sweeps, the normalization and the result; under
  \<^verbatim>\<open>#if TENSORFLOW\<close> the infinities of the output are replaced. The debug dumps are
  switched off in the source (\<^verbatim>\<open>dump_alignment = false\<close>, \<^verbatim>\<open>dump_output = false\<close>) and
  are left out. The result is \<open>out\<close> and \<open>sum_output\<close>.
\<close>

definition fast_baum_welch :: "bool \<Rightarrow> fbw_args \<Rightarrow> error + fl list \<times> fl list" where
  "fast_baum_welch tensorflow a =
     (if \<not> fbw_asserts a then Inl AssertionFailed
      else
        bindE (fbw_compute a) (\<lambda>(eb, ob, so).
        bindE (if tensorflow
               then launch (blocks_for (n_frames a * n_seqs a * n_emissions a)) n_threads
                      (remove_inf (n_frames a * n_seqs a * n_emissions a)) ob
               else Inr ob) (\<lambda>ob'.
        Inr (ob', so))))"

section \<open>The segmental engine: the host code of \<^verbatim>\<open>SegmentFastBaumWelchOp\<close>\<close>

text \<open>
  The arrays under the names the host code gives them, and the constructor's flag
  \<open>segmentwise_normalization\<close>. \<open>ary_batch_idxs\<close> is read as \<^verbatim>\<open>int\<close>, the columns of
  \<open>ary_edges\<close> and \<open>ary_start_end_states\<close> as \<^verbatim>\<open>unsigned\<close>.
\<close>

record seg_args =
  ary_am_scores :: "fl ndarray"
  ary_batch_idxs :: "int ndarray"
  ary_edges :: "nat ndarray"
  ary_weights :: "fl ndarray"
  ary_start_end_states :: "nat ndarray"
  ary_length_models :: "fl ndarray"
  ary_index :: "fl ndarray"
  ary_am_score_scales :: "fl ndarray"
  ary_epoch :: "fl ndarray"
  ary_out :: "fl ndarray"
  ary_norm_factors :: "fl ndarray"
  ary_posterior_weights :: "fl ndarray"
  segmentwise_normalization :: bool

definition n_seg_frames :: "seg_args \<Rightarrow> nat" where
  "n_seg_frames a = dims (ary_am_scores a) ! 0"

definition n_batches :: "seg_args \<Rightarrow> nat" where
  "n_batches a = dims (ary_am_scores a) ! 1"

definition seg_n_emissions :: "seg_args \<Rightarrow> nat" where
  "seg_n_emissions a = dims (ary_am_scores a) ! 2"

definition n_tot_frames :: "seg_args \<Rightarrow> nat" where
  "n_tot_frames a = dims (ary_batch_idxs a) ! 0"

definition seg_n_seqs :: "seg_args \<Rightarrow> nat" where
  "seg_n_seqs a = dims (ary_batch_idxs a) ! 1"

definition seg_n_edges :: "seg_args \<Rightarrow> nat" where
  "seg_n_edges a = dims (ary_edges a) ! 1"

definition n_am_score_scales :: "seg_args \<Rightarrow> nat" where
  "n_am_score_scales a = dims (ary_am_score_scales a) ! 0"

definition n_ringbuffer_frames :: "seg_args \<Rightarrow> nat" where
  "n_ringbuffer_frames a = n_seg_frames a + 1"

definition seg_edge_row :: "seg_args \<Rightarrow> nat \<Rightarrow> nat ptr" where
  "seg_edge_row a k = (data (ary_edges a), k * stride (ary_edges a) 0)"

definition seg_d_start_states :: "seg_args \<Rightarrow> nat ptr" where
  "seg_d_start_states a =
     (data (ary_start_end_states a), 0 * stride (ary_start_end_states a) 0)"

definition seg_d_end_states :: "seg_args \<Rightarrow> nat ptr" where
  "seg_d_end_states a =
     (data (ary_start_end_states a), 1 * stride (ary_start_end_states a) 0)"

text \<open>
  \<^verbatim>\<open>cudaMemcpy(&tmp, d_end_states + n_seqs - 1, ...)\<close> and \<^verbatim>\<open>n_states = tmp + 1\<close>.
\<close>

definition seg_n_states :: "seg_args \<Rightarrow> error + nat" where
  "seg_n_states a =
     (if seg_n_seqs a = 0 then Inl OutOfBounds
      else bindE (rdp (seg_d_end_states a) (seg_n_seqs a - 1)) (\<lambda>tmp. Inr (tmp + 1)))"

text \<open>
  The launch of \<^verbatim>\<open>next_frame_fwd\<close> or \<^verbatim>\<open>next_frame_bwd\<close> for the frame \<open>t\<close>; the
  backward launch passes \<^verbatim>\<open>d_to\<close> for \<open>from_buffer\<close> and \<^verbatim>\<open>d_from\<close> for \<open>to_buffer\<close>.
\<close>

definition seg_launch_fwd ::
  "seg_args \<Rightarrow> nat \<Rightarrow> nat \<Rightarrow> fl list \<times> fl list \<Rightarrow> error + fl list \<times> fl list" where
  "seg_launch_fwd a n_st t mem =
     launch (blocks_for (seg_n_edges a)) n_threads
       (next_frame_fwd t n_st (seg_n_edges a) (seg_n_emissions a) (n_seg_frames a)
          (n_tot_frames a) (seg_n_seqs a) (n_am_score_scales a)
          (seg_edge_row a 4) (seg_edge_row a 0) (seg_edge_row a 1) (data (ary_weights a), 0)
          (seg_edge_row a 2) (seg_edge_row a 3) (data (ary_batch_idxs a), 0)
          (data (ary_am_scores a), 0) (data (ary_length_models a), 0)
          (data (ary_am_score_scales a), 0) (data (ary_epoch a), 0)
          (t * n_seg_frames a * seg_n_edges a))
       mem"

definition seg_launch_bwd ::
  "seg_args \<Rightarrow> nat \<Rightarrow> nat \<Rightarrow> fl list \<times> fl list \<Rightarrow> error + fl list \<times> fl list" where
  "seg_launch_bwd a n_st t mem =
     launch (blocks_for (seg_n_edges a)) n_threads
       (next_frame_bwd t n_st (seg_n_edges a) (seg_n_emissions a) (n_seg_frames a)
          (n_tot_frames a) (seg_n_seqs a) (n_am_score_scales a)
          (seg_edge_row a 4) (seg_edge_row a 1) (seg_edge_row a 0) (data (ary_weights a), 0)
          (seg_edge_row a 2) (seg_edge_row a 3) (data (ary_batch_idxs a), 0)
          (data (ary_am_scores a), 0) (data (ary_length_models a), 0)
          (data (ary_am_score_scales a), 0) (data (ary_epoch a), 0)
          (t * n_seg_frames a * seg_n_edges a))
       mem"

text \<open>
  The buffers before the forward loop. \<open>n_fill_blocks\<close> keeps the value computed for the
  normalization factors when the forward loop starts.
\<close>

definition seg_init :: "seg_args \<Rightarrow> nat \<Rightarrow> error + (fl list \<times> fl list) \<times> fl list \<times> fl list" where
  "seg_init a n_st =
     (let edge_buffer_size = n_tot_frames a * n_seg_frames a * seg_n_edges a in
      bindE (launch (blocks_for edge_buffer_size) n_threads
               (fill_array 0 PosInf edge_buffer_size) (device_malloc edge_buffer_size)) (\<lambda>eb.
      bindE (launch (blocks_for (n_st * n_ringbuffer_frames a)) n_threads
               (fill_array 0 PosInf (n_st * n_ringbuffer_frames a))
               (device_malloc (n_st * n_ringbuffer_frames a))) (\<lambda>sb.
      bindE (launch (blocks_for (n_batches a * n_seg_frames a)) n_threads
               (fill_array 0 0 (n_batches a * n_seg_frames a)) (data (ary_norm_factors a))) (\<lambda>nf.
      bindE (launch (blocks_for (n_batches a * n_seg_frames a)) n_threads
               (fill_array 0 0 (n_batches a * n_seg_frames a))
               (data (ary_posterior_weights a))) (\<lambda>pw.
      bindE (launch 1 (seg_n_seqs a) (set_start_states 0 (seg_d_start_states a)) sb) (\<lambda>sb'.
      Inr ((sb', eb), nf, pw)))))))"

text \<open>
  One iteration of \<^verbatim>\<open>// fwd pass\<close>; \<^verbatim>\<open>(t - 1) % n_ringbuffer_frames\<close> is computed on
  \<^verbatim>\<open>unsigned\<close>, so \<open>t - 1\<close> is \<open>2 ^ 32 - 1\<close> at \<open>t = 0\<close>.
\<close>

definition seg_fwd_frame ::
  "seg_args \<Rightarrow> nat \<Rightarrow> nat \<Rightarrow> fl list \<times> fl list \<Rightarrow> error + fl list \<times> fl list" where
  "seg_fwd_frame a n_st t mem =
     (case mem of (sb, eb) \<Rightarrow>
      let d_state_buffer_prev =
            (((t + 2 ^ 32 - 1) mod 2 ^ 32) mod n_ringbuffer_frames a) * n_st in
      bindE (launch (blocks_for (n_batches a * n_seg_frames a)) n_threads
               (fill_array d_state_buffer_prev PosInf n_st) sb) (\<lambda>sb'.
      seg_launch_fwd a n_st t (sb', eb)))"

fun seg_fwd_pass ::
  "seg_args \<Rightarrow> nat \<Rightarrow> fl list \<times> fl list \<Rightarrow> nat \<Rightarrow> error + fl list \<times> fl list" where
  "seg_fwd_pass a n_st mem 0 = Inr mem"
| "seg_fwd_pass a n_st mem (Suc t) =
     bindE (seg_fwd_pass a n_st mem t) (seg_fwd_frame a n_st t)"

text \<open>One iteration of \<^verbatim>\<open>// bwd pass\<close> for the frame \<open>t\<close> (the loop variable is \<open>t + 1\<close>).\<close>

definition seg_bwd_frame ::
  "seg_args \<Rightarrow> nat \<Rightarrow> nat \<Rightarrow> fl list \<times> fl list \<Rightarrow> error + fl list \<times> fl list" where
  "seg_bwd_frame a n_st t mem =
     (case mem of (sb, eb) \<Rightarrow>
      let d_state_buffer_next = (t mod n_ringbuffer_frames a) * n_st;
          d_state_buffer_prev = ((t + 1) mod n_ringbuffer_frames a) * n_st in
      bindE (launch (blocks_for n_st) n_threads
               (fill_array d_state_buffer_next PosInf n_st) sb) (\<lambda>sb1.
      bindE (launch 1 (seg_n_seqs a)
               (seg_init_bwd_state_buffer t (n_batches a) (seg_n_seqs a)
                  (data (ary_batch_idxs a), 0) (data (ary_index a), 0) d_state_buffer_prev
                  (seg_d_end_states a)) sb1) (\<lambda>sb2.
      seg_launch_bwd a n_st t (sb2, eb))))"

fun seg_bwd_pass ::
  "seg_args \<Rightarrow> nat \<Rightarrow> fl list \<times> fl list \<Rightarrow> nat \<Rightarrow> error + fl list \<times> fl list" where
  "seg_bwd_pass a n_st mem 0 = Inr mem"
| "seg_bwd_pass a n_st mem (Suc k) =
     bindE (seg_bwd_pass a n_st mem k) (seg_bwd_frame a n_st (n_tot_frames a - Suc k))"

text \<open>
  \<^verbatim>\<open>c_fw_code\<close> of the segmental engine. The result is \<open>out\<close>, the normalization factors
  and the posterior weights. The dump of the targets is left out.
\<close>

definition segment_fast_baum_welch :: "seg_args \<Rightarrow> error + fl list \<times> fl list \<times> fl list" where
  "segment_fast_baum_welch a =
     (if dims (ary_edges a) ! 1 \<noteq> dims (ary_weights a) ! 0 then Inl AssertionFailed
      else
        bindE (seg_n_states a) (\<lambda>n_st.
        bindE (seg_init a n_st) (\<lambda>(mem0, nf0, pw0).
        bindE (seg_fwd_pass a n_st mem0 (n_tot_frames a)) (\<lambda>(sb1, eb1).
        bindE (launch (blocks_for (n_st * n_ringbuffer_frames a)) n_threads
                 (fill_array 0 PosInf (n_st * n_ringbuffer_frames a)) sb1) (\<lambda>sb2.
        bindE (seg_bwd_pass a n_st (sb2, eb1) (n_tot_frames a)) (\<lambda>(sb3, eb3).
        bindE (launch (blocks_for (n_tot_frames a * n_seg_frames a)) n_threads
                 (compute_framewise_sum (n_tot_frames a) (seg_n_seqs a) (n_seg_frames a)
                    (n_batches a) (seg_n_edges a) (seg_edge_row a 4)
                    (data (ary_batch_idxs a), 0) (data (ary_index a), 0) eb3) nf0) (\<lambda>nf1.
        bindE (if segmentwise_normalization a
               then launch (blocks_for (n_batches a)) n_threads
                      (merge_framewise_sum (n_seg_frames a) (n_batches a)
                         (data (ary_index a), 0)) nf1
               else Inr nf1) (\<lambda>nf2.
        bindE (launch (blocks_for (n_tot_frames a * seg_n_seqs a)) n_threads
                 (compute_posterior_weights (n_tot_frames a) (n_seg_frames a) (seg_n_seqs a)
                    (n_batches a) sb3 (seg_d_start_states a) (data (ary_batch_idxs a), 0)
                    (data (ary_index a), 0) nf2) pw0) (\<lambda>pw1.
        bindE (launch (blocks_for (n_batches a * n_seg_frames a * seg_n_emissions a)) n_threads
                 (fill_array 0 PosInf (n_batches a * n_seg_frames a * seg_n_emissions a))
                 (data (ary_out a))) (\<lambda>ob.
        bindE (launch (blocks_for (n_tot_frames a * n_seg_frames a * seg_n_edges a)) n_threads
                 (compute_targets (n_tot_frames a) (n_seg_frames a) (seg_n_edges a)
                    (n_batches a) (seg_n_seqs a) (seg_n_emissions a) (seg_edge_row a 4)
                    (seg_edge_row a 2) (data (ary_batch_idxs a), 0) (data (ary_index a), 0)
                    eb3 nf2) ob) (\<lambda>ob'.
        Inr (ob', nf2, pw1))))))))))))"

section \<open>Well-formed calls and the vocabulary of the properties\<close>

text \<open>The element a pointer designates, for statements about arrays known to be long enough.\<close>

definition elem :: "'a ptr \<Rightarrow> nat \<Rightarrow> 'a" where
  "elem p i = fst p ! (snd p + i)"

text \<open>
  A well-formed call of the base engine: the arrays have the shapes of \<^verbatim>\<open>in_info\<close> and
  \<^verbatim>\<open>out_info\<close> and hold as many elements as their shape says, the four columns of every
  edge and the start and end states are inside their ranges, and there is at least one frame.
\<close>

definition wf_args :: "fbw_args \<Rightarrow> bool" where
  "wf_args a \<longleftrightarrow>
     length (dims (am_scores a)) = 3 \<and>
     length (data (am_scores a)) = n_frames a * n_seqs a * n_emissions a \<and>
     dims (edges a) = [4, n_edges a] \<and>
     length (data (edges a)) = 4 * n_edges a \<and>
     dims (weights a) = [n_edges a] \<and>
     length (data (weights a)) = n_edges a \<and>
     dims (start_end_states a) = [2, n_seqs a] \<and>
     length (data (start_end_states a)) = 2 * n_seqs a \<and>
     dims (index a) = [n_frames a, n_seqs a] \<and>
     length (data (index a)) = n_frames a * n_seqs a \<and>
     dims (state_buffer a) = [2, n_states a] \<and>
     length (data (state_buffer a)) = 2 * n_states a \<and>
     dims (out a) = dims (am_scores a) \<and>
     length (data (out a)) = n_frames a * n_seqs a * n_emissions a \<and>
     dims (sum_output a) = [n_frames a, n_seqs a] \<and>
     length (data (sum_output a)) = n_frames a * n_seqs a \<and>
     (\<forall>e < n_edges a.
        elem (d_from a) e < n_states a \<and> elem (d_to a) e < n_states a \<and>
        elem (d_emission_idxs a) e < n_emissions a \<and> elem (d_sequence_idxs a) e < n_seqs a) \<and>
     (\<forall>s < n_seqs a. elem (d_start_states a) s < n_states a \<and> elem (d_end_states a) s < n_states a) \<and>
     0 < n_frames a"

text \<open>The emission score the edge \<open>e\<close> reads at the frame \<open>t\<close>.\<close>

definition emission_score :: "fbw_args \<Rightarrow> nat \<Rightarrow> nat \<Rightarrow> fl" where
  "emission_score a e t =
     data (am_scores a)
       ! (t * stride (am_scores a) 0
          + (elem (d_sequence_idxs a) e * stride (am_scores a) 1 + elem (d_emission_idxs a) e))"

text \<open>
  The frame \<open>t\<close> is the last live frame of the sequence \<open>idx\<close>: the mask is 1 at \<open>t\<close>, and \<open>t\<close>
  is the last frame of the batch or the mask is 0 at \<open>t + 1\<close>.
\<close>

definition last_live_frame :: "fbw_args \<Rightarrow> nat \<Rightarrow> nat \<Rightarrow> bool" where
  "last_live_frame a idx t \<longleftrightarrow>
     fl_eq (elem (d_index a) (t * stride (index a) 0 + idx)) (Finite 1) \<and>
     (t = n_frames a - 1 \<or>
      fl_eq (elem (d_index a) ((t + 1) * stride (index a) 0 + idx)) (Finite 0))"

text \<open>
  A score is a cost in \<open>- log\<close> space: a finite number or \<open>+\<infinity>\<close>. Its probability is
  \<open>exp (- x)\<close>, and 0 for \<open>+\<infinity>\<close>.
\<close>

fun is_score :: "fl \<Rightarrow> bool" where
  "is_score (Finite x) = True"
| "is_score PosInf = True"
| "is_score x = False"

fun prob :: "fl \<Rightarrow> real" where
  "prob (Finite x) = exp (- x)"
| "prob x = 0"

definition score_inputs :: "fbw_args \<Rightarrow> bool" where
  "score_inputs a \<longleftrightarrow>
     list_all is_score (data (am_scores a)) \<and> list_all is_score (data (weights a))"

text \<open>The log-sum-exp of a list of scores, taken with the engine's own \<^verbatim>\<open>prob_add\<close>.\<close>

definition log_sum_exp :: "fl list \<Rightarrow> fl" where
  "log_sum_exp xs = foldl prob_add PosInf xs"

section \<open>A small call\<close>

text \<open>
  One sequence of one live frame in a batch of two frames (the mask is 1, 0), two states with
  start state 0 and end state 1, one edge \<open>0 \<rightarrow> 1\<close> with emission label 0 and weight 0, and
  all emission scores 0. The properties below are instantiated at this call.
\<close>

definition example_args :: fbw_args where
  "example_args =
     \<lparr>am_scores = \<lparr>dims = [2, 1, 1], data = [Finite 0, Finite 0]\<rparr>,
      edges = \<lparr>dims = [4, 1], data = [0, 1, 0, 0]\<rparr>,
      weights = \<lparr>dims = [1], data = [Finite 0]\<rparr>,
      start_end_states = \<lparr>dims = [2, 1], data = [0, 1]\<rparr>,
      index = \<lparr>dims = [2, 1], data = [Finite 1, Finite 0]\<rparr>,
      state_buffer = \<lparr>dims = [2, 2], data = [Finite 0, Finite 0, Finite 0, Finite 0]\<rparr>,
      out = \<lparr>dims = [2, 1, 1], data = [Finite 0, Finite 0]\<rparr>,
      sum_output = \<lparr>dims = [2, 1], data = [Finite 0, Finite 0]\<rparr>\<rparr>"

text \<open>
  The shape of the device state between two launches of the sweeps: the state buffer holds
  its two frames, one at offset 0 and one at offset \<open>n_states\<close>, and the edge buffer holds
  one entry per frame and edge.
\<close>

definition device_ok :: "fbw_args \<Rightarrow> device \<Rightarrow> bool" where
  "device_ok a d \<longleftrightarrow>
     length (d_state_buffer d) = 2 * n_states a \<and>
     length (d_edge_buffer d) = n_frames a * n_edges a \<and>
     (d_state_buffer_prev d = 0 \<and> d_state_buffer_next d = n_states a \<or>
      d_state_buffer_prev d = n_states a \<and> d_state_buffer_next d = 0)"

text \<open>
  The small call with the source state of its edge changed to 7, outside the two states of
  the state buffer; every shape is as before.
\<close>

definition stray_edge_args :: fbw_args where
  "stray_edge_args = example_args\<lparr>edges := \<lparr>dims = [4, 1], data = [7, 1, 0, 0]\<rparr>\<rparr>"

text \<open>
  A call of the segmental engine with maximum segment length 1: one sequence of one frame
  in batch slot 0, the same two states and edge, length model 0, scale 1, epoch 0. Beside
  it, the call of the base engine on the same graph and scores.
\<close>

definition single_segment_args :: seg_args where
  "single_segment_args =
     \<lparr>ary_am_scores = \<lparr>dims = [1, 1, 1], data = [Finite 0]\<rparr>,
      ary_batch_idxs = \<lparr>dims = [1, 1], data = [0]\<rparr>,
      ary_edges = \<lparr>dims = [5, 1], data = [0, 1, 0, 0, 0]\<rparr>,
      ary_weights = \<lparr>dims = [1], data = [Finite 0]\<rparr>,
      ary_start_end_states = \<lparr>dims = [2, 1], data = [0, 1]\<rparr>,
      ary_length_models = \<lparr>dims = [1, 1], data = [Finite 0]\<rparr>,
      ary_index = \<lparr>dims = [1, 1], data = [Finite 1]\<rparr>,
      ary_am_score_scales = \<lparr>dims = [1], data = [Finite 1]\<rparr>,
      ary_epoch = \<lparr>dims = [], data = [Finite 0]\<rparr>,
      ary_out = \<lparr>dims = [1, 1, 1], data = [Finite 0]\<rparr>,
      ary_norm_factors = \<lparr>dims = [1, 1], data = [Finite 0]\<rparr>,
      ary_posterior_weights = \<lparr>dims = [1, 1], data = [Finite 0]\<rparr>,
      segmentwise_normalization = False\<rparr>"

definition single_frame_args :: fbw_args where
  "single_frame_args =
     \<lparr>am_scores = \<lparr>dims = [1, 1, 1], data = [Finite 0]\<rparr>,
      edges = \<lparr>dims = [4, 1], data = [0, 1, 0, 0]\<rparr>,
      weights = \<lparr>dims = [1], data = [Finite 0]\<rparr>,
      start_end_states = \<lparr>dims = [2, 1], data = [0, 1]\<rparr>,
      index = \<lparr>dims = [1, 1], data = [Finite 1]\<rparr>,
      state_buffer = \<lparr>dims = [2, 2], data = [Finite 0, Finite 0, Finite 0, Finite 0]\<rparr>,
      out = \<lparr>dims = [1, 1, 1], data = [Finite 0]\<rparr>,
      sum_output = \<lparr>dims = [1, 1], data = [Finite 0]\<rparr>\<rparr>"

section \<open>Basic facts about the memory model and the arithmetic\<close>

lemmas fl_arith = zero_fl_def plus_fl_def uminus_fl_def minus_fl_def times_fl_def

lemma bindE_Inr [simp]: "bindE (Inr x) f = f x"
  by (simp add: bindE_def)

lemma bindE_Inl [simp]: "bindE (Inl e) f = Inl e"
  by (simp add: bindE_def)

lemma bindE_eq_Inr: "bindE m f = Inr y \<longleftrightarrow> (\<exists>x. m = Inr x \<and> f x = Inr y)"
  by (cases m) simp_all

lemma rd_in [simp]: "i < length xs \<Longrightarrow> rd xs i = Inr (xs ! i)"
  by (simp add: rd_def)

lemma rd_out [simp]: "\<not> i < length xs \<Longrightarrow> rd xs i = Inl OutOfBounds"
  by (simp add: rd_def)

lemma wr_in [simp]: "i < length xs \<Longrightarrow> wr xs i v = Inr (xs[i := v])"
  by (simp add: wr_def)

lemma wr_out [simp]: "\<not> i < length xs \<Longrightarrow> wr xs i v = Inl OutOfBounds"
  by (simp add: wr_def)

lemma foldE_append:
  "foldE f (xs @ ys) s = bindE (foldE f xs s) (foldE f ys)"
  by (induction xs arbitrary: s) (simp_all add: bindE_def split: sum.splits)

lemma foldE_upt_Suc:
  "foldE f [0..<Suc n] s = bindE (foldE f [0..<n] s) (f n)"
  by (simp add: foldE_append bindE_def split: sum.splits)

text \<open>A loop rule: an invariant indexed by the number of iterations done.\<close>

lemma foldE_upt_rule:
  assumes "P 0 s"
    and "\<And>i s. i < n \<Longrightarrow> P i s \<Longrightarrow> \<exists>s'. f i s = Inr s' \<and> P (Suc i) s'"
  shows "\<exists>s'. foldE f [0..<n] s = Inr s' \<and> P n s'"
  using assms(2)
proof (induction n)
  case 0
  with assms(1) show ?case by simp
next
  case (Suc n)
  then obtain s1 where s1: "foldE f [0..<n] s = Inr s1" "P n s1"
    by (metis less_Suc_eq)
  from Suc.prems [of n s1] s1 obtain s2 where "f n s1 = Inr s2" "P (Suc n) s2"
    by auto
  with s1 show ?case
    by (simp add: foldE_append)
qed

lemma launch_rule:
  assumes "P 0 s"
    and "\<And>i s. i < b * t \<Longrightarrow> P i s \<Longrightarrow> \<exists>s'. f i s = Inr s' \<and> P (Suc i) s'"
  shows "\<exists>s'. launch b t f s = Inr s' \<and> P (b * t) s'"
  unfolding launch_def using assms by (rule foldE_upt_rule)

text \<open>Threads beyond the guard of a kernel do nothing.\<close>

lemma foldE_upt_idle:
  assumes "\<And>i s. m \<le> i \<Longrightarrow> f i s = Inr s" and "m \<le> n"
  shows "foldE f [0..<n] s = foldE f [0..<m] s"
  using assms(2)
proof (induction n)
  case 0
  then show ?case by simp
next
  case (Suc n)
  show ?case
  proof (cases "m = Suc n")
    case True
    then show ?thesis by simp
  next
    case False
    with Suc have "m \<le> n" by simp
    with Suc.IH have "foldE f [0..<n] s = foldE f [0..<m] s" by simp
    moreover have "\<And>s. f n s = Inr s" using assms(1) \<open>m \<le> n\<close> by simp
    ultimately show ?thesis
      by (simp add: foldE_append bindE_def split: sum.splits)
  qed
qed

lemma blocks_for_ge: "n \<le> blocks_for n * n_threads"
proof -
  have "(n + 1023) div 1024 * 1024 + (n + 1023) mod 1024 = n + 1023"
    by (rule div_mult_mod_eq)
  moreover have "(n + 1023) mod 1024 < 1024"
    by (rule mod_less_divisor) simp
  ultimately have "n \<le> (n + 1023) div 1024 * 1024"
    by linarith
  then show ?thesis by (simp add: blocks_for_def n_threads_def)
qed

lemma launch_idle:
  assumes "\<And>i s. m \<le> i \<Longrightarrow> f i s = Inr s" and "m \<le> b * t"
  shows "launch b t f s = foldE f [0..<m] s"
  unfolding launch_def using assms by (rule foldE_upt_idle)

lemma prob_add_PosInf_right: "\<not> isnan a \<Longrightarrow> prob_add a PosInf = a"
  by (cases a) (simp_all add: prob_add_def fl_arith)

lemma prob_add_Finite:
  "prob_add (Finite a) (Finite b) = Finite (- ln (1 + exp (- \<bar>a - b\<bar>)) + min a b)"
proof -
  have "- 1 < exp (- \<bar>a - b\<bar>)"
    by (rule less_trans [of _ 0]) simp_all
  then show ?thesis
    by (simp add: prob_add_def fl_arith Let_def)
qed

lemma log_add_real:
  fixes a b :: real
  shows "- ln (1 + exp (- \<bar>a - b\<bar>)) + min a b = - ln (exp (- a) + exp (- b))"
proof (cases "a \<le> b")
  case True
  have "exp (- a) + exp (- b) = exp (- a) * (1 + exp (- (b - a)))"
    by (simp add: algebra_simps flip: exp_add)
  moreover have "0 < 1 + exp (- (b - a))"
    by (simp add: add_pos_pos)
  ultimately have "ln (exp (- a) + exp (- b)) = - a + ln (1 + exp (- (b - a)))"
    by (simp add: ln_mult)
  with True show ?thesis by (simp add: min_def abs_if)
next
  case False
  have "exp (- a) + exp (- b) = exp (- b) * (1 + exp (- (a - b)))"
    by (simp add: algebra_simps flip: exp_add)
  moreover have "0 < 1 + exp (- (a - b))"
    by (simp add: add_pos_pos)
  ultimately have "ln (exp (- a) + exp (- b)) = - b + ln (1 + exp (- (a - b)))"
    by (simp add: ln_mult)
  with False show ?thesis by (simp add: min_def abs_if)
qed

lemma prob_add_nan_diff: "isnan (a - b) \<Longrightarrow> prob_add a b = PosInf"
  by (simp add: prob_add_def)

lemma prob_add_self_not_nan: "\<not> isnan (prob_add a a)"
  by (cases a) (simp_all add: prob_add_def fl_arith)

lemma fl_eq_self: "fl_eq a a \<longleftrightarrow> \<not> isnan a"
  by (cases a) simp_all

lemma prob_add_commute: "prob_add a b = prob_add b a"
proof (cases a)
  case (Finite x)
  then show ?thesis
  proof (cases b)
    case (Finite y)
    with \<open>a = Finite x\<close> show ?thesis
      by (simp add: prob_add_Finite abs_minus_commute min.commute)
  qed (simp_all add: prob_add_def fl_arith)
next
  case PosInf
  then show ?thesis by (cases b) (simp_all add: prob_add_def fl_arith)
next
  case NegInf
  then show ?thesis by (cases b) (simp_all add: prob_add_def fl_arith)
next
  case NaN
  then show ?thesis by (cases b) (simp_all add: prob_add_def fl_arith)
qed

lemma prob_add_direct:
  "\<not> isnan (a - b) \<Longrightarrow> prob_add a b = - fl_log1p (fl_exp (- fl_abs (a - b))) + fl_min a b"
  by (simp add: prob_add_def)

lemma prob_add_log_sum:
  assumes "is_score a" and "is_score b"
  shows "prob_add a b = - fl_log (fl_exp (- a) + fl_exp (- b))"
proof (cases a)
  case (Finite x)
  show ?thesis
  proof (cases b)
    case (Finite y)
    have pos: "0 < exp (- x) + exp (- y)"
      by (simp add: add_pos_pos)
    have "prob_add (Finite x) (Finite y) = Finite (- ln (exp (- x) + exp (- y)))"
      by (simp only: prob_add_Finite log_add_real)
    with pos Finite \<open>a = Finite x\<close> show ?thesis
      by (simp add: fl_arith)
  next
    case PosInf
    with \<open>a = Finite x\<close> show ?thesis
      by (simp add: prob_add_PosInf_right fl_arith)
  qed (use assms in simp_all)
next
  case PosInf
  show ?thesis
  proof (cases b)
    case (Finite y)
    with PosInf show ?thesis
      by (simp add: prob_add_def fl_arith)
  next
    case PosInf
    with \<open>a = PosInf\<close> show ?thesis
      by (simp add: prob_add_def fl_arith)
  qed (use assms in simp_all)
qed (use assms in simp_all)

text \<open>
  C3: \<^verbatim>\<open>prob_add\<close> returns its first argument when the second is \<open>+\<infinity>\<close>, for every value
  \<open>a\<close> in the sense of the C comparison (\<open>a == a\<close>); it is commutative; \<open>prob_add a a\<close> is never
  NaN; when \<open>a - b\<close> is NaN the result is \<open>+\<infinity>\<close>; otherwise it is computed as
  \<open>- log1p (exp (- |a - b|)) + min a b\<close>; and on scores, \<open>+\<infinity>\<close> included, the result is
  \<open>- log (exp (- a) + exp (- b))\<close>.
\<close>

theorem prob_add_laws:
  "(\<forall>a. fl_eq a a \<longrightarrow> prob_add a PosInf = a \<and> fl_eq (prob_add a PosInf) a) \<and>
   (\<forall>a b. prob_add a b = prob_add b a) \<and>
   (\<forall>a. \<not> isnan (prob_add a a)) \<and>
   (\<forall>a b. isnan (a - b) \<longrightarrow> prob_add a b = PosInf) \<and>
   (\<forall>a b. \<not> isnan (a - b) \<longrightarrow>
      prob_add a b = - fl_log1p (fl_exp (- fl_abs (a - b))) + fl_min a b) \<and>
   (\<forall>a b. is_score a \<and> is_score b \<longrightarrow>
      prob_add a b = - fl_log (fl_exp (- a) + fl_exp (- b)))"
proof -
  have c1: "\<forall>a. fl_eq a a \<longrightarrow> prob_add a PosInf = a \<and> fl_eq (prob_add a PosInf) a"
    by (simp add: fl_eq_self prob_add_PosInf_right)
  have c2: "\<forall>a b. prob_add a b = prob_add b a"
    using prob_add_commute by blast
  have c3: "\<forall>a. \<not> isnan (prob_add a a)"
    by (simp add: prob_add_self_not_nan)
  have c4: "\<forall>a b. isnan (a - b) \<longrightarrow> prob_add a b = PosInf"
    by (simp add: prob_add_nan_diff)
  have c5: "\<forall>a b. \<not> isnan (a - b) \<longrightarrow>
      prob_add a b = - fl_log1p (fl_exp (- fl_abs (a - b))) + fl_min a b"
    by (simp add: prob_add_direct)
  have c6: "\<forall>a b. is_score a \<and> is_score b \<longrightarrow>
      prob_add a b = - fl_log (fl_exp (- a) + fl_exp (- b))"
    by (simp add: prob_add_log_sum)
  show ?thesis
    apply (rule conjI, rule c1)
    apply (rule conjI, rule c2)
    apply (rule conjI, rule c3)
    apply (rule conjI, rule c4)
    apply (rule conjI, rule c5)
    apply (rule c6)
    done
qed

theorem prob_add_laws_witness:
  "fl_eq (Finite 2) (Finite 2) \<and> prob_add (Finite 2) PosInf = Finite 2 \<and>
   fl_eq PosInf PosInf \<and> prob_add PosInf PosInf = PosInf \<and>
   isnan (PosInf - PosInf) \<and>
   \<not> isnan (Finite 0 - PosInf) \<and>
   prob_add (Finite 0) PosInf
     = - fl_log1p (fl_exp (- fl_abs (Finite 0 - PosInf))) + fl_min (Finite 0) PosInf \<and>
   is_score (Finite 0) \<and> is_score PosInf \<and>
   prob_add (Finite 0) PosInf = - fl_log (fl_exp (- Finite 0) + fl_exp (- PosInf))"
proof -
  have h1: "fl_eq (Finite 2) (Finite 2)" by simp
  have h2: "isnan (PosInf - PosInf)" by (simp add: fl_arith)
  have h3: "\<not> isnan (Finite 0 - PosInf)" by (simp add: fl_arith)
  have h4: "fl_eq PosInf PosInf" by simp
  have h5: "is_score (Finite 0) \<and> is_score PosInf" by simp
  from prob_add_laws h1 have "prob_add (Finite 2) PosInf = Finite 2" by blast
  moreover from prob_add_laws h4 have "prob_add PosInf PosInf = PosInf" by blast
  moreover from prob_add_laws h3 have "prob_add (Finite 0) PosInf
     = - fl_log1p (fl_exp (- fl_abs (Finite 0 - PosInf))) + fl_min (Finite 0) PosInf" by blast
  moreover from prob_add_laws h5
  have "prob_add (Finite 0) PosInf = - fl_log (fl_exp (- Finite 0) + fl_exp (- PosInf))"
    by blast
  ultimately show ?thesis using h1 h2 h3 h4 h5 by blast
qed

section \<open>Launches of the shared kernels\<close>

lemma fill_array_launch:
  assumes "off + n \<le> length mem" and "n \<le> b * t"
  shows "\<exists>mem'. launch b t (fill_array off v n) mem = Inr mem' \<and> length mem' = length mem \<and>
           (\<forall>j. mem' ! j = (if off \<le> j \<and> j < off + n then v else mem ! j))"
proof -
  let ?P = "\<lambda>i m. length m = length mem \<and>
                (\<forall>j. m ! j = (if off \<le> j \<and> j < off + min i n then v else mem ! j))"
  have "\<exists>s'. launch b t (fill_array off v n) mem = Inr s' \<and> ?P (b * t) s'"
  proof (rule launch_rule)
    show "?P 0 mem" by auto
  next
    fix i m
    assume i: "i < b * t" and P: "?P i m"
    show "\<exists>s'. fill_array off v n i m = Inr s' \<and> ?P (Suc i) s'"
    proof (cases "i < n")
      case True
      with assms P have "fill_array off v n i m = Inr (m[off + i := v])"
        by (simp add: fill_array_def)
      moreover from True P assms(1) have "?P (Suc i) (m[off + i := v])"
        by (auto simp: nth_list_update min_def)
      ultimately show ?thesis by blast
    next
      case False
      then have "fill_array off v n i m = Inr m"
        by (simp add: fill_array_def)
      moreover from False P have "?P (Suc i) m"
        by (simp add: min_def)
      ultimately show ?thesis by blast
    qed
  qed
  moreover from assms(2) have "min (b * t) n = n" by simp
  ultimately show ?thesis by (simp only:)
qed

lemma set_start_states_launch:
  assumes "\<forall>idx<S. snd p + idx < length (fst p) \<and> off + elem p idx < length mem"
  shows "\<exists>mem'. launch 1 S (set_start_states off p) mem = Inr mem' \<and> length mem' = length mem \<and>
           (\<forall>j. mem' ! j = (if \<exists>idx<S. off + elem p idx = j then 0 else mem ! j))"
proof -
  let ?P = "\<lambda>i m. length m = length mem \<and>
                (\<forall>j. m ! j = (if \<exists>idx<i. off + elem p idx = j then 0 else mem ! j))"
  have "\<exists>s'. launch 1 S (set_start_states off p) mem = Inr s' \<and> ?P (1 * S) s'"
  proof (rule launch_rule)
    show "?P 0 mem" by simp
  next
    fix i m
    assume i: "i < 1 * S" and P: "?P i m"
    from assms i P have r: "snd p + i < length (fst p)" "off + elem p i < length m"
      by auto
    then have "set_start_states off p i m = Inr (m[off + elem p i := 0])"
      by (simp add: set_start_states_def rdp_def elem_def)
    moreover from P r have "?P (Suc i) (m[off + elem p i := 0])"
      by (auto simp: nth_list_update less_Suc_eq)
    ultimately show "\<exists>s'. set_start_states off p i m = Inr s' \<and> ?P (Suc i) s'"
      by blast
  qed
  then show ?thesis by simp
qed

lemma init_bwd_state_buffer_launch:
  assumes "\<forall>idx<S. snd ix + (t * st + idx) < length (fst ix) \<and>
                    (t \<noteq> mx \<longrightarrow> snd ix + ((t + 1) * st + idx) < length (fst ix)) \<and>
                    snd es + idx < length (fst es) \<and> off + elem es idx < length mem"
  shows "\<exists>mem'. launch 1 S (init_bwd_state_buffer off es t mx ix st) mem = Inr mem' \<and>
           length mem' = length mem \<and>
           (\<forall>j. mem' ! j =
              (if \<exists>idx<S. off + elem es idx = j \<and>
                    fl_eq (elem ix (t * st + idx)) (Finite 1) \<and>
                    (t = mx \<or> fl_eq (elem ix ((t + 1) * st + idx)) (Finite 0))
               then 0 else mem ! j))"
proof -
  let ?c = "\<lambda>idx. fl_eq (elem ix (t * st + idx)) (Finite 1) \<and>
                    (t = mx \<or> fl_eq (elem ix ((t + 1) * st + idx)) (Finite 0))"
  let ?P = "\<lambda>i m. length m = length mem \<and>
                (\<forall>j. m ! j = (if \<exists>idx<i. off + elem es idx = j \<and> ?c idx then 0 else mem ! j))"
  have "\<exists>s'. launch 1 S (init_bwd_state_buffer off es t mx ix st) mem = Inr s' \<and> ?P (1 * S) s'"
  proof (rule launch_rule)
    show "?P 0 mem" by simp
  next
    fix i m
    assume i: "i < 1 * S" and P: "?P i m"
    from assms i P have r: "snd ix + (t * st + i) < length (fst ix)"
        "t \<noteq> mx \<Longrightarrow> snd ix + ((t + 1) * st + i) < length (fst ix)"
        "snd es + i < length (fst es)" "off + elem es i < length m"
      by auto
    show "\<exists>s'. init_bwd_state_buffer off es t mx ix st i m = Inr s' \<and> ?P (Suc i) s'"
    proof (cases "?c i")
      case True
      with r have "init_bwd_state_buffer off es t mx ix st i m = Inr (m[off + elem es i := 0])"
        by (auto simp: init_bwd_state_buffer_def rdp_def elem_def)
      moreover from P True r have "?P (Suc i) (m[off + elem es i := 0])"
        by (auto simp: nth_list_update less_Suc_eq)
      ultimately show ?thesis by blast
    next
      case False
      with r have "init_bwd_state_buffer off es t mx ix st i m = Inr m"
        by (auto simp: init_bwd_state_buffer_def rdp_def elem_def)
      moreover from P False have "?P (Suc i) m"
        by (auto simp: less_Suc_eq)
      ultimately show ?thesis by blast
    qed
  qed
  then show ?thesis by simp
qed

section \<open>Scores\<close>

lemma is_score_cases: "is_score x \<longleftrightarrow> (\<exists>r. x = Finite r) \<or> x = PosInf"
  by (cases x) simp_all

lemma is_score_add: "is_score x \<Longrightarrow> is_score y \<Longrightarrow> is_score (x + y)"
  by (cases x; cases y) (simp_all add: plus_fl_def)

lemma is_score_zero [simp]: "is_score 0"
  by (simp add: zero_fl_def)

lemma is_score_prob_add: "is_score x \<Longrightarrow> is_score y \<Longrightarrow> is_score (prob_add x y)"
proof (cases x)
  case (Finite a)
  then show "is_score y \<Longrightarrow> is_score (prob_add x y)"
    by (cases y) (simp_all add: prob_add_Finite prob_add_PosInf_right)
next
  case PosInf
  then show "is_score y \<Longrightarrow> is_score (prob_add x y)"
    by (cases y) (simp_all add: prob_add_def fl_arith)
qed simp_all

lemma zero_add_fl [simp]: "(0::fl) + x = x"
  by (cases x) (simp_all add: fl_arith)

section \<open>The launch of \<^verbatim>\<open>next_frame\<close>\<close>

lemma next_frame_launch:
  assumes rows: "\<forall>e<n. rdp from_buffer e = Inr (fr e) \<and> rdp to_buffer e = Inr (tt e) \<and>
                   rdp weight_buffer e = Inr (w e) \<and> rdp emission_idxs e = Inr (em e) \<and>
                   rdp sequence_idxs e = Inr (sq e) \<and> rdp am (sq e * ne + em e) = Inr (amv e)"
    and states: "\<forall>e<n. fr e < ns \<and> tt e < ns"
    and frames: "prev + ns \<le> length sb" "nxt + ns \<le> length sb"
      "prev + ns \<le> nxt \<or> nxt + ns \<le> prev"
    and edges: "eoff + n \<le> length eb"
    and threads: "n \<le> b * t"
  shows "\<exists>sb' eb'.
           launch b t (next_frame fwd n ne sequence_idxs from_buffer to_buffer weight_buffer
                         emission_idxs prev nxt am eoff) (sb, eb) = Inr (sb', eb') \<and>
           length sb' = length sb \<and> length eb' = length eb \<and>
           (\<forall>j. \<not> (nxt \<le> j \<and> j < nxt + ns) \<longrightarrow> sb' ! j = sb ! j) \<and>
           (\<forall>j. \<not> (eoff \<le> j \<and> j < eoff + n) \<longrightarrow> eb' ! j = eb ! j) \<and>
           (\<forall>e<n. eb' ! (eoff + e) =
              (if isinf (sb ! (prev + fr e)) then PosInf
               else eb ! (eoff + e)
                    + (if fwd then sb ! (prev + fr e) + w e + amv e else sb ! (prev + fr e)))) \<and>
           ((\<forall>j<ns. is_score (sb ! (prev + j)) \<and> is_score (sb ! (nxt + j))) \<and>
            (\<forall>e<n. is_score (w e) \<and> is_score (amv e)) \<longrightarrow>
            (\<forall>j<ns. is_score (sb' ! (nxt + j))))"
proof -
  let ?k = "next_frame fwd n ne sequence_idxs from_buffer to_buffer weight_buffer
              emission_idxs prev nxt am eoff"
  let ?val = "\<lambda>e. sb ! (prev + fr e) + w e + amv e"
  let ?good = "(\<forall>j<ns. is_score (sb ! (prev + j)) \<and> is_score (sb ! (nxt + j))) \<and>
               (\<forall>e<n. is_score (w e) \<and> is_score (amv e))"
  let ?P = "\<lambda>i m. case m of (sb', eb') \<Rightarrow>
      length sb' = length sb \<and> length eb' = length eb \<and>
      (\<forall>j. \<not> (nxt \<le> j \<and> j < nxt + ns) \<longrightarrow> sb' ! j = sb ! j) \<and>
      (\<forall>j. \<not> (eoff \<le> j \<and> j < eoff + min i n) \<longrightarrow> eb' ! j = eb ! j) \<and>
      (\<forall>e<min i n. eb' ! (eoff + e) =
              (if isinf (sb ! (prev + fr e)) then PosInf
               else eb ! (eoff + e) + (if fwd then ?val e else sb ! (prev + fr e)))) \<and>
      (?good \<longrightarrow> (\<forall>j<ns. is_score (sb' ! (nxt + j))))"
  have main: "\<exists>s'. launch b t ?k (sb, eb) = Inr s' \<and> ?P (b * t) s'"
  proof (rule launch_rule)
    show "?P 0 (sb, eb)" by auto
  next
    fix i m
    assume i: "i < b * t" and P: "?P i m"
    obtain sb' eb' where m: "m = (sb', eb')" by (cases m)
    note P' = P [unfolded m, simplified]
    show "\<exists>s'. ?k i m = Inr s' \<and> ?P (Suc i) s'"
    proof (cases "i < n")
      case False
      then have "?k i m = Inr m" by (simp add: next_frame_def m)
      moreover from False P have "?P (Suc i) m" by (simp add: min_def m)
      ultimately show ?thesis by blast
    next
      case True
      from rows True have r: "rdp from_buffer i = Inr (fr i)" "rdp to_buffer i = Inr (tt i)"
        "rdp weight_buffer i = Inr (w i)" "rdp emission_idxs i = Inr (em i)"
        "rdp sequence_idxs i = Inr (sq i)" "rdp am (sq i * ne + em i) = Inr (amv i)"
        by auto
      from states True have st: "fr i < ns" "tt i < ns" by auto
      from P' have len: "length sb' = length sb" "length eb' = length eb" by auto
      from st frames len have inr: "prev + fr i < length sb'" "nxt + tt i < length sb'"
        by auto
      from True edges len have ine: "eoff + i < length eb'" by auto
      from st frames have "\<not> (nxt \<le> prev + fr i \<and> prev + fr i < nxt + ns)" by auto
      with P' have pv: "sb' ! (prev + fr i) = sb ! (prev + fr i)" by blast
      from P' True have old: "eb' ! (eoff + i) = eb ! (eoff + i)" by (simp add: min_def)
      show ?thesis
      proof (cases "isinf (sb ! (prev + fr i))")
        case inf: True
        with True r inr ine pv have "?k i m = Inr (sb', eb'[eoff + i := PosInf])"
          by (simp add: next_frame_def m)
        moreover from P' True inf ine have "?P (Suc i) (sb', eb'[eoff + i := PosInf])"
          by (auto simp: nth_list_update min_def less_Suc_eq)
        ultimately show ?thesis by blast
      next
        case fin: False
        let ?sb2 = "sb'[nxt + tt i := prob_add (sb' ! (nxt + tt i)) (?val i)]"
        let ?eb2 = "eb'[eoff + i := eb ! (eoff + i) + (if fwd then ?val i else sb ! (prev + fr i))]"
        from True r inr ine pv fin old have run: "?k i m = Inr (?sb2, ?eb2)"
          by (simp add: next_frame_def m atomic_prob_add_def Let_def)
        have a: "length ?sb2 = length sb \<and> length ?eb2 = length eb"
          using len by simp
        have b: "\<forall>j. \<not> (nxt \<le> j \<and> j < nxt + ns) \<longrightarrow> ?sb2 ! j = sb ! j"
          using P' st by (auto simp: nth_list_update)
        have c: "\<forall>j. \<not> (eoff \<le> j \<and> j < eoff + min (Suc i) n) \<longrightarrow> ?eb2 ! j = eb ! j"
          using P' True by (auto simp: nth_list_update min_def)
        have d: "\<forall>e<min (Suc i) n. ?eb2 ! (eoff + e) =
              (if isinf (sb ! (prev + fr e)) then PosInf
               else eb ! (eoff + e) + (if fwd then ?val e else sb ! (prev + fr e)))"
          using P' True fin ine by (auto simp: nth_list_update min_def less_Suc_eq)
        have e: "?good \<longrightarrow> (\<forall>j<ns. is_score (?sb2 ! (nxt + j)))"
        proof (intro impI allI)
          fix j
          assume g: ?good and j: "j < ns"
          from g P' have sc: "\<forall>j<ns. is_score (sb' ! (nxt + j))" by blast
          from g st True have "is_score (?val i)"
            by (intro is_score_add) auto
          with sc st have "is_score (prob_add (sb' ! (nxt + tt i)) (?val i))"
            by (intro is_score_prob_add) auto
          with sc j inr show "is_score (?sb2 ! (nxt + j))"
            by (auto simp: nth_list_update)
        qed
        from a b c d e have "?P (Suc i) (?sb2, ?eb2)" by simp
        with run show ?thesis by blast
      qed
    qed
  qed
  from threads have mn: "min (b * t) n = n" by simp
  from main obtain s' where s': "launch b t ?k (sb, eb) = Inr s'" "?P (b * t) s'" by blast
  obtain sb' eb' where p: "s' = (sb', eb')" by (cases s')
  from s'(2) have Pn: "?P (b * t) (sb', eb')" unfolding p .
  show ?thesis
    apply (rule exI [of _ sb'], rule exI [of _ eb'])
    using s'(1) Pn by (simp add: mn p)
qed

section \<open>Accumulation with \<^verbatim>\<open>atomic_prob_add\<close>\<close>

lemma foldE_cong:
  assumes "\<And>x s. x \<in> set xs \<Longrightarrow> f x s = g x s"
  shows "foldE f xs s = foldE g xs s"
  using assms by (induction xs arbitrary: s) (simp_all split: sum.splits)

lemma prob_add_NaN_right [simp]: "prob_add x NaN = PosInf"
  by (cases x) (simp_all add: prob_add_def fl_arith)

text \<open>
  A loop whose iteration \<open>i\<close> adds \<open>v i\<close> to the cell \<open>tgt i\<close>: every cell ends as the
  \<^verbatim>\<open>prob_add\<close> of its old value with the values sent to it, in the order of the iterations.
\<close>

lemma accumulate_loop:
  assumes "\<forall>i<N. tgt i < length out0"
  shows "\<exists>out'. foldE (\<lambda>i m. atomic_prob_add m (tgt i) (v i)) [0..<N] out0 = Inr out' \<and>
           length out' = length out0 \<and>
           (\<forall>c. out' ! c = foldl prob_add (out0 ! c) (map v (filter (\<lambda>i. tgt i = c) [0..<N])))"
proof -
  let ?P = "\<lambda>k m. length m = length out0 \<and>
      (\<forall>c. m ! c = foldl prob_add (out0 ! c) (map v (filter (\<lambda>i. tgt i = c) [0..<k])))"
  show ?thesis
  proof (rule foldE_upt_rule [where P = ?P])
    show "?P 0 out0" by simp
  next
    fix i m
    assume i: "i < N" and P: "?P i m"
    with assms have r: "tgt i < length m" by simp
    then have "atomic_prob_add m (tgt i) (v i) = Inr (m[tgt i := prob_add (m ! tgt i) (v i)])"
      by (simp add: atomic_prob_add_def)
    moreover from P r have "?P (Suc i) (m[tgt i := prob_add (m ! tgt i) (v i)])"
      by (auto simp: nth_list_update)
    ultimately show "\<exists>s'. atomic_prob_add m (tgt i) (v i) = Inr s' \<and> ?P (Suc i) s'"
      by blast
  qed
qed

section \<open>\<^verbatim>\<open>normalize\<close> and \<^verbatim>\<open>compute_result\<close>\<close>

text \<open>The value of \<open>sum[s]\<close> after the second loop of \<^verbatim>\<open>normalize\<close> on the block \<open>b\<close>.\<close>

lemma normalize_block:
  assumes seqs: "\<forall>e<n. rdp sequence_idxs e = Inr (sq e) \<and> sq e < S"
    and eb: "b * n + n \<le> length eb"
    and so: "b * S + S \<le> length so"
  defines "sm \<equiv> \<lambda>s. foldl prob_add PosInf
                       (map (\<lambda>e. eb ! (b * n + e)) (filter (\<lambda>e. sq e = s) [0..<n]))"
  shows "\<exists>eb' so'. normalize sequence_idxs n S b (eb, so) = Inr (eb', so') \<and>
           length eb' = length eb \<and> length so' = length so \<and>
           (\<forall>j. so' ! j = (if b * S \<le> j \<and> j < b * S + S
                            then (if isinf (sm (j - b * S)) then 0 else sm (j - b * S))
                            else so ! j)) \<and>
           (\<forall>j. eb' ! j = (if b * n \<le> j \<and> j < b * n + n
                            then eb ! j - sm (sq (j - b * n)) else eb ! j))"
proof -
  let ?init = "replicate S PosInf"
  have "foldE (normalize_sum sequence_idxs n (b * n) eb) [0..<n] ?init
        = foldE (\<lambda>e m. atomic_prob_add m (sq e) (eb ! (b * n + e))) [0..<n] ?init"
  proof (rule foldE_cong)
    fix e s
    assume "e \<in> set [0..<n]"
    then have e: "e < n" by simp
    with seqs eb show "normalize_sum sequence_idxs n (b * n) eb e s
        = atomic_prob_add s (sq e) (eb ! (b * n + e))"
      by (simp add: normalize_sum_def atomic_prob_add_def rd_def bindE_def)
  qed
  moreover from seqs have "\<forall>e<n. sq e < length ?init" by simp
  from accumulate_loop [OF this, of "\<lambda>e. eb ! (b * n + e)"]
  obtain sum_sh where acc:
    "foldE (\<lambda>e m. atomic_prob_add m (sq e) (eb ! (b * n + e))) [0..<n] ?init = Inr sum_sh"
    "length sum_sh = S"
    "\<forall>c. sum_sh ! c = foldl prob_add (?init ! c)
            (map (\<lambda>e. eb ! (b * n + e)) (filter (\<lambda>e. sq e = c) [0..<n]))"
    by auto
  ultimately have l1: "foldE (normalize_sum sequence_idxs n (b * n) eb) [0..<n] ?init = Inr sum_sh"
    by simp
  from acc have sv: "\<forall>s<S. sum_sh ! s = sm s"
    by (simp add: sm_def)
  let ?Q = "\<lambda>k m. length m = length so \<and>
      (\<forall>j. m ! j = (if b * S \<le> j \<and> j < b * S + k
                     then (if isinf (sm (j - b * S)) then 0 else sm (j - b * S))
                     else so ! j))"
  have "\<exists>so'. foldE (normalize_out b S sum_sh) [0..<S] so = Inr so' \<and> ?Q S so'"
  proof (rule foldE_upt_rule [where P = ?Q])
    show "?Q 0 so" by auto
  next
    fix i m
    assume i: "i < S" and Q: "?Q i m"
    let ?v = "if isinf (sm i) then 0 else sm i"
    from i so Q have r: "b * S + i < length m" by simp
    with i acc sv have "normalize_out b S sum_sh i m = Inr (m[b * S + i := ?v])"
      by (simp add: normalize_out_def)
    moreover from Q r have "?Q (Suc i) (m[b * S + i := ?v])"
      by (auto simp: nth_list_update less_Suc_eq)
    ultimately show "\<exists>s'. normalize_out b S sum_sh i m = Inr s' \<and> ?Q (Suc i) s'"
      by blast
  qed
  then obtain so' where l2: "foldE (normalize_out b S sum_sh) [0..<S] so = Inr so'"
    and so': "?Q S so'" by blast
  let ?R = "\<lambda>k m. length m = length eb \<and>
      (\<forall>j. m ! j = (if b * n \<le> j \<and> j < b * n + k
                     then eb ! j - sm (sq (j - b * n)) else eb ! j))"
  have "\<exists>eb'. foldE (normalize_sub sequence_idxs (b * n) sum_sh) [0..<n] eb = Inr eb' \<and> ?R n eb'"
  proof (rule foldE_upt_rule [where P = ?R])
    show "?R 0 eb" by auto
  next
    fix i m
    assume i: "i < n" and R: "?R i m"
    from i eb R have r: "b * n + i < length m" by simp
    from R have old: "m ! (b * n + i) = eb ! (b * n + i)" by simp
    from i seqs have sq: "rdp sequence_idxs i = Inr (sq i)" "sq i < S" by auto
    with r old acc sv
    have "normalize_sub sequence_idxs (b * n) sum_sh i m
            = Inr (m[b * n + i := eb ! (b * n + i) - sm (sq i)])"
      by (simp add: normalize_sub_def)
    moreover from R r have "?R (Suc i) (m[b * n + i := eb ! (b * n + i) - sm (sq i)])"
      by (auto simp: nth_list_update less_Suc_eq)
    ultimately show "\<exists>s'. normalize_sub sequence_idxs (b * n) sum_sh i m = Inr s' \<and> ?R (Suc i) s'"
      by blast
  qed
  then obtain eb' where l3: "foldE (normalize_sub sequence_idxs (b * n) sum_sh) [0..<n] eb = Inr eb'"
    and eb': "?R n eb'" by blast
  from l1 l2 l3 have "normalize sequence_idxs n S b (eb, so) = Inr (eb', so')"
    by (simp add: normalize_def)
  with so' eb' show ?thesis by blast
qed

section \<open>Index arithmetic\<close>

lemma slot_less: "t < k \<Longrightarrow> e < n \<Longrightarrow> t * n + e < k * (n::nat)"
proof -
  assume "t < k" "e < n"
  then have "t * n + e < Suc t * n" by simp
  also from \<open>t < k\<close> have "Suc t * n \<le> k * n" by (intro mult_le_mono1) simp
  finally show ?thesis .
qed

lemma slot_unique:
  assumes "e < n" "e' < n" "t * n + e = t' * n + (e'::nat)"
  shows "t = t' \<and> e = e'"
proof -
  from assms(3) have "(t * n + e) mod n = (t' * n + e') mod n" by simp
  with assms(1,2) have e: "e = e'" by simp
  from assms(1) have "0 < n" by simp
  from assms(3) have "(t * n + e) div n = (t' * n + e') div n" by simp
  with assms(1,2) \<open>0 < n\<close> have "t = t'" by simp
  with e show ?thesis by simp
qed

lemma cell_unique:
  assumes "s < S" "s' < S" "l < E" "l' < E"
    and "f * (S * E) + s' * E + l' = t * (S * E) + s * E + (l::nat)"
  shows "f = t \<and> s' = s \<and> l' = l"
proof -
  from assms(5) have "(f * S + s') * E + l' = (t * S + s) * E + l"
    by (simp add: algebra_simps)
  with assms(3,4) have 1: "f * S + s' = t * S + s \<and> l' = l"
    using slot_unique [of l' E l "f * S + s'" "t * S + s"] by simp
  with assms(1,2) have "f = t \<and> s' = s"
    using slot_unique [of s' S s f t] by simp
  with 1 show ?thesis by simp
qed

section \<open>Well-formed calls\<close>

lemma wf_dims:
  assumes "wf_args a"
  shows "dims (am_scores a) = [n_frames a, n_seqs a, n_emissions a]"
proof -
  from assms have "length (dims (am_scores a)) = 3" by (simp add: wf_args_def)
  then obtain x y z where "dims (am_scores a) = [x, y, z]"
    by (auto simp: numeral_3_eq_3 length_Suc_conv)
  then show ?thesis by (simp add: n_frames_def n_seqs_def n_emissions_def)
qed

lemma wf_strides:
  assumes "wf_args a"
  shows "stride (am_scores a) 0 = n_seqs a * n_emissions a"
    and "stride (am_scores a) 1 = n_emissions a"
    and "stride (out a) 0 = n_seqs a * n_emissions a"
    and "stride (out a) 1 = n_emissions a"
    and "stride (edges a) 0 = n_edges a"
    and "stride (start_end_states a) 0 = n_seqs a"
    and "stride (index a) 0 = n_seqs a"
    and "stride (state_buffer a) 0 = n_states a"
  using assms wf_dims [OF assms] by (simp_all add: wf_args_def stride_def)

lemma wf_edge_reads:
  assumes "wf_args a" and "e < n_edges a"
  shows "rdp (d_from a) e = Inr (elem (d_from a) e)"
    and "rdp (d_to a) e = Inr (elem (d_to a) e)"
    and "rdp (d_emission_idxs a) e = Inr (elem (d_emission_idxs a) e)"
    and "rdp (d_sequence_idxs a) e = Inr (elem (d_sequence_idxs a) e)"
    and "rdp (d_weights a) e = Inr (elem (d_weights a) e)"
    and "elem (d_from a) e < n_states a" and "elem (d_to a) e < n_states a"
    and "elem (d_emission_idxs a) e < n_emissions a"
    and "elem (d_sequence_idxs a) e < n_seqs a"
  using assms wf_strides(5) [OF assms(1)]
  by (simp_all add: wf_args_def rdp_def elem_def d_from_def d_to_def d_emission_idxs_def
      d_sequence_idxs_def d_weights_def)

section \<open>The launches of \<^verbatim>\<open>normalize\<close> and \<^verbatim>\<open>compute_result\<close>\<close>

lemma normalize_launch:
  assumes seqs: "\<forall>e<n. rdp sequence_idxs e = Inr (sq e) \<and> sq e < S"
    and eb: "length eb = T * n"
    and so: "length so = T * S"
  defines "sm \<equiv> \<lambda>t s. foldl prob_add PosInf
                       (map (\<lambda>e. eb ! (t * n + e)) (filter (\<lambda>e. sq e = s) [0..<n]))"
  shows "\<exists>eb' so'. launch T 1 (normalize sequence_idxs n S) (eb, so) = Inr (eb', so') \<and>
           length eb' = length eb \<and> length so' = length so \<and>
           (\<forall>t<T. \<forall>s<S. so' ! (t * S + s) = (if isinf (sm t s) then 0 else sm t s)) \<and>
           (\<forall>t<T. \<forall>e<n. eb' ! (t * n + e) = eb ! (t * n + e) - sm t (sq e))"
proof -
  let ?P = "\<lambda>k m. case m of (eb', so') \<Rightarrow>
      length eb' = length eb \<and> length so' = length so \<and>
      (\<forall>t<k. \<forall>s<S. so' ! (t * S + s) = (if isinf (sm t s) then 0 else sm t s)) \<and>
      (\<forall>t<k. \<forall>e<n. eb' ! (t * n + e) = eb ! (t * n + e) - sm t (sq e)) \<and>
      (\<forall>j. k * n \<le> j \<longrightarrow> eb' ! j = eb ! j)"
  have "\<exists>s'. launch T 1 (normalize sequence_idxs n S) (eb, so) = Inr s' \<and> ?P (T * 1) s'"
  proof (rule launch_rule)
    show "?P 0 (eb, so)" by simp
  next
    fix k m
    assume k: "k < T * 1" and P: "?P k m"
    obtain eb1 so1 where m: "m = (eb1, so1)" by (cases m)
    note P' = P [unfolded m, simplified]
    from k have "Suc k * n \<le> T * n" "Suc k * S \<le> T * S"
      by (simp_all del: mult_Suc)
    with P' eb so have r: "k * n + n \<le> length eb1" "k * S + S \<le> length so1"
      by simp_all
    from P' have same: "\<And>e. eb1 ! (k * n + e) = eb ! (k * n + e)" by simp
    from normalize_block [OF seqs r]
    obtain eb2 so2 where run: "normalize sequence_idxs n S k (eb1, so1) = Inr (eb2, so2)"
      and len: "length eb2 = length eb1" "length so2 = length so1"
      and so2: "\<forall>j. so2 ! j = (if k * S \<le> j \<and> j < k * S + S
                            then (if isinf (sm k (j - k * S)) then 0 else sm k (j - k * S))
                            else so1 ! j)"
      and eb2: "\<forall>j. eb2 ! j = (if k * n \<le> j \<and> j < k * n + n
                            then eb1 ! j - sm k (sq (j - k * n)) else eb1 ! j)"
      unfolding sm_def same by blast
    have a: "\<forall>t<Suc k. \<forall>s<S. so2 ! (t * S + s) = (if isinf (sm t s) then 0 else sm t s)"
    proof (intro allI impI)
      fix t s assume t: "t < Suc k" and s: "s < S"
      show "so2 ! (t * S + s) = (if isinf (sm t s) then 0 else sm t s)"
      proof (cases "t = k")
        case True
        with s so2 show ?thesis by simp
      next
        case False
        with t have "t < k" by simp
        with s have "t * S + s < k * S" by (simp add: slot_less)
        with so2 P' \<open>t < k\<close> s show ?thesis by simp
      qed
    qed
    have b: "\<forall>t<Suc k. \<forall>e<n. eb2 ! (t * n + e) = eb ! (t * n + e) - sm t (sq e)"
    proof (intro allI impI)
      fix t e assume t: "t < Suc k" and e: "e < n"
      show "eb2 ! (t * n + e) = eb ! (t * n + e) - sm t (sq e)"
      proof (cases "t = k")
        case True
        with e eb2 same show ?thesis by simp
      next
        case False
        with t have "t < k" by simp
        with e have "t * n + e < k * n" by (simp add: slot_less)
        with eb2 P' \<open>t < k\<close> e show ?thesis by simp
      qed
    qed
    have c: "\<forall>j. Suc k * n \<le> j \<longrightarrow> eb2 ! j = eb ! j"
      using eb2 P' by simp
    from a b c len P' have "?P (Suc k) (eb2, so2)" by simp
    with run m show "\<exists>s'. normalize sequence_idxs n S k m = Inr s' \<and> ?P (Suc k) s'"
      by blast
  qed
  then obtain s' where s': "launch T 1 (normalize sequence_idxs n S) (eb, so) = Inr s'"
    "?P (T * 1) s'" by blast
  obtain eb' so' where p: "s' = (eb', so')" by (cases s')
  show ?thesis
    apply (rule exI [of _ eb'], rule exI [of _ so'])
    using s' by (simp add: p)
qed

lemma compute_result_launch:
  assumes rows: "\<forall>e<n. rdp emission_idxs e = Inr (em e) \<and> rdp sequence_idxs e = Inr (sq e)"
    and cells: "\<forall>f<T. \<forall>e<n. f * fs + sq e * ss + em e < length out0"
    and eb: "T * n \<le> length eb"
    and threads: "T * n \<le> b * t"
  shows "\<exists>out'. launch b t (compute_result eb emission_idxs sequence_idxs fs ss T S n) out0
                  = Inr out' \<and>
           length out' = length out0 \<and>
           (\<forall>c. out' ! c =
              foldl prob_add (out0 ! c)
                (map (\<lambda>i. eb ! i)
                   (filter (\<lambda>i. (i div n) * fs + sq (i mod n) * ss + em (i mod n) = c)
                      [0..<T * n])))"
proof -
  let ?k = "compute_result eb emission_idxs sequence_idxs fs ss T S n"
  let ?tgt = "\<lambda>i. (i div n) * fs + sq (i mod n) * ss + em (i mod n)"
  have idle: "\<And>i s. T * n \<le> i \<Longrightarrow> ?k i s = Inr s"
    by (simp add: compute_result_def)
  have "launch b t ?k out0 = foldE ?k [0..<T * n] out0"
    using idle threads by (rule launch_idle)
  also have "\<dots> = foldE (\<lambda>i m. atomic_prob_add m (?tgt i) (eb ! i)) [0..<T * n] out0"
  proof (rule foldE_cong)
    fix i s
    assume "i \<in> set [0..<T * n]"
    then have i: "i < T * n" by simp
    then have "0 < n" by (cases n) simp_all
    then have "i mod n < n" by simp
    with rows have "rdp emission_idxs (i mod n) = Inr (em (i mod n))"
      "rdp sequence_idxs (i mod n) = Inr (sq (i mod n))" by auto
    with i eb show "?k i s = atomic_prob_add s (?tgt i) (eb ! i)"
      by (simp add: compute_result_def Let_def)
  qed
  finally have eq: "launch b t ?k out0
      = foldE (\<lambda>i m. atomic_prob_add m (?tgt i) (eb ! i)) [0..<T * n] out0" .
  have "\<forall>i<T * n. ?tgt i < length out0"
  proof (intro allI impI)
    fix i assume i: "i < T * n"
    then have "0 < n" by (cases n) simp_all
    then have "i mod n < n" by simp
    moreover from i have "i div n < T"
      by (simp add: less_mult_imp_div_less)
    ultimately show "?tgt i < length out0" using cells by blast
  qed
  from accumulate_loop [OF this, of "\<lambda>i. eb ! i"] eq show ?thesis by simp
qed

section \<open>Frames without a finite edge\<close>

lemma foldl_prob_add_dead:
  "\<forall>x\<in>set xs. x = PosInf \<or> x = NaN \<Longrightarrow> foldl prob_add PosInf xs = PosInf"
  by (induction xs) (auto simp: prob_add_def fl_arith)

lemma wf_example: "wf_args example_args"
  by (simp add: wf_args_def example_args_def n_frames_def n_seqs_def n_emissions_def
      n_edges_def n_states_def elem_def d_from_def d_to_def d_emission_idxs_def
      d_sequence_idxs_def d_start_states_def d_end_states_def stride_def)

lemma wf_strides_Suc:
  assumes "wf_args a"
  shows "stride (am_scores a) (Suc 0) = n_emissions a"
    and "stride (out a) (Suc 0) = n_emissions a"
  using wf_strides(2,4) [OF assms] by simp_all

lemma wf_result_launches:
  assumes wf: "wf_args a" and len: "length eb = n_frames a * n_edges a"
  shows "\<exists>ob. fbw_result a eb = Inr ob \<and>
           length ob = n_frames a * n_seqs a * n_emissions a \<and>
           (\<forall>c. c < n_frames a * n_seqs a * n_emissions a \<longrightarrow>
              ob ! c =
               foldl prob_add PosInf
                 (map (\<lambda>i. eb ! i)
                    (filter (\<lambda>i. (i div n_edges a) * (n_seqs a * n_emissions a)
                                  + elem (d_sequence_idxs a) (i mod n_edges a) * n_emissions a
                                  + elem (d_emission_idxs a) (i mod n_edges a) = c)
                       [0..<n_frames a * n_edges a])))"
proof -
  let ?N = "n_frames a * n_seqs a * n_emissions a"
  from wf have lo: "length (data (out a)) = ?N" by (simp add: wf_args_def)
  have "0 + ?N \<le> length (data (out a))" using lo by simp
  from fill_array_launch [OF this blocks_for_ge, of PosInf]
  obtain o1 where o1: "launch (blocks_for ?N) n_threads (fill_array 0 PosInf ?N) (data (out a))
                        = Inr o1" "length o1 = ?N" "\<forall>j<?N. o1 ! j = PosInf"
    using lo by auto
  have rows: "\<forall>e<n_edges a. rdp (d_emission_idxs a) e = Inr (elem (d_emission_idxs a) e) \<and>
                rdp (d_sequence_idxs a) e = Inr (elem (d_sequence_idxs a) e)"
    using wf_edge_reads [OF wf] by simp
  have cells: "\<forall>f<n_frames a. \<forall>e<n_edges a.
      f * (n_seqs a * n_emissions a) + elem (d_sequence_idxs a) e * n_emissions a
        + elem (d_emission_idxs a) e < length o1"
  proof (intro allI impI)
    fix f e assume f: "f < n_frames a" and e: "e < n_edges a"
    from wf_edge_reads(8,9) [OF wf e]
    have "elem (d_sequence_idxs a) e * n_emissions a + elem (d_emission_idxs a) e
            < n_seqs a * n_emissions a"
      by (simp add: slot_less)
    with f have "f * (n_seqs a * n_emissions a)
        + (elem (d_sequence_idxs a) e * n_emissions a + elem (d_emission_idxs a) e)
        < n_frames a * (n_seqs a * n_emissions a)"
      by (simp add: slot_less)
    with o1 show "f * (n_seqs a * n_emissions a) + elem (d_sequence_idxs a) e * n_emissions a
        + elem (d_emission_idxs a) e < length o1"
      by (simp add: mult.assoc add.assoc)
  qed
  have eb: "n_frames a * n_edges a \<le> length eb" using len by simp
  from compute_result_launch [OF rows cells eb blocks_for_ge, of "n_seqs a"]
  obtain ob where "launch (blocks_for (n_frames a * n_edges a)) n_threads
        (compute_result eb (d_emission_idxs a) (d_sequence_idxs a)
           (n_seqs a * n_emissions a) (n_emissions a) (n_frames a) (n_seqs a) (n_edges a)) o1
        = Inr ob" "length ob = length o1"
     "\<forall>c. ob ! c = foldl prob_add (o1 ! c)
           (map (\<lambda>i. eb ! i)
              (filter (\<lambda>i. (i div n_edges a) * (n_seqs a * n_emissions a)
                            + elem (d_sequence_idxs a) (i mod n_edges a) * n_emissions a
                            + elem (d_emission_idxs a) (i mod n_edges a) = c)
                 [0..<n_frames a * n_edges a]))"
    by blast
  with o1 show ?thesis
    by (simp add: fbw_result_def wf_strides [OF wf] wf_strides_Suc [OF wf])
qed

lemma wf_normalize_launches:
  assumes wf: "wf_args a" and len: "length eb = n_frames a * n_edges a"
  shows "\<exists>eb' so. fbw_normalize a eb = Inr (eb', so) \<and>
           length eb' = length eb \<and> length so = n_frames a * n_seqs a \<and>
           (\<forall>t<n_frames a. \<forall>s<n_seqs a.
              so ! (t * n_seqs a + s) =
                (let z = foldl prob_add PosInf
                           (map (\<lambda>e. eb ! (t * n_edges a + e))
                              (filter (\<lambda>e. elem (d_sequence_idxs a) e = s) [0..<n_edges a]))
                 in if isinf z then 0 else z)) \<and>
           (\<forall>t<n_frames a. \<forall>e<n_edges a.
              eb' ! (t * n_edges a + e) =
                eb ! (t * n_edges a + e)
                - foldl prob_add PosInf
                    (map (\<lambda>e. eb ! (t * n_edges a + e))
                       (filter (\<lambda>e'. elem (d_sequence_idxs a) e' = elem (d_sequence_idxs a) e)
                          [0..<n_edges a])))"
proof -
  have seqs: "\<forall>e<n_edges a. rdp (d_sequence_idxs a) e = Inr (elem (d_sequence_idxs a) e) \<and>
                elem (d_sequence_idxs a) e < n_seqs a"
    using wf_edge_reads [OF wf] by simp
  from wf have so: "length (data (sum_output a)) = n_frames a * n_seqs a"
    by (simp add: wf_args_def)
  from normalize_launch [OF seqs len so] show ?thesis
    by (simp add: fbw_normalize_def Let_def so)
qed

text \<open>
  C10 (as amended): at a cell (time, sequence) whose edges all hold \<open>+\<infinity>\<close> in the edge
  buffer, \<^verbatim>\<open>normalize\<close> writes 0 to \<open>sum_output\<close>, the edge-buffer entries of the cell become
  NaN (\<open>\<infinity> - \<infinity>\<close>), and \<^verbatim>\<open>compute_result\<close> leaves every output entry of the cell at \<open>+\<infinity>\<close>.
\<close>

theorem normalize_empty_cell:
  assumes wf: "wf_args a" and len: "length eb = n_frames a * n_edges a"
    and t: "t < n_frames a" and s: "s < n_seqs a"
    and empty: "\<forall>e<n_edges a. elem (d_sequence_idxs a) e = s \<longrightarrow> eb ! (t * n_edges a + e) = PosInf"
  shows "\<exists>eb' so ob. fbw_normalize a eb = Inr (eb', so) \<and> fbw_result a eb' = Inr ob \<and>
           so ! (t * n_seqs a + s) = 0 \<and>
           (\<forall>e<n_edges a. elem (d_sequence_idxs a) e = s \<longrightarrow> eb' ! (t * n_edges a + e) = NaN) \<and>
           (\<forall>l<n_emissions a.
              ob ! (t * (n_seqs a * n_emissions a) + s * n_emissions a + l) = PosInf)"
proof -
  let ?n = "n_edges a" and ?S = "n_seqs a" and ?E = "n_emissions a"
  let ?sq = "elem (d_sequence_idxs a)" and ?em = "elem (d_emission_idxs a)"
  let ?z = "foldl prob_add PosInf
              (map (\<lambda>e. eb ! (t * ?n + e)) (filter (\<lambda>e. ?sq e = s) [0..<?n]))"
  from empty have z: "?z = PosInf"
    by (intro foldl_prob_add_dead) auto
  from wf_normalize_launches [OF wf len]
  obtain eb' so where n: "fbw_normalize a eb = Inr (eb', so)" "length eb' = length eb"
    and so: "\<forall>t<n_frames a. \<forall>s<n_seqs a.
              so ! (t * n_seqs a + s) =
                (let z = foldl prob_add PosInf
                           (map (\<lambda>e. eb ! (t * n_edges a + e))
                              (filter (\<lambda>e. elem (d_sequence_idxs a) e = s) [0..<n_edges a]))
                 in if isinf z then 0 else z)"
    and eb': "\<forall>t<n_frames a. \<forall>e<n_edges a.
              eb' ! (t * n_edges a + e) =
                eb ! (t * n_edges a + e)
                - foldl prob_add PosInf
                    (map (\<lambda>e. eb ! (t * n_edges a + e))
                       (filter (\<lambda>e'. elem (d_sequence_idxs a) e' = elem (d_sequence_idxs a) e)
                          [0..<n_edges a]))"
    by blast
  from so t s z have a1: "so ! (t * ?S + s) = 0" by (simp add: Let_def)
  have a2: "\<forall>e<?n. ?sq e = s \<longrightarrow> eb' ! (t * ?n + e) = NaN"
  proof (intro allI impI)
    fix e assume e: "e < ?n" and sq: "?sq e = s"
    with eb' t z empty show "eb' ! (t * ?n + e) = NaN"
      by (simp add: fl_arith)
  qed
  from n len have len': "length eb' = n_frames a * n_edges a" by simp
  from wf_result_launches [OF wf len']
  obtain ob where r: "fbw_result a eb' = Inr ob"
    and ob: "\<forall>c. c < n_frames a * ?S * ?E \<longrightarrow>
              ob ! c =
               foldl prob_add PosInf
                 (map (\<lambda>i. eb' ! i)
                    (filter (\<lambda>i. (i div ?n) * (?S * ?E) + ?sq (i mod ?n) * ?E + ?em (i mod ?n) = c)
                       [0..<n_frames a * ?n]))"
    by blast
  have a3: "\<forall>l<?E. ob ! (t * (?S * ?E) + s * ?E + l) = PosInf"
  proof (intro allI impI)
    fix l assume l: "l < ?E"
    let ?c = "t * (?S * ?E) + s * ?E + l"
    from s l have "s * ?E + l < ?S * ?E" by (simp add: slot_less)
    with t have "t * (?S * ?E) + (s * ?E + l) < n_frames a * (?S * ?E)"
      by (simp add: slot_less)
    then have c: "?c < n_frames a * ?S * ?E" by (simp add: mult.assoc add.assoc)
    have "\<forall>x\<in>set (map (\<lambda>i. eb' ! i)
             (filter (\<lambda>i. (i div ?n) * (?S * ?E) + ?sq (i mod ?n) * ?E + ?em (i mod ?n) = ?c)
                [0..<n_frames a * ?n])). x = PosInf \<or> x = NaN"
    proof
      fix x
      assume "x \<in> set (map (\<lambda>i. eb' ! i)
             (filter (\<lambda>i. (i div ?n) * (?S * ?E) + ?sq (i mod ?n) * ?E + ?em (i mod ?n) = ?c)
                [0..<n_frames a * ?n]))"
      then obtain i where i: "i < n_frames a * ?n" "x = eb' ! i"
        and tgt: "(i div ?n) * (?S * ?E) + ?sq (i mod ?n) * ?E + ?em (i mod ?n) = ?c"
        by auto
      from i have "0 < ?n" by (cases "?n") simp_all
      then have m: "i mod ?n < ?n" by simp
      from wf_edge_reads(8,9) [OF wf m] s l tgt
      have "i div ?n = t \<and> ?sq (i mod ?n) = s \<and> ?em (i mod ?n) = l"
        by (intro cell_unique) auto
      with a2 m have "eb' ! (t * ?n + i mod ?n) = NaN" by simp
      moreover from \<open>i div ?n = t \<and> ?sq (i mod ?n) = s \<and> ?em (i mod ?n) = l\<close>
      have "t * ?n + i mod ?n = i" by (metis div_mult_mod_eq)
      ultimately show "x = PosInf \<or> x = NaN" using i by simp
    qed
    then have "foldl prob_add PosInf (map (\<lambda>i. eb' ! i)
             (filter (\<lambda>i. (i div ?n) * (?S * ?E) + ?sq (i mod ?n) * ?E + ?em (i mod ?n) = ?c)
                [0..<n_frames a * ?n])) = PosInf"
      by (rule foldl_prob_add_dead)
    with ob c show "ob ! ?c = PosInf" by simp
  qed
  from n r a1 a2 a3 show ?thesis by blast
qed

lemma example_dims:
  "n_frames example_args = 2" "n_seqs example_args = 1" "n_emissions example_args = 1"
  "n_edges example_args = 1" "n_states example_args = 2"
  by (simp_all add: example_args_def n_frames_def n_seqs_def n_emissions_def n_edges_def
      n_states_def)

lemma example_data:
  "data (am_scores example_args) = [Finite 0, Finite 0]"
  "data (edges example_args) = [0, 1, 0, 0]"
  "data (weights example_args) = [Finite 0]"
  "data (start_end_states example_args) = [0, 1]"
  "data (index example_args) = [Finite 1, Finite 0]"
  "data (state_buffer example_args) = [Finite 0, Finite 0, Finite 0, Finite 0]"
  "data (out example_args) = [Finite 0, Finite 0]"
  "data (sum_output example_args) = [Finite 0, Finite 0]"
  by (simp_all add: example_args_def)

lemma example_strides:
  "stride (am_scores example_args) 0 = 1" "stride (am_scores example_args) 1 = 1"
  "stride (am_scores example_args) (Suc 0) = 1"
  "stride (out example_args) 0 = 1" "stride (out example_args) 1 = 1"
  "stride (out example_args) (Suc 0) = 1"
  "stride (edges example_args) 0 = 1" "stride (start_end_states example_args) 0 = 1"
  "stride (index example_args) 0 = 1" "stride (state_buffer example_args) 0 = 2"
  by (simp_all add: example_args_def stride_def)

lemma launch_fill_array:
  "n \<le> b * t \<Longrightarrow> launch b t (fill_array off v n) mem = foldE (fill_array off v n) [0..<n] mem"
  by (rule launch_idle) (simp_all add: fill_array_def)

lemma launch_next_frame:
  "n \<le> b * t \<Longrightarrow>
   launch b t (next_frame fwd n ne sq fr tt w em prev nxt am eoff) mem
   = foldE (next_frame fwd n ne sq fr tt w em prev nxt am eoff) [0..<n] mem"
  by (rule launch_idle) (simp_all add: next_frame_def split: prod.splits)

lemma launch_compute_result:
  "T * n \<le> b * t \<Longrightarrow>
   launch b t (compute_result eb em sq fs ss T S n) mem
   = foldE (compute_result eb em sq fs ss T S n) [0..<T * n] mem"
  by (rule launch_idle) (simp_all add: compute_result_def)

lemma launch_remove_inf:
  "n \<le> b * t \<Longrightarrow> launch b t (remove_inf n) mem = foldE (remove_inf n) [0..<n] mem"
  by (rule launch_idle) (simp_all add: remove_inf_def)

lemma launch_one_block: "launch (Suc 0) n f mem = foldE f [0..<n] mem"
  by (simp add: launch_def)

lemma launch_one_thread: "launch n (Suc 0) f mem = foldE f [0..<n] mem"
  by (simp add: launch_def)

lemma blocks_for_cover: "n \<le> m \<Longrightarrow> n \<le> blocks_for m * n_threads"
  using blocks_for_ge [of m] by simp

lemma blocks_for_cover_less: "n < m \<Longrightarrow> n < blocks_for m * n_threads"
  using blocks_for_ge [of m] by simp

lemma blocks_for_pos: "0 < m \<Longrightarrow> 0 < blocks_for m"
  using blocks_for_ge [of m] by (cases "blocks_for m") simp_all

lemma n_threads_pos: "0 < n_threads"
  by (simp add: n_threads_def)

lemmas launch_eval =
  launch_fill_array [where b = "blocks_for m" and t = n_threads for m]
  launch_next_frame [where b = "blocks_for m" and t = n_threads for m]
  launch_compute_result [where b = "blocks_for m" and t = n_threads for m]
  launch_remove_inf [where b = "blocks_for m" and t = n_threads for m]
  launch_fill_array [OF blocks_for_ge] launch_next_frame [OF blocks_for_ge]
  launch_compute_result [OF blocks_for_ge] launch_remove_inf [OF blocks_for_ge]
  launch_one_block launch_one_thread blocks_for_cover blocks_for_cover_less
  blocks_for_pos n_threads_pos

lemma upt_small: "[0..<1] = [0]" "[0..<2] = [0, 1]" "[0..<4] = [0, 1, 2, 3]"
  "replicate 2 x = [x, x]" "replicate 4 x = [x, x, x, x]"
  by (simp_all add: upt_rec eval_nat_numeral)

lemma prob_add_PosInf_Finite [simp]: "prob_add PosInf (Finite x) = Finite x"
  by (simp add: prob_add_def fl_arith)

lemma prob_add_PosInf_PosInf [simp]: "prob_add PosInf PosInf = PosInf"
  by (simp add: prob_add_def fl_arith)

lemmas example_eval = example_dims example_data example_strides launch_eval upt_small
  d_from_def d_to_def d_emission_idxs_def d_sequence_idxs_def d_weights_def d_start_states_def
  d_end_states_def d_index_def rdp_def device_malloc_def
  fill_array_def set_start_states_def init_bwd_state_buffer_def next_frame_def
  atomic_prob_add_def fl_arith Let_def

lemma example_init:
  "fbw_init example_args =
     Inr \<lparr>d_state_buffer = [Finite 0, PosInf, Finite 0, Finite 0],
          d_state_buffer_prev = 0, d_state_buffer_next = 2,
          d_edge_buffer = [Finite 0, Finite 0]\<rparr>"
  by (simp add: fbw_init_def example_eval)

lemma example_fwd_1:
  "fwd_pass example_args (Suc 0) =
     Inr \<lparr>d_state_buffer = [Finite 0, PosInf, PosInf, Finite 0],
          d_state_buffer_prev = 2, d_state_buffer_next = 0,
          d_edge_buffer = [Finite 0, Finite 0]\<rparr>"
  apply (simp only: fwd_pass.simps example_init bindE_Inr)
  apply (simp add: fwd_frame_def example_eval)
  done

lemma example_fwd_2:
  "fwd_pass example_args (Suc (Suc 0)) =
     Inr \<lparr>d_state_buffer = [PosInf, PosInf, PosInf, Finite 0],
          d_state_buffer_prev = 0, d_state_buffer_next = 2,
          d_edge_buffer = [Finite 0, PosInf]\<rparr>"
  apply (subst fwd_pass.simps(2))
  apply (simp only: example_fwd_1 bindE_Inr)
  apply (simp add: fwd_frame_def example_eval)
  done

lemma example_bwd_0:
  "bwd_pass example_args 0 =
     Inr \<lparr>d_state_buffer = [PosInf, PosInf, PosInf, Finite 0],
          d_state_buffer_prev = 0, d_state_buffer_next = 2,
          d_edge_buffer = [Finite 0, PosInf]\<rparr>"
  apply (subst bwd_pass.simps(1))
  apply (simp only: example_dims numeral_2_eq_2 example_fwd_2 bindE_Inr)
  apply (simp add: example_eval)
  done

lemma example_bwd_enter_1:
  "bwd_enter example_args (Suc 0)
     \<lparr>d_state_buffer = [PosInf, PosInf, PosInf, Finite 0],
      d_state_buffer_prev = 0, d_state_buffer_next = 2,
      d_edge_buffer = [Finite 0, PosInf]\<rparr> =
     Inr \<lparr>d_state_buffer = [PosInf, PosInf, PosInf, Finite 0],
          d_state_buffer_prev = 0, d_state_buffer_next = 2,
          d_edge_buffer = [Finite 0, PosInf]\<rparr>"
  by (simp add: bwd_enter_def example_eval)

lemma example_bwd_1:
  "bwd_pass example_args (Suc 0) =
     Inr \<lparr>d_state_buffer = [PosInf, PosInf, PosInf, PosInf],
          d_state_buffer_prev = 2, d_state_buffer_next = 0,
          d_edge_buffer = [Finite 0, PosInf]\<rparr>"
  apply (subst bwd_pass.simps(2))
  apply (simp only: example_bwd_0 bindE_Inr bwd_frame_def example_dims)
  apply (simp add: example_bwd_enter_1 bwd_step_def example_eval)
  done

lemma example_bwd_enter_0:
  "bwd_enter example_args 0
     \<lparr>d_state_buffer = [PosInf, PosInf, PosInf, PosInf],
      d_state_buffer_prev = 2, d_state_buffer_next = 0,
      d_edge_buffer = [Finite 0, PosInf]\<rparr> =
     Inr \<lparr>d_state_buffer = [PosInf, PosInf, PosInf, Finite 0],
          d_state_buffer_prev = 2, d_state_buffer_next = 0,
          d_edge_buffer = [Finite 0, PosInf]\<rparr>"
  by (simp add: bwd_enter_def example_eval)

lemma example_bwd_2:
  "bwd_pass example_args (Suc (Suc 0)) =
     Inr \<lparr>d_state_buffer = [Finite 0, PosInf, PosInf, Finite 0],
          d_state_buffer_prev = 0, d_state_buffer_next = 2,
          d_edge_buffer = [Finite 0, PosInf]\<rparr>"
  apply (subst bwd_pass.simps(2))
  apply (simp only: example_bwd_1 bindE_Inr bwd_frame_def example_dims)
  apply (simp add: example_bwd_enter_0 bwd_step_def example_eval)
  done

lemma example_sweeps: "fbw_sweeps example_args = Inr [Finite 0, PosInf]"
  by (simp only: fbw_sweeps_def example_dims numeral_2_eq_2 example_bwd_2 bindE_Inr
      device.simps)

lemmas normalize_eval = normalize_def normalize_sum_def normalize_out_def normalize_sub_def
  compute_result_def

lemma example_normalize:
  "fbw_normalize example_args [Finite 0, PosInf] = Inr ([Finite 0, NaN], [Finite 0, Finite 0])"
  by (simp add: fbw_normalize_def example_eval normalize_eval)

lemma example_result:
  "fbw_result example_args [Finite 0, NaN] = Inr [Finite 0, PosInf]"
  by (simp add: fbw_result_def example_eval normalize_eval)

lemma example_call:
  "fast_baum_welch False example_args = Inr ([Finite 0, PosInf], [Finite 0, Finite 0])"
  using example_sweeps example_normalize example_result
  by (simp add: fast_baum_welch_def fbw_compute_def fbw_asserts_def example_args_def n_frames_def)

theorem normalize_empty_cell_witness:
  "wf_args example_args \<and>
   length [Finite 0, PosInf] = n_frames example_args * n_edges example_args \<and>
   1 < n_frames example_args \<and> 0 < n_seqs example_args \<and>
   n_edges example_args = 1 \<and> [Finite 0, PosInf] ! (1 * n_edges example_args + 0) = PosInf \<and>
   (\<exists>eb' so ob.
      fbw_normalize example_args [Finite 0, PosInf] = Inr (eb', so) \<and>
      fbw_result example_args eb' = Inr ob \<and>
      so ! (1 * n_seqs example_args + 0) = 0 \<and>
      (\<forall>e<n_edges example_args. elem (d_sequence_idxs example_args) e = 0 \<longrightarrow>
         eb' ! (1 * n_edges example_args + e) = NaN) \<and>
      (\<forall>l<n_emissions example_args.
         ob ! (1 * (n_seqs example_args * n_emissions example_args)
               + 0 * n_emissions example_args + l) = PosInf))"
proof -
  have h: "length [Finite 0, PosInf] = n_frames example_args * n_edges example_args"
    "1 < n_frames example_args" "0 < n_seqs example_args"
    "\<forall>e<n_edges example_args. elem (d_sequence_idxs example_args) e = 0 \<longrightarrow>
      [Finite 0, PosInf] ! (1 * n_edges example_args + e) = PosInf"
    by (simp_all add: example_dims)
  have "n_edges example_args = 1 \<and> [Finite 0, PosInf] ! (1 * n_edges example_args + 0) = PosInf"
    by (simp add: example_dims)
  with normalize_empty_cell [OF wf_example h] wf_example h(1-3) show ?thesis
    by blast
qed

text \<open>
  After the sweeps of the small call, the edge of the padded frame holds \<open>+\<infinity>\<close>;
  \<^verbatim>\<open>normalize\<close> turns it into NaN.
\<close>

theorem normalize_empty_cell_counterexample:
  "fbw_sweeps example_args = Inr [Finite 0, PosInf] \<and>
   fbw_normalize example_args [Finite 0, PosInf] = Inr ([Finite 0, NaN], [Finite 0, Finite 0]) \<and>
   [Finite 0, NaN] ! 1 \<noteq> PosInf"
  using example_sweeps example_normalize by simp

section \<open>One frame of a sweep\<close>

lemma wf_am_read:
  assumes wf: "wf_args a" and t: "t < n_frames a" and e: "e < n_edges a"
  shows "rdp (data (am_scores a), t * stride (am_scores a) 0)
           (elem (d_sequence_idxs a) e * stride (am_scores a) 1 + elem (d_emission_idxs a) e)
         = Inr (emission_score a e t)"
proof -
  let ?S = "n_seqs a" and ?E = "n_emissions a"
  from wf_edge_reads(8,9) [OF wf e]
  have "elem (d_sequence_idxs a) e * ?E + elem (d_emission_idxs a) e < ?S * ?E"
    by (simp add: slot_less)
  with t have "t * (?S * ?E) + (elem (d_sequence_idxs a) e * ?E + elem (d_emission_idxs a) e)
        < n_frames a * (?S * ?E)"
    by (simp add: slot_less)
  moreover from wf have "length (data (am_scores a)) = n_frames a * (?S * ?E)"
    by (simp add: wf_args_def mult.assoc)
  ultimately show ?thesis
    by (simp add: rdp_def emission_score_def wf_strides [OF wf] wf_strides_Suc [OF wf])
qed

lemma sweep_step:
  assumes wf: "wf_args a" and ok: "device_ok a d" and t: "t < n_frames a"
    and ptrs: "frp = d_from a \<and> tp = d_to a \<or> frp = d_to a \<and> tp = d_from a"
  shows "\<exists>sb' eb'.
           bindE (launch (blocks_for (n_states a)) n_threads
                    (fill_array (d_state_buffer_next d) PosInf (n_states a)) (d_state_buffer d))
             (\<lambda>sb. launch (blocks_for (n_edges a)) n_threads
                (next_frame fwd (n_edges a) (stride (am_scores a) 1)
                   (d_sequence_idxs a) frp tp (d_weights a) (d_emission_idxs a)
                   (d_state_buffer_prev d) (d_state_buffer_next d)
                   (data (am_scores a), t * stride (am_scores a) 0) (t * n_edges a))
                (sb, d_edge_buffer d))
           = Inr (sb', eb') \<and>
           length sb' = length (d_state_buffer d) \<and> length eb' = length (d_edge_buffer d) \<and>
           (\<forall>j. \<not> (d_state_buffer_next d \<le> j \<and> j < d_state_buffer_next d + n_states a) \<longrightarrow>
                sb' ! j = d_state_buffer d ! j) \<and>
           (\<forall>j. \<not> (t * n_edges a \<le> j \<and> j < t * n_edges a + n_edges a) \<longrightarrow>
                eb' ! j = d_edge_buffer d ! j) \<and>
           (\<forall>e<n_edges a. eb' ! (t * n_edges a + e) =
              (let p = d_state_buffer d ! (d_state_buffer_prev d + elem frp e) in
               if isinf p then PosInf
               else d_edge_buffer d ! (t * n_edges a + e)
                    + (if fwd then p + elem (d_weights a) e + emission_score a e t else p))) \<and>
           (score_inputs a \<and>
            (\<forall>j<n_states a. is_score (d_state_buffer d ! (d_state_buffer_prev d + j))) \<longrightarrow>
            (\<forall>j<n_states a. is_score (sb' ! (d_state_buffer_next d + j))))"
proof -
  let ?ns = "n_states a" and ?n = "n_edges a"
  let ?P = "d_state_buffer_prev d" and ?N = "d_state_buffer_next d"
  let ?sb = "d_state_buffer d" and ?eb = "d_edge_buffer d"
  from ok have lsb: "length ?sb = 2 * ?ns" and leb: "length ?eb = n_frames a * ?n"
    and rows: "?P = 0 \<and> ?N = ?ns \<or> ?P = ?ns \<and> ?N = 0"
    by (simp_all add: device_ok_def)
  from rows lsb have fr: "?P + ?ns \<le> length ?sb" "?N + ?ns \<le> length ?sb"
    "?P + ?ns \<le> ?N \<or> ?N + ?ns \<le> ?P"
    by auto
  from fill_array_launch [OF fr(2) blocks_for_ge, of PosInf]
  obtain sb1 where fill: "launch (blocks_for ?ns) n_threads (fill_array ?N PosInf ?ns) ?sb = Inr sb1"
    and l1: "length sb1 = length ?sb"
    and c1: "\<forall>j. sb1 ! j = (if ?N \<le> j \<and> j < ?N + ?ns then PosInf else ?sb ! j)"
    by blast
  have reads: "\<forall>e<?n. rdp frp e = Inr (elem frp e) \<and> rdp tp e = Inr (elem tp e) \<and>
       rdp (d_weights a) e = Inr (elem (d_weights a) e) \<and>
       rdp (d_emission_idxs a) e = Inr (elem (d_emission_idxs a) e) \<and>
       rdp (d_sequence_idxs a) e = Inr (elem (d_sequence_idxs a) e) \<and>
       rdp (data (am_scores a), t * stride (am_scores a) 0)
         (elem (d_sequence_idxs a) e * stride (am_scores a) 1 + elem (d_emission_idxs a) e)
         = Inr (emission_score a e t)"
    using ptrs wf_edge_reads [OF wf] wf_am_read [OF wf t] by auto
  have states: "\<forall>e<?n. elem frp e < ?ns \<and> elem tp e < ?ns"
    using ptrs wf_edge_reads [OF wf] by auto
  from t have "Suc t * ?n \<le> n_frames a * ?n"
    by (intro mult_le_mono1) simp
  with leb have eoff: "t * ?n + ?n \<le> length ?eb" by simp
  from fr l1 have fr1: "?P + ?ns \<le> length sb1" "?N + ?ns \<le> length sb1" by simp_all
  from next_frame_launch [OF reads states fr1 fr(3) eoff blocks_for_ge, of fwd]
  obtain sb' eb' where run: "launch (blocks_for ?n) n_threads
        (next_frame fwd ?n (stride (am_scores a) 1) (d_sequence_idxs a) frp tp (d_weights a)
           (d_emission_idxs a) ?P ?N (data (am_scores a), t * stride (am_scores a) 0) (t * ?n))
        (sb1, ?eb) = Inr (sb', eb')"
    and l2: "length sb' = length sb1" "length eb' = length ?eb"
    and c2: "\<forall>j. \<not> (?N \<le> j \<and> j < ?N + ?ns) \<longrightarrow> sb' ! j = sb1 ! j"
    and c3: "\<forall>j. \<not> (t * ?n \<le> j \<and> j < t * ?n + ?n) \<longrightarrow> eb' ! j = ?eb ! j"
    and c4: "\<forall>e<?n. eb' ! (t * ?n + e) =
              (if isinf (sb1 ! (?P + elem frp e)) then PosInf
               else ?eb ! (t * ?n + e)
                    + (if fwd then sb1 ! (?P + elem frp e) + elem (d_weights a) e
                                   + emission_score a e t
                       else sb1 ! (?P + elem frp e)))"
    and c5: "(\<forall>j<?ns. is_score (sb1 ! (?P + j)) \<and> is_score (sb1 ! (?N + j))) \<and>
            (\<forall>e<?n. is_score (elem (d_weights a) e) \<and> is_score (emission_score a e t)) \<longrightarrow>
            (\<forall>j<?ns. is_score (sb' ! (?N + j)))"
    by blast
  have prev_same: "\<And>j. j < ?ns \<Longrightarrow> sb1 ! (?P + j) = ?sb ! (?P + j)"
    using c1 fr(3) by auto
  have a1: "\<forall>j. \<not> (?N \<le> j \<and> j < ?N + ?ns) \<longrightarrow> sb' ! j = ?sb ! j"
    using c1 c2 by simp
  have a2: "\<forall>e<?n. eb' ! (t * ?n + e) =
              (let p = ?sb ! (?P + elem frp e) in
               if isinf p then PosInf
               else ?eb ! (t * ?n + e)
                    + (if fwd then p + elem (d_weights a) e + emission_score a e t else p))"
    using c4 prev_same states by (simp add: Let_def)
  have a3: "score_inputs a \<and> (\<forall>j<?ns. is_score (?sb ! (?P + j))) \<longrightarrow>
            (\<forall>j<?ns. is_score (sb' ! (?N + j)))"
  proof
    assume h: "score_inputs a \<and> (\<forall>j<?ns. is_score (?sb ! (?P + j)))"
    have w: "\<forall>e<?n. is_score (elem (d_weights a) e) \<and> is_score (emission_score a e t)"
    proof (intro allI impI)
      fix e assume e: "e < ?n"
      from wf e have "e < length (data (weights a))" by (simp add: wf_args_def)
      with h have 1: "is_score (elem (d_weights a) e)"
        by (simp add: score_inputs_def elem_def d_weights_def list_all_length)
      from wf_am_read [OF wf t e] have "emission_score a e t \<in> set (data (am_scores a))"
        by (auto simp: rdp_def rd_def emission_score_def split: if_splits)
      with h have "is_score (emission_score a e t)"
        by (simp add: score_inputs_def list_all_iff)
      with 1 show "is_score (elem (d_weights a) e) \<and> is_score (emission_score a e t)" ..
    qed
    have "\<forall>j<?ns. is_score (sb1 ! (?P + j)) \<and> is_score (sb1 ! (?N + j))"
      using h prev_same c1 by simp
    with w c5 show "\<forall>j<?ns. is_score (sb' ! (?N + j))" by blast
  qed
  from fill run have "bindE (launch (blocks_for ?ns) n_threads (fill_array ?N PosInf ?ns) ?sb)
             (\<lambda>sb. launch (blocks_for ?n) n_threads
                (next_frame fwd ?n (stride (am_scores a) 1)
                   (d_sequence_idxs a) frp tp (d_weights a) (d_emission_idxs a) ?P ?N
                   (data (am_scores a), t * stride (am_scores a) 0) (t * ?n))
                (sb, ?eb)) = Inr (sb', eb')"
    by simp
  with l1 l2 a1 c3 a2 a3 show ?thesis by (intro exI conjI) simp_all
qed

section \<open>The steps of the host code on a well-formed call\<close>

lemma wf_score_reads:
  assumes wf: "wf_args a" and sc: "score_inputs a" and t: "t < n_frames a" and e: "e < n_edges a"
  shows "is_score (elem (d_weights a) e)" and "is_score (emission_score a e t)"
proof -
  from wf e have "e < length (data (weights a))" by (simp add: wf_args_def)
  with sc show "is_score (elem (d_weights a) e)"
    by (simp add: score_inputs_def elem_def d_weights_def list_all_length)
  from wf_am_read [OF wf t e] have "emission_score a e t \<in> set (data (am_scores a))"
    by (auto simp: rdp_def rd_def emission_score_def split: if_splits)
  with sc show "is_score (emission_score a e t)"
    by (simp add: score_inputs_def list_all_iff)
qed

lemma fbw_init_spec:
  assumes wf: "wf_args a"
  shows "\<exists>d. fbw_init a = Inr d \<and> device_ok a d \<and> d_state_buffer_prev d = 0 \<and>
           (\<forall>s<n_states a. d_state_buffer d ! s =
              (if \<exists>idx<n_seqs a. elem (d_start_states a) idx = s then 0 else PosInf)) \<and>
           (\<forall>j<n_frames a * n_edges a. d_edge_buffer d ! j = 0)"
proof -
  let ?ns = "n_states a" and ?n = "n_edges a" and ?T = "n_frames a" and ?S = "n_seqs a"
  have "0 + ?n * ?T \<le> length (device_malloc (?n * ?T))"
    by (simp add: device_malloc_def)
  from fill_array_launch [OF this blocks_for_ge, of 0]
  obtain eb where eb: "launch (blocks_for (?n * ?T)) n_threads (fill_array 0 0 (?n * ?T))
                         (device_malloc (?n * ?T)) = Inr eb"
    "length eb = ?n * ?T" "\<forall>j<?n * ?T. eb ! j = 0"
    by (auto simp: device_malloc_def)
  from wf have lsb: "length (data (state_buffer a)) = 2 * ?ns" by (simp add: wf_args_def)
  then have "0 + ?ns \<le> length (data (state_buffer a))" by simp
  from fill_array_launch [OF this blocks_for_ge, of PosInf]
  obtain sb where sb: "launch (blocks_for ?ns) n_threads (fill_array 0 PosInf ?ns)
                         (data (state_buffer a)) = Inr sb"
    "length sb = 2 * ?ns" "\<forall>j<?ns. sb ! j = PosInf"
    using lsb by auto
  have "\<forall>idx<?S. snd (d_start_states a) + idx < length (fst (d_start_states a)) \<and>
          0 + elem (d_start_states a) idx < length sb"
    using wf sb(2) by (auto simp: wf_args_def d_start_states_def)
  from set_start_states_launch [OF this]
  obtain sb' where sb': "launch 1 ?S (set_start_states 0 (d_start_states a)) sb = Inr sb'"
    "length sb' = length sb"
    "\<forall>j. sb' ! j = (if \<exists>idx<?S. 0 + elem (d_start_states a) idx = j then 0 else sb ! j)"
    by blast
  let ?d = "\<lparr>d_state_buffer = sb', d_state_buffer_prev = 0, d_state_buffer_next = ?ns,
             d_edge_buffer = eb\<rparr>"
  from eb sb sb' have "fbw_init a = Inr ?d"
    by (simp add: fbw_init_def wf_strides [OF wf])
  moreover from eb sb sb' have "device_ok a ?d"
    by (simp add: device_ok_def mult.commute)
  moreover from sb sb' have "\<forall>s<?ns. d_state_buffer ?d ! s =
              (if \<exists>idx<?S. elem (d_start_states a) idx = s then 0 else PosInf)"
    by auto
  moreover from eb have "\<forall>j<?T * ?n. d_edge_buffer ?d ! j = 0"
    by (simp add: mult.commute)
  ultimately show ?thesis by (intro exI [of _ ?d]) simp
qed

lemma fwd_frame_spec:
  assumes wf: "wf_args a" and ok: "device_ok a d" and t: "t < n_frames a"
  shows "\<exists>d'. fwd_frame a t d = Inr d' \<and> device_ok a d' \<and>
           d_state_buffer_prev d' = d_state_buffer_next d \<and>
           d_state_buffer_next d' = d_state_buffer_prev d \<and>
           (\<forall>j. \<not> (t * n_edges a \<le> j \<and> j < t * n_edges a + n_edges a) \<longrightarrow>
                d_edge_buffer d' ! j = d_edge_buffer d ! j) \<and>
           (\<forall>e<n_edges a. d_edge_buffer d' ! (t * n_edges a + e) =
              (let p = d_state_buffer d ! (d_state_buffer_prev d + elem (d_from a) e) in
               if isinf p then PosInf
               else d_edge_buffer d ! (t * n_edges a + e)
                    + (p + elem (d_weights a) e + emission_score a e t))) \<and>
           (score_inputs a \<and>
            (\<forall>j<n_states a. is_score (d_state_buffer d ! (d_state_buffer_prev d + j))) \<longrightarrow>
            (\<forall>j<n_states a. is_score (d_state_buffer d' ! (d_state_buffer_prev d' + j))))"
proof -
  have "d_from a = d_from a \<and> d_to a = d_to a \<or> d_from a = d_to a \<and> d_to a = d_from a"
    by simp
  from sweep_step [OF wf ok t this, of True]
  obtain sb' eb' where run:
      "bindE (launch (blocks_for (n_states a)) n_threads
                (fill_array (d_state_buffer_next d) PosInf (n_states a)) (d_state_buffer d))
         (\<lambda>sb. launch (blocks_for (n_edges a)) n_threads
            (next_frame True (n_edges a) (stride (am_scores a) 1)
               (d_sequence_idxs a) (d_from a) (d_to a) (d_weights a) (d_emission_idxs a)
               (d_state_buffer_prev d) (d_state_buffer_next d)
               (data (am_scores a), t * stride (am_scores a) 0) (t * n_edges a))
            (sb, d_edge_buffer d)) = Inr (sb', eb')"
    and l: "length sb' = length (d_state_buffer d)" "length eb' = length (d_edge_buffer d)"
    and c: "\<forall>j. \<not> (t * n_edges a \<le> j \<and> j < t * n_edges a + n_edges a) \<longrightarrow>
                eb' ! j = d_edge_buffer d ! j"
      "\<forall>e<n_edges a. eb' ! (t * n_edges a + e) =
              (let p = d_state_buffer d ! (d_state_buffer_prev d + elem (d_from a) e) in
               if isinf p then PosInf
               else d_edge_buffer d ! (t * n_edges a + e)
                    + (if True then p + elem (d_weights a) e + emission_score a e t else p))"
      "score_inputs a \<and>
            (\<forall>j<n_states a. is_score (d_state_buffer d ! (d_state_buffer_prev d + j))) \<longrightarrow>
            (\<forall>j<n_states a. is_score (sb' ! (d_state_buffer_next d + j)))"
    by blast
  let ?d = "\<lparr>d_state_buffer = sb', d_state_buffer_prev = d_state_buffer_next d,
             d_state_buffer_next = d_state_buffer_prev d, d_edge_buffer = eb'\<rparr>"
  from run have "fwd_frame a t d = Inr ?d"
    by (simp add: fwd_frame_def bindE_eq_Inr)
  moreover from ok l have "device_ok a ?d"
    by (auto simp: device_ok_def)
  ultimately show ?thesis using c by (intro exI [of _ ?d]) (simp add: Let_def)
qed

lemma bwd_step_spec:
  assumes wf: "wf_args a" and ok: "device_ok a d" and t: "t < n_frames a"
  shows "\<exists>d'. bwd_step a t d = Inr d' \<and> device_ok a d' \<and>
           d_state_buffer_prev d' = d_state_buffer_next d \<and>
           d_state_buffer_next d' = d_state_buffer_prev d \<and>
           (\<forall>j. \<not> (t * n_edges a \<le> j \<and> j < t * n_edges a + n_edges a) \<longrightarrow>
                d_edge_buffer d' ! j = d_edge_buffer d ! j) \<and>
           (\<forall>e<n_edges a. d_edge_buffer d' ! (t * n_edges a + e) =
              (let p = d_state_buffer d ! (d_state_buffer_prev d + elem (d_to a) e) in
               if isinf p then PosInf else d_edge_buffer d ! (t * n_edges a + e) + p)) \<and>
           (score_inputs a \<and>
            (\<forall>j<n_states a. is_score (d_state_buffer d ! (d_state_buffer_prev d + j))) \<longrightarrow>
            (\<forall>j<n_states a. is_score (d_state_buffer d' ! (d_state_buffer_prev d' + j))))"
proof -
  have "d_to a = d_from a \<and> d_from a = d_to a \<or> d_to a = d_to a \<and> d_from a = d_from a"
    by simp
  from sweep_step [OF wf ok t this, of False]
  obtain sb' eb' where run:
      "bindE (launch (blocks_for (n_states a)) n_threads
                (fill_array (d_state_buffer_next d) PosInf (n_states a)) (d_state_buffer d))
         (\<lambda>sb. launch (blocks_for (n_edges a)) n_threads
            (next_frame False (n_edges a) (stride (am_scores a) 1)
               (d_sequence_idxs a) (d_to a) (d_from a) (d_weights a) (d_emission_idxs a)
               (d_state_buffer_prev d) (d_state_buffer_next d)
               (data (am_scores a), t * stride (am_scores a) 0) (t * n_edges a))
            (sb, d_edge_buffer d)) = Inr (sb', eb')"
    and l: "length sb' = length (d_state_buffer d)" "length eb' = length (d_edge_buffer d)"
    and c: "\<forall>j. \<not> (t * n_edges a \<le> j \<and> j < t * n_edges a + n_edges a) \<longrightarrow>
                eb' ! j = d_edge_buffer d ! j"
      "\<forall>e<n_edges a. eb' ! (t * n_edges a + e) =
              (let p = d_state_buffer d ! (d_state_buffer_prev d + elem (d_to a) e) in
               if isinf p then PosInf
               else d_edge_buffer d ! (t * n_edges a + e)
                    + (if False then p + elem (d_weights a) e + emission_score a e t else p))"
      "score_inputs a \<and>
            (\<forall>j<n_states a. is_score (d_state_buffer d ! (d_state_buffer_prev d + j))) \<longrightarrow>
            (\<forall>j<n_states a. is_score (sb' ! (d_state_buffer_next d + j)))"
    by blast
  let ?d = "\<lparr>d_state_buffer = sb', d_state_buffer_prev = d_state_buffer_next d,
             d_state_buffer_next = d_state_buffer_prev d, d_edge_buffer = eb'\<rparr>"
  from run have "bwd_step a t d = Inr ?d"
    by (simp add: bwd_step_def bindE_eq_Inr)
  moreover from ok l have "device_ok a ?d"
    by (auto simp: device_ok_def)
  ultimately show ?thesis using c by (intro exI [of _ ?d]) (simp add: Let_def)
qed

lemma bwd_enter_spec:
  assumes wf: "wf_args a" and ok: "device_ok a d" and t: "t < n_frames a"
  shows "\<exists>d'. bwd_enter a t d = Inr d' \<and> device_ok a d' \<and>
           d_state_buffer_prev d' = d_state_buffer_prev d \<and>
           d_state_buffer_next d' = d_state_buffer_next d \<and>
           d_edge_buffer d' = d_edge_buffer d \<and>
           (\<forall>s<n_states a. d_state_buffer d' ! (d_state_buffer_prev d + s) =
              (if \<exists>idx<n_seqs a. elem (d_end_states a) idx = s \<and> last_live_frame a idx t
               then 0 else d_state_buffer d ! (d_state_buffer_prev d + s))) \<and>
           (\<forall>s<n_states a. d_state_buffer d' ! (d_state_buffer_next d + s) =
              d_state_buffer d ! (d_state_buffer_next d + s))"
proof -
  let ?ns = "n_states a" and ?S = "n_seqs a" and ?T = "n_frames a"
  let ?P = "d_state_buffer_prev d" and ?N = "d_state_buffer_next d"
  let ?sb = "d_state_buffer d"
  from ok have lsb: "length ?sb = 2 * ?ns"
    and rows: "?P = 0 \<and> ?N = ?ns \<or> ?P = ?ns \<and> ?N = 0"
    by (simp_all add: device_ok_def)
  from wf have li: "length (data (index a)) = ?T * ?S"
    and le: "length (data (start_end_states a)) = 2 * ?S"
    and es: "\<forall>s<?S. elem (d_end_states a) s < ?ns"
    by (simp_all add: wf_args_def)
  have st: "stride (index a) 0 = ?S" "stride (start_end_states a) 0 = ?S"
    using wf_strides [OF wf] by simp_all
  have "\<forall>idx<?S. snd (d_index a) + (t * stride (index a) 0 + idx) < length (fst (d_index a)) \<and>
          (t \<noteq> ?T - 1 \<longrightarrow>
             snd (d_index a) + ((t + 1) * stride (index a) 0 + idx) < length (fst (d_index a))) \<and>
          snd (d_end_states a) + idx < length (fst (d_end_states a)) \<and>
          ?P + elem (d_end_states a) idx < length ?sb"
  proof (intro allI impI conjI)
    fix idx assume idx: "idx < ?S"
    from t idx have "t * ?S + idx < ?T * ?S" by (simp add: slot_less)
    with li show "snd (d_index a) + (t * stride (index a) 0 + idx) < length (fst (d_index a))"
      by (simp add: d_index_def st)
    from idx le show "snd (d_end_states a) + idx < length (fst (d_end_states a))"
      by (simp add: d_end_states_def st)
    from es idx rows lsb show "?P + elem (d_end_states a) idx < length ?sb"
      by auto
    assume "t \<noteq> ?T - 1"
    with t have "t + 1 < ?T" by simp
    with idx have "(t + 1) * ?S + idx < ?T * ?S" by (intro slot_less)
    with li show "snd (d_index a) + ((t + 1) * stride (index a) 0 + idx)
        < length (fst (d_index a))"
      by (simp add: d_index_def st)
  qed
  from init_bwd_state_buffer_launch [OF this]
  obtain sb' where run: "launch 1 ?S
        (init_bwd_state_buffer ?P (d_end_states a) t (?T - 1) (d_index a) (stride (index a) 0))
        ?sb = Inr sb'"
    and l: "length sb' = length ?sb"
    and c: "\<forall>j. sb' ! j =
              (if \<exists>idx<?S. ?P + elem (d_end_states a) idx = j \<and>
                    fl_eq (elem (d_index a) (t * stride (index a) 0 + idx)) (Finite 1) \<and>
                    (t = ?T - 1 \<or>
                     fl_eq (elem (d_index a) ((t + 1) * stride (index a) 0 + idx)) (Finite 0))
               then 0 else ?sb ! j)"
    by blast
  let ?d = "d\<lparr>d_state_buffer := sb'\<rparr>"
  from run have "bwd_enter a t d = Inr ?d"
    by (simp add: bwd_enter_def)
  moreover from ok l have "device_ok a ?d"
    by (simp add: device_ok_def)
  moreover have "\<forall>s<?ns. d_state_buffer ?d ! (?P + s) =
              (if \<exists>idx<?S. elem (d_end_states a) idx = s \<and> last_live_frame a idx t
               then 0 else ?sb ! (?P + s))"
    using c by (simp add: last_live_frame_def)
  moreover have "\<forall>s<?ns. d_state_buffer ?d ! (?N + s) = ?sb ! (?N + s)"
  proof (intro allI impI)
    fix s assume s: "s < ?ns"
    have neg: "\<not> (\<exists>idx<?S. ?P + elem (d_end_states a) idx = ?N + s \<and>
                    fl_eq (elem (d_index a) (t * stride (index a) 0 + idx)) (Finite 1) \<and>
                    (t = ?T - 1 \<or>
                     fl_eq (elem (d_index a) ((t + 1) * stride (index a) 0 + idx)) (Finite 0)))"
      using es rows s by auto
    from c have "sb' ! (?N + s) =
              (if \<exists>idx<?S. ?P + elem (d_end_states a) idx = ?N + s \<and>
                    fl_eq (elem (d_index a) (t * stride (index a) 0 + idx)) (Finite 1) \<and>
                    (t = ?T - 1 \<or>
                     fl_eq (elem (d_index a) ((t + 1) * stride (index a) 0 + idx)) (Finite 0))
               then 0 else ?sb ! (?N + s))"
      by (rule spec)
    with neg have "sb' ! (?N + s) = ?sb ! (?N + s)"
      by (simp only: if_False)
    then show "d_state_buffer ?d ! (?N + s) = ?sb ! (?N + s)" by simp
  qed
  ultimately show ?thesis by (intro exI [of _ ?d]) simp
qed

section \<open>The sweeps on a well-formed call\<close>

lemma slot_split:
  assumes "t * n \<le> j" and "j < t * n + (n::nat)"
  obtains e where "e < n" and "j = t * n + e"
proof
  from assms show "j - t * n < n" by simp
  from assms show "j = t * n + (j - t * n)" by simp
qed

lemma fwd_pass_inv:
  assumes wf: "wf_args a" and "t \<le> n_frames a"
  shows "\<exists>d. fwd_pass a t = Inr d \<and> device_ok a d \<and>
           (\<forall>t' e. t \<le> t' \<and> t' < n_frames a \<and> e < n_edges a \<longrightarrow>
              d_edge_buffer d ! (t' * n_edges a + e) = 0) \<and>
           (\<forall>t' e. t' < t \<and> e < n_edges a \<longrightarrow>
              (\<exists>d0. fwd_pass a t' = Inr d0 \<and>
                 d_edge_buffer d ! (t' * n_edges a + e) =
                   (let p = d_state_buffer d0 ! (d_state_buffer_prev d0 + elem (d_from a) e) in
                    if isinf p then PosInf
                    else p + elem (d_weights a) e + emission_score a e t'))) \<and>
           (score_inputs a \<longrightarrow>
              (\<forall>j<n_states a. is_score (d_state_buffer d ! (d_state_buffer_prev d + j))) \<and>
              (\<forall>j<n_frames a * n_edges a. is_score (d_edge_buffer d ! j)))"
  using assms(2)
proof (induction t)
  case 0
  from fbw_init_spec [OF wf]
  obtain d where d: "fbw_init a = Inr d" "device_ok a d" "d_state_buffer_prev d = 0"
    "\<forall>s<n_states a. d_state_buffer d ! s =
        (if \<exists>idx<n_seqs a. elem (d_start_states a) idx = s then 0 else PosInf)"
    "\<forall>j<n_frames a * n_edges a. d_edge_buffer d ! j = 0"
    by blast
  have "\<forall>t' e. t' < n_frames a \<and> e < n_edges a \<longrightarrow> d_edge_buffer d ! (t' * n_edges a + e) = 0"
    using d(5) by (simp add: slot_less)
  moreover have "\<forall>j<n_states a. is_score (d_state_buffer d ! (d_state_buffer_prev d + j))"
    using d(3,4) by simp
  moreover have "\<forall>j<n_frames a * n_edges a. is_score (d_edge_buffer d ! j)"
    using d(5) by simp
  ultimately show ?case using d(1,2) by simp
next
  case (Suc t)
  let ?n = "n_edges a"
  from Suc have t: "t < n_frames a" by simp
  with Suc.IH obtain d where d: "fwd_pass a t = Inr d" "device_ok a d"
    and zero: "\<forall>t' e. t \<le> t' \<and> t' < n_frames a \<and> e < ?n \<longrightarrow> d_edge_buffer d ! (t' * ?n + e) = 0"
    and past: "\<forall>t' e. t' < t \<and> e < ?n \<longrightarrow>
              (\<exists>d0. fwd_pass a t' = Inr d0 \<and>
                 d_edge_buffer d ! (t' * ?n + e) =
                   (let p = d_state_buffer d0 ! (d_state_buffer_prev d0 + elem (d_from a) e) in
                    if isinf p then PosInf
                    else p + elem (d_weights a) e + emission_score a e t'))"
    and sc: "score_inputs a \<longrightarrow>
              (\<forall>j<n_states a. is_score (d_state_buffer d ! (d_state_buffer_prev d + j))) \<and>
              (\<forall>j<n_frames a * ?n. is_score (d_edge_buffer d ! j))"
    by auto
  from fwd_frame_spec [OF wf d(2) t]
  obtain d' where d': "fwd_frame a t d = Inr d'" "device_ok a d'"
    and keep: "\<forall>j. \<not> (t * ?n \<le> j \<and> j < t * ?n + ?n) \<longrightarrow>
                d_edge_buffer d' ! j = d_edge_buffer d ! j"
    and new: "\<forall>e<?n. d_edge_buffer d' ! (t * ?n + e) =
              (let p = d_state_buffer d ! (d_state_buffer_prev d + elem (d_from a) e) in
               if isinf p then PosInf
               else d_edge_buffer d ! (t * ?n + e)
                    + (p + elem (d_weights a) e + emission_score a e t))"
    and sc': "score_inputs a \<and>
            (\<forall>j<n_states a. is_score (d_state_buffer d ! (d_state_buffer_prev d + j))) \<longrightarrow>
            (\<forall>j<n_states a. is_score (d_state_buffer d' ! (d_state_buffer_prev d' + j)))"
    by blast
  from zero t have z: "\<forall>e<?n. d_edge_buffer d ! (t * ?n + e) = 0" by simp
  with new have new': "\<forall>e<?n. d_edge_buffer d' ! (t * ?n + e) =
              (let p = d_state_buffer d ! (d_state_buffer_prev d + elem (d_from a) e) in
               if isinf p then PosInf
               else p + elem (d_weights a) e + emission_score a e t)"
    by (simp add: Let_def)
  have run: "fwd_pass a (Suc t) = Inr d'" using d(1) d'(1) by simp
  have a1: "\<forall>t' e. Suc t \<le> t' \<and> t' < n_frames a \<and> e < ?n \<longrightarrow>
              d_edge_buffer d' ! (t' * ?n + e) = 0"
  proof (intro allI impI)
    fix t' e assume h: "Suc t \<le> t' \<and> t' < n_frames a \<and> e < ?n"
    then have "Suc t * ?n \<le> t' * ?n" by (intro mult_le_mono1) simp
    then have "\<not> (t * ?n \<le> t' * ?n + e \<and> t' * ?n + e < t * ?n + ?n)" by simp
    with keep zero h show "d_edge_buffer d' ! (t' * ?n + e) = 0" by simp
  qed
  have a2: "\<forall>t' e. t' < Suc t \<and> e < ?n \<longrightarrow>
              (\<exists>d0. fwd_pass a t' = Inr d0 \<and>
                 d_edge_buffer d' ! (t' * ?n + e) =
                   (let p = d_state_buffer d0 ! (d_state_buffer_prev d0 + elem (d_from a) e) in
                    if isinf p then PosInf
                    else p + elem (d_weights a) e + emission_score a e t'))"
  proof (intro allI impI)
    fix t' e assume h: "t' < Suc t \<and> e < ?n"
    show "\<exists>d0. fwd_pass a t' = Inr d0 \<and>
                 d_edge_buffer d' ! (t' * ?n + e) =
                   (let p = d_state_buffer d0 ! (d_state_buffer_prev d0 + elem (d_from a) e) in
                    if isinf p then PosInf
                    else p + elem (d_weights a) e + emission_score a e t')"
    proof (cases "t' = t")
      case True
      with new' h d(1) show ?thesis by (simp add: Let_def)
    next
      case False
      with h have lt: "t' < t" by simp
      with h have "t' * ?n + e < t * ?n" by (simp add: slot_less)
      with keep have "d_edge_buffer d' ! (t' * ?n + e) = d_edge_buffer d ! (t' * ?n + e)"
        by simp
      with past lt h show ?thesis by (simp add: Let_def)
    qed
  qed
  have a3: "score_inputs a \<longrightarrow>
              (\<forall>j<n_states a. is_score (d_state_buffer d' ! (d_state_buffer_prev d' + j))) \<and>
              (\<forall>j<n_frames a * ?n. is_score (d_edge_buffer d' ! j))"
  proof
    assume si: "score_inputs a"
    with sc have p: "\<forall>j<n_states a. is_score (d_state_buffer d ! (d_state_buffer_prev d + j))"
      and q: "\<forall>j<n_frames a * ?n. is_score (d_edge_buffer d ! j)" by simp_all
    from si p sc' have r: "\<forall>j<n_states a. is_score (d_state_buffer d' ! (d_state_buffer_prev d' + j))"
      by blast
    have "\<forall>j<n_frames a * ?n. is_score (d_edge_buffer d' ! j)"
    proof (intro allI impI)
      fix j assume j: "j < n_frames a * ?n"
      show "is_score (d_edge_buffer d' ! j)"
      proof (cases "t * ?n \<le> j \<and> j < t * ?n + ?n")
        case False
        with keep q j show ?thesis by simp
      next
        case True
        then obtain e where e: "e < ?n" "j = t * ?n + e" by (auto elim: slot_split)
        from wf_edge_reads(6) [OF wf e(1)] p
        have "is_score (d_state_buffer d ! (d_state_buffer_prev d + elem (d_from a) e))"
          by simp
        with wf_score_reads [OF wf si t e(1)] new' e show ?thesis
          by (simp add: Let_def is_score_add)
      qed
    qed
    with r show "(\<forall>j<n_states a. is_score (d_state_buffer d' ! (d_state_buffer_prev d' + j))) \<and>
              (\<forall>j<n_frames a * ?n. is_score (d_edge_buffer d' ! j))" ..
  qed
  from run d'(2) a1 a2 a3 show ?case by blast
qed

lemma bwd_pass_inv:
  assumes wf: "wf_args a" and "k \<le> n_frames a"
  shows "\<exists>d df. bwd_pass a k = Inr d \<and> fwd_pass a (n_frames a) = Inr df \<and> device_ok a d \<and>
           (\<forall>t' e. t' < n_frames a - k \<and> e < n_edges a \<longrightarrow>
              d_edge_buffer d ! (t' * n_edges a + e) = d_edge_buffer df ! (t' * n_edges a + e)) \<and>
           (\<forall>t' e. n_frames a - k \<le> t' \<and> t' < n_frames a \<and> e < n_edges a \<longrightarrow>
              (\<exists>d1 d2. bwd_pass a (n_frames a - Suc t') = Inr d1 \<and> bwd_enter a t' d1 = Inr d2 \<and>
                 d_edge_buffer d ! (t' * n_edges a + e) =
                   (let p = d_state_buffer d2 ! (d_state_buffer_prev d2 + elem (d_to a) e) in
                    if isinf p then PosInf
                    else d_edge_buffer df ! (t' * n_edges a + e) + p))) \<and>
           (k = 0 \<longrightarrow> (\<forall>j<n_states a. d_state_buffer d ! (d_state_buffer_prev d + j) = PosInf)) \<and>
           (score_inputs a \<longrightarrow>
              (\<forall>j<n_states a. is_score (d_state_buffer d ! (d_state_buffer_prev d + j))) \<and>
              (\<forall>j<n_frames a * n_edges a. is_score (d_edge_buffer d ! j)))"
  using assms(2)
proof (induction k)
  case 0
  let ?ns = "n_states a"
  from fwd_pass_inv [OF wf le_refl]
  obtain df where df: "fwd_pass a (n_frames a) = Inr df" "device_ok a df"
    and sc: "score_inputs a \<longrightarrow> (\<forall>j<n_frames a * n_edges a. is_score (d_edge_buffer df ! j))"
    by blast
  from df(2) have "d_state_buffer_prev df + ?ns \<le> length (d_state_buffer df)"
    by (auto simp: device_ok_def)
  from fill_array_launch [OF this blocks_for_ge, of PosInf]
  obtain sb where sb: "launch (blocks_for ?ns) n_threads
        (fill_array (d_state_buffer_prev df) PosInf ?ns) (d_state_buffer df) = Inr sb"
    "length sb = length (d_state_buffer df)"
    "\<forall>j<?ns. sb ! (d_state_buffer_prev df + j) = PosInf"
    by auto
  let ?d = "df\<lparr>d_state_buffer := sb\<rparr>"
  from df(1) sb(1) have B: "bwd_pass a 0 = Inr ?d" by simp
  from df(2) sb(2) have ok: "device_ok a ?d" by (simp add: device_ok_def)
  have v: "\<forall>t' e. n_frames a - 0 \<le> t' \<and> t' < n_frames a \<and> e < n_edges a \<longrightarrow>
              (\<exists>d1 d2. bwd_pass a (n_frames a - Suc t') = Inr d1 \<and> bwd_enter a t' d1 = Inr d2 \<and>
                 d_edge_buffer ?d ! (t' * n_edges a + e) =
                   (let p = d_state_buffer d2 ! (d_state_buffer_prev d2 + elem (d_to a) e) in
                    if isinf p then PosInf
                    else d_edge_buffer df ! (t' * n_edges a + e) + p))"
    by auto
  have w: "\<forall>t' e. t' < n_frames a - 0 \<and> e < n_edges a \<longrightarrow>
              d_edge_buffer ?d ! (t' * n_edges a + e) = d_edge_buffer df ! (t' * n_edges a + e)"
    by simp
  have x: "0 = (0::nat) \<longrightarrow>
      (\<forall>j<n_states a. d_state_buffer ?d ! (d_state_buffer_prev ?d + j) = PosInf)"
    using sb(3) by simp
  have y: "score_inputs a \<longrightarrow>
              (\<forall>j<n_states a. is_score (d_state_buffer ?d ! (d_state_buffer_prev ?d + j))) \<and>
              (\<forall>j<n_frames a * n_edges a. is_score (d_edge_buffer ?d ! j))"
    using sb(3) sc by simp
  from B df(1) ok w v x y show ?case
    by (intro exI [of _ ?d] exI [of _ df] conjI)
next
  case (Suc k)
  let ?n = "n_edges a" and ?T = "n_frames a"
  let ?t = "?T - Suc k"
  from Suc have k: "k < ?T" by simp
  then have t: "?t < ?T" by simp
  from k have tk: "?T - k = Suc ?t" by simp
  from k have kt: "?T - Suc ?t = k" by simp
  from Suc.IH k obtain d df where d: "bwd_pass a k = Inr d" "fwd_pass a ?T = Inr df"
      "device_ok a d"
    and early: "\<forall>t' e. t' < ?T - k \<and> e < ?n \<longrightarrow>
              d_edge_buffer d ! (t' * ?n + e) = d_edge_buffer df ! (t' * ?n + e)"
    and late: "\<forall>t' e. ?T - k \<le> t' \<and> t' < ?T \<and> e < ?n \<longrightarrow>
              (\<exists>d1 d2. bwd_pass a (?T - Suc t') = Inr d1 \<and> bwd_enter a t' d1 = Inr d2 \<and>
                 d_edge_buffer d ! (t' * ?n + e) =
                   (let p = d_state_buffer d2 ! (d_state_buffer_prev d2 + elem (d_to a) e) in
                    if isinf p then PosInf
                    else d_edge_buffer df ! (t' * ?n + e) + p))"
    and sc: "score_inputs a \<longrightarrow>
              (\<forall>j<n_states a. is_score (d_state_buffer d ! (d_state_buffer_prev d + j))) \<and>
              (\<forall>j<?T * ?n. is_score (d_edge_buffer d ! j))"
    by auto
  from bwd_enter_spec [OF wf d(3) t]
  obtain d2 where d2: "bwd_enter a ?t d = Inr d2" "device_ok a d2"
      "d_state_buffer_prev d2 = d_state_buffer_prev d" "d_edge_buffer d2 = d_edge_buffer d"
    and ent: "\<forall>s<n_states a. d_state_buffer d2 ! (d_state_buffer_prev d + s) =
              (if \<exists>idx<n_seqs a. elem (d_end_states a) idx = s \<and> last_live_frame a idx ?t
               then 0 else d_state_buffer d ! (d_state_buffer_prev d + s))"
    by blast
  from bwd_step_spec [OF wf d2(2) t]
  obtain d' where d': "bwd_step a ?t d2 = Inr d'" "device_ok a d'"
    and keep: "\<forall>j. \<not> (?t * ?n \<le> j \<and> j < ?t * ?n + ?n) \<longrightarrow>
                d_edge_buffer d' ! j = d_edge_buffer d2 ! j"
    and new: "\<forall>e<?n. d_edge_buffer d' ! (?t * ?n + e) =
              (let p = d_state_buffer d2 ! (d_state_buffer_prev d2 + elem (d_to a) e) in
               if isinf p then PosInf else d_edge_buffer d2 ! (?t * ?n + e) + p)"
    and sc': "score_inputs a \<and>
            (\<forall>j<n_states a. is_score (d_state_buffer d2 ! (d_state_buffer_prev d2 + j))) \<longrightarrow>
            (\<forall>j<n_states a. is_score (d_state_buffer d' ! (d_state_buffer_prev d' + j)))"
    by blast
  have run: "bwd_pass a (Suc k) = Inr d'"
    using d(1) d2(1) d'(1) by (simp add: bwd_frame_def)
  have a1: "\<forall>t' e. t' < ?T - Suc k \<and> e < ?n \<longrightarrow>
              d_edge_buffer d' ! (t' * ?n + e) = d_edge_buffer df ! (t' * ?n + e)"
  proof (intro allI impI)
    fix t' e assume h: "t' < ?T - Suc k \<and> e < ?n"
    then have "t' * ?n + e < ?t * ?n" by (simp add: slot_less)
    with keep d2(4) have "d_edge_buffer d' ! (t' * ?n + e) = d_edge_buffer d ! (t' * ?n + e)"
      by simp
    moreover from h have "t' < ?T - k \<and> e < ?n" by auto
    with early have "d_edge_buffer d ! (t' * ?n + e) = d_edge_buffer df ! (t' * ?n + e)"
      by blast
    ultimately show "d_edge_buffer d' ! (t' * ?n + e) = d_edge_buffer df ! (t' * ?n + e)"
      by simp
  qed
  have a2: "\<forall>t' e. ?T - Suc k \<le> t' \<and> t' < ?T \<and> e < ?n \<longrightarrow>
              (\<exists>d1 d2. bwd_pass a (?T - Suc t') = Inr d1 \<and> bwd_enter a t' d1 = Inr d2 \<and>
                 d_edge_buffer d' ! (t' * ?n + e) =
                   (let p = d_state_buffer d2 ! (d_state_buffer_prev d2 + elem (d_to a) e) in
                    if isinf p then PosInf
                    else d_edge_buffer df ! (t' * ?n + e) + p))"
  proof (intro allI impI)
    fix t' e assume h: "?T - Suc k \<le> t' \<and> t' < ?T \<and> e < ?n"
    show "\<exists>d1 d2. bwd_pass a (?T - Suc t') = Inr d1 \<and> bwd_enter a t' d1 = Inr d2 \<and>
                 d_edge_buffer d' ! (t' * ?n + e) =
                   (let p = d_state_buffer d2 ! (d_state_buffer_prev d2 + elem (d_to a) e) in
                    if isinf p then PosInf
                    else d_edge_buffer df ! (t' * ?n + e) + p)"
    proof (cases "t' = ?t")
      case True
      from h tk have "?t < ?T - k \<and> e < ?n" by auto
      with early have "d_edge_buffer d ! (?t * ?n + e) = d_edge_buffer df ! (?t * ?n + e)"
        by blast
      with new h d2(4) have "d_edge_buffer d' ! (?t * ?n + e) =
                   (let p = d_state_buffer d2 ! (d_state_buffer_prev d2 + elem (d_to a) e) in
                    if isinf p then PosInf
                    else d_edge_buffer df ! (?t * ?n + e) + p)"
        by (simp add: Let_def)
      with True d(1) d2(1) kt show ?thesis by (simp add: Let_def)
    next
      case False
      with h tk have ge: "?T - k \<le> t'" by simp
      then have "Suc ?t * ?n \<le> t' * ?n" unfolding tk by (intro mult_le_mono1)
      then have "\<not> (?t * ?n \<le> t' * ?n + e \<and> t' * ?n + e < ?t * ?n + ?n)" by simp
      with keep d2(4) have "d_edge_buffer d' ! (t' * ?n + e) = d_edge_buffer d ! (t' * ?n + e)"
        by simp
      moreover from ge h have "?T - k \<le> t' \<and> t' < ?T \<and> e < ?n" by auto
      with late have "\<exists>d1 d2. bwd_pass a (?T - Suc t') = Inr d1 \<and> bwd_enter a t' d1 = Inr d2 \<and>
                 d_edge_buffer d ! (t' * ?n + e) =
                   (let p = d_state_buffer d2 ! (d_state_buffer_prev d2 + elem (d_to a) e) in
                    if isinf p then PosInf
                    else d_edge_buffer df ! (t' * ?n + e) + p)"
        by blast
      ultimately show ?thesis by (simp add: Let_def)
    qed
  qed
  have a3: "score_inputs a \<longrightarrow>
              (\<forall>j<n_states a. is_score (d_state_buffer d' ! (d_state_buffer_prev d' + j))) \<and>
              (\<forall>j<?T * ?n. is_score (d_edge_buffer d' ! j))"
  proof
    assume si: "score_inputs a"
    with sc have p: "\<forall>j<n_states a. is_score (d_state_buffer d ! (d_state_buffer_prev d + j))"
      and q: "\<forall>j<?T * ?n. is_score (d_edge_buffer d ! j)" by simp_all
    from p ent d2(3)
    have p2: "\<forall>j<n_states a. is_score (d_state_buffer d2 ! (d_state_buffer_prev d2 + j))"
      by simp
    with si sc' have r: "\<forall>j<n_states a. is_score (d_state_buffer d' ! (d_state_buffer_prev d' + j))"
      by blast
    have "\<forall>j<?T * ?n. is_score (d_edge_buffer d' ! j)"
    proof (intro allI impI)
      fix j assume j: "j < ?T * ?n"
      show "is_score (d_edge_buffer d' ! j)"
      proof (cases "?t * ?n \<le> j \<and> j < ?t * ?n + ?n")
        case False
        with keep q j d2(4) show ?thesis by simp
      next
        case True
        then obtain e where e: "e < ?n" "j = ?t * ?n + e" by (auto elim: slot_split)
        from wf_edge_reads(7) [OF wf e(1)] p2
        have "is_score (d_state_buffer d2 ! (d_state_buffer_prev d2 + elem (d_to a) e))"
          by simp
        moreover from q j e d2(4) have "is_score (d_edge_buffer d2 ! (?t * ?n + e))" by simp
        ultimately show ?thesis using new e
          by (simp add: Let_def is_score_add)
      qed
    qed
    with r show "(\<forall>j<n_states a. is_score (d_state_buffer d' ! (d_state_buffer_prev d' + j))) \<and>
              (\<forall>j<?T * ?n. is_score (d_edge_buffer d' ! j))" ..
  qed
  show ?case
    apply (rule exI [of _ d'], rule exI [of _ df])
    using run d(2) d'(2) a1 a2 a3 by (simp del: bwd_pass.simps)
qed

section \<open>The claims about the sweeps of the base engine\<close>

lemma fwd_pass_total:
  assumes "wf_args a" and "t \<le> n_frames a"
  obtains d where "fwd_pass a t = Inr d" and "device_ok a d"
  using fwd_pass_inv [OF assms] by blast

lemma bwd_pass_total:
  assumes "wf_args a" and "k \<le> n_frames a"
  obtains d where "bwd_pass a k = Inr d" and "device_ok a d"
  using bwd_pass_inv [OF assms] by blast

lemma device_ok_reads:
  assumes "device_ok a d" and "s < n_states a"
  shows "rd (d_state_buffer d) (d_state_buffer_prev d + s)
         = Inr (d_state_buffer d ! (d_state_buffer_prev d + s))"
  using assms by (auto simp: device_ok_def)

lemma next_frame_skip:
  assumes "e < n" and "rdp from_buffer e = Inr fr" and "prev + fr < length sb"
    and "isinf (sb ! (prev + fr))" and "eoff + e < length eb"
  shows "next_frame fwd n ne sq from_buffer tb w em prev nxt am eoff e (sb, eb)
         = Inr (sb, eb[eoff + e := PosInf])"
  using assms by (simp add: next_frame_def)

lemma fwd_edge_value:
  assumes wf: "wf_args a" and t: "t < n_frames a" and e: "e < n_edges a"
  shows "\<exists>d0 df. fwd_pass a t = Inr d0 \<and> fwd_pass a (n_frames a) = Inr df \<and>
           d_edge_buffer df ! (t * n_edges a + e) =
             (if isinf (d_state_buffer d0 ! (d_state_buffer_prev d0 + elem (d_from a) e))
              then PosInf
              else d_state_buffer d0 ! (d_state_buffer_prev d0 + elem (d_from a) e)
                   + elem (d_weights a) e + emission_score a e t)"
proof -
  from fwd_pass_inv [OF wf le_refl]
  obtain df where df: "fwd_pass a (n_frames a) = Inr df"
    and all: "\<forall>t' e. t' < n_frames a \<and> e < n_edges a \<longrightarrow>
              (\<exists>d0. fwd_pass a t' = Inr d0 \<and>
                 d_edge_buffer df ! (t' * n_edges a + e) =
                   (let p = d_state_buffer d0 ! (d_state_buffer_prev d0 + elem (d_from a) e) in
                    if isinf p then PosInf
                    else p + elem (d_weights a) e + emission_score a e t'))"
    by blast
  from t e have "t < n_frames a \<and> e < n_edges a" ..
  with all obtain d0 where "fwd_pass a t = Inr d0"
    "d_edge_buffer df ! (t * n_edges a + e) =
       (let p = d_state_buffer d0 ! (d_state_buffer_prev d0 + elem (d_from a) e) in
        if isinf p then PosInf else p + elem (d_weights a) e + emission_score a e t)"
    by blast
  with df show ?thesis by (simp add: Let_def)
qed

lemma bwd_edge_value:
  assumes wf: "wf_args a" and t: "t < n_frames a" and e: "e < n_edges a"
  shows "\<exists>d df d1 d2. bwd_pass a (n_frames a) = Inr d \<and> fwd_pass a (n_frames a) = Inr df \<and>
           bwd_pass a (n_frames a - Suc t) = Inr d1 \<and> bwd_enter a t d1 = Inr d2 \<and>
           d_edge_buffer d ! (t * n_edges a + e) =
             (if isinf (d_state_buffer d2 ! (d_state_buffer_prev d2 + elem (d_to a) e))
              then PosInf
              else d_edge_buffer df ! (t * n_edges a + e)
                   + d_state_buffer d2 ! (d_state_buffer_prev d2 + elem (d_to a) e))"
proof -
  from bwd_pass_inv [OF wf le_refl]
  obtain d df where d: "bwd_pass a (n_frames a) = Inr d" "fwd_pass a (n_frames a) = Inr df"
    and all: "\<forall>t' e. n_frames a - n_frames a \<le> t' \<and> t' < n_frames a \<and> e < n_edges a \<longrightarrow>
              (\<exists>d1 d2. bwd_pass a (n_frames a - Suc t') = Inr d1 \<and> bwd_enter a t' d1 = Inr d2 \<and>
                 d_edge_buffer d ! (t' * n_edges a + e) =
                   (let p = d_state_buffer d2 ! (d_state_buffer_prev d2 + elem (d_to a) e) in
                    if isinf p then PosInf
                    else d_edge_buffer df ! (t' * n_edges a + e) + p))"
    by blast
  from t e have "n_frames a - n_frames a \<le> t \<and> t < n_frames a \<and> e < n_edges a" by simp
  with all obtain d1 d2 where "bwd_pass a (n_frames a - Suc t) = Inr d1"
    "bwd_enter a t d1 = Inr d2"
    "d_edge_buffer d ! (t * n_edges a + e) =
       (let p = d_state_buffer d2 ! (d_state_buffer_prev d2 + elem (d_to a) e) in
        if isinf p then PosInf else d_edge_buffer df ! (t * n_edges a + e) + p)"
    by blast
  with d show ?thesis by (simp add: Let_def)
qed

text \<open>
  C1: after both sweeps, the edge buffer at the frame \<open>t\<close> and the edge \<open>e\<close> holds
  \<open>forward_score (from e) t + weight e + emission_score e t + backward_score (to e) (t + 1)\<close>
  whenever neither score is infinite. The sweeps, and the two scores, are defined on every
  well-formed call.
\<close>

theorem edge_buffer_total_path_cost:
  assumes wf: "wf_args a" and t: "t < n_frames a" and e: "e < n_edges a"
  shows "\<exists>f b eb.
           forward_score a t (elem (d_from a) e) = Inr f \<and>
           backward_score a (t + 1) (elem (d_to a) e) = Inr b \<and>
           fbw_sweeps a = Inr eb \<and>
           (\<not> isinf f \<and> \<not> isinf b \<longrightarrow>
              eb ! (t * n_edges a + e)
                = f + elem (d_weights a) e + emission_score a e t + b)"
proof -
  let ?n = "n_edges a" and ?T = "n_frames a"
  from t have t': "t \<le> ?T" by simp
  from fwd_pass_total [OF wf t'] obtain d0 where d0: "fwd_pass a t = Inr d0" "device_ok a d0" .
  let ?f = "d_state_buffer d0 ! (d_state_buffer_prev d0 + elem (d_from a) e)"
  from wf_edge_reads(6) [OF wf e] d0 have F: "forward_score a t (elem (d_from a) e) = Inr ?f"
    by (simp add: forward_score_def device_ok_reads)
  from fwd_edge_value [OF wf t e] d0
  obtain df where df: "fwd_pass a ?T = Inr df"
    and fv: "d_edge_buffer df ! (t * ?n + e) =
       (if isinf ?f then PosInf else ?f + elem (d_weights a) e + emission_score a e t)"
    by auto
  from bwd_edge_value [OF wf t e] df
  obtain d d1 d2 where d: "bwd_pass a ?T = Inr d"
    and d1: "bwd_pass a (?T - Suc t) = Inr d1" and d2: "bwd_enter a t d1 = Inr d2"
    and bv: "d_edge_buffer d ! (t * ?n + e) =
       (let p = d_state_buffer d2 ! (d_state_buffer_prev d2 + elem (d_to a) e) in
        if isinf p then PosInf else d_edge_buffer df ! (t * ?n + e) + p)"
    by auto
  let ?b = "d_state_buffer d2 ! (d_state_buffer_prev d2 + elem (d_to a) e)"
  have "?T - Suc t \<le> ?T" by simp
  from bwd_pass_total [OF wf this] d1 have "device_ok a d1" by auto
  from bwd_enter_spec [OF wf this t] d2 have "device_ok a d2" by auto
  with wf_edge_reads(7) [OF wf e] d1 d2
  have B: "backward_score a (t + 1) (elem (d_to a) e) = Inr ?b"
    by (simp add: backward_score_def device_ok_reads)
  from d have S: "fbw_sweeps a = Inr (d_edge_buffer d)"
    by (simp add: fbw_sweeps_def)
  from fv bv have "\<not> isinf ?f \<and> \<not> isinf ?b \<longrightarrow>
      d_edge_buffer d ! (t * ?n + e) = ?f + elem (d_weights a) e + emission_score a e t + ?b"
    by (simp add: Let_def)
  with F B S show ?thesis by blast
qed

text \<open>
  C5: before the backward loop the previous frame of the state buffer holds \<open>+\<infinity>\<close> at every
  state. In the iteration of the frame \<open>t\<close>, \<^verbatim>\<open>init_bwd_state_buffer\<close> sets to 0 exactly the end
  states of the sequences whose last live frame is \<open>t\<close> (mask 1 at \<open>t\<close>, and \<open>t\<close> the last frame
  or mask 0 at \<open>t + 1\<close>); every other state of the previous frame, the next frame and the edge
  buffer keep their values.
\<close>

theorem backward_init:
  assumes wf: "wf_args a"
  shows "(\<exists>d. bwd_pass a 0 = Inr d \<and>
            (\<forall>s<n_states a. d_state_buffer d ! (d_state_buffer_prev d + s) = PosInf)) \<and>
         (\<forall>t<n_frames a. \<exists>d d'.
            bwd_pass a (n_frames a - Suc t) = Inr d \<and> bwd_enter a t d = Inr d' \<and>
            d_state_buffer_prev d' = d_state_buffer_prev d \<and>
            d_state_buffer_next d' = d_state_buffer_next d \<and>
            d_edge_buffer d' = d_edge_buffer d \<and>
            (\<forall>s<n_states a. d_state_buffer d' ! (d_state_buffer_prev d + s) =
               (if \<exists>idx<n_seqs a. elem (d_end_states a) idx = s \<and> last_live_frame a idx t
                then 0 else d_state_buffer d ! (d_state_buffer_prev d + s))) \<and>
            (\<forall>s<n_states a. d_state_buffer d' ! (d_state_buffer_next d + s) =
               d_state_buffer d ! (d_state_buffer_next d + s)))"
proof (intro conjI allI impI)
  from bwd_pass_inv [OF wf le0]
  show "\<exists>d. bwd_pass a 0 = Inr d \<and>
            (\<forall>s<n_states a. d_state_buffer d ! (d_state_buffer_prev d + s) = PosInf)"
    by blast
next
  fix t assume t: "t < n_frames a"
  have "n_frames a - Suc t \<le> n_frames a" by simp
  from bwd_pass_total [OF wf this]
  obtain d where d: "bwd_pass a (n_frames a - Suc t) = Inr d" "device_ok a d" .
  from bwd_enter_spec [OF wf d(2) t] d(1)
  show "\<exists>d d'.
            bwd_pass a (n_frames a - Suc t) = Inr d \<and> bwd_enter a t d = Inr d' \<and>
            d_state_buffer_prev d' = d_state_buffer_prev d \<and>
            d_state_buffer_next d' = d_state_buffer_next d \<and>
            d_edge_buffer d' = d_edge_buffer d \<and>
            (\<forall>s<n_states a. d_state_buffer d' ! (d_state_buffer_prev d + s) =
               (if \<exists>idx<n_seqs a. elem (d_end_states a) idx = s \<and> last_live_frame a idx t
                then 0 else d_state_buffer d ! (d_state_buffer_prev d + s))) \<and>
            (\<forall>s<n_states a. d_state_buffer d' ! (d_state_buffer_next d + s) =
               d_state_buffer d ! (d_state_buffer_next d + s))"
    by blast
qed

text \<open>
  C6: when the forward loop starts, the previous frame holds 0 at the start state of every
  sequence of the batch and \<open>+\<infinity>\<close> at every other state. An edge whose source state holds an
  infinity in the previous frame is skipped: after the forward loop its edge-buffer entry
  for that frame is \<open>+\<infinity>\<close>, and its thread of \<^verbatim>\<open>next_frame\<close> returns the state buffer as it
  found it.
\<close>

theorem forward_init_and_skip:
  assumes wf: "wf_args a"
  shows "(\<forall>s<n_states a. forward_score a 0 s =
            Inr (if \<exists>idx<n_seqs a. elem (d_start_states a) idx = s then 0 else PosInf)) \<and>
         (\<forall>t<n_frames a. \<forall>e<n_edges a. \<forall>p.
            forward_score a t (elem (d_from a) e) = Inr p \<and> isinf p \<longrightarrow>
            (\<exists>d. fwd_pass a (n_frames a) = Inr d \<and>
                 d_edge_buffer d ! (t * n_edges a + e) = PosInf) \<and>
            (\<exists>d. fwd_pass a t = Inr d \<and>
               (\<forall>sb eb. length sb = length (d_state_buffer d) \<and>
                  length eb = length (d_edge_buffer d) \<and>
                  sb ! (d_state_buffer_prev d + elem (d_from a) e) = p \<longrightarrow>
                  next_frame True (n_edges a) (stride (am_scores a) 1)
                    (d_sequence_idxs a) (d_from a) (d_to a) (d_weights a) (d_emission_idxs a)
                    (d_state_buffer_prev d) (d_state_buffer_next d)
                    (data (am_scores a), t * stride (am_scores a) 0) (t * n_edges a) e (sb, eb)
                  = Inr (sb, eb[t * n_edges a + e := PosInf]))))"
proof (intro conjI allI impI)
  fix s assume s: "s < n_states a"
  from fbw_init_spec [OF wf] s
  show "forward_score a 0 s =
            Inr (if \<exists>idx<n_seqs a. elem (d_start_states a) idx = s then 0 else PosInf)"
    by (auto simp: forward_score_def device_ok_def)
next
  fix t e p
  assume t: "t < n_frames a" and e: "e < n_edges a"
    and p: "forward_score a t (elem (d_from a) e) = Inr p \<and> isinf p"
  let ?n = "n_edges a"
  from t have "t \<le> n_frames a" by simp
  from fwd_pass_total [OF wf this] obtain d0 where d0: "fwd_pass a t = Inr d0" "device_ok a d0" .
  from wf_edge_reads(6) [OF wf e] d0 p
  have pv: "d_state_buffer d0 ! (d_state_buffer_prev d0 + elem (d_from a) e) = p"
    by (simp add: forward_score_def device_ok_reads)
  from fwd_edge_value [OF wf t e] d0
  obtain df where df: "fwd_pass a (n_frames a) = Inr df"
    and fv: "d_edge_buffer df ! (t * ?n + e) =
       (let q = d_state_buffer d0 ! (d_state_buffer_prev d0 + elem (d_from a) e) in
        if isinf q then PosInf else q + elem (d_weights a) e + emission_score a e t)"
    by (auto simp: Let_def)
  from fv pv p have "d_edge_buffer df ! (t * ?n + e) = PosInf" by (simp add: Let_def)
  with df show "\<exists>d. fwd_pass a (n_frames a) = Inr d \<and> d_edge_buffer d ! (t * ?n + e) = PosInf"
    by blast
  have "\<forall>sb eb. length sb = length (d_state_buffer d0) \<and>
                  length eb = length (d_edge_buffer d0) \<and>
                  sb ! (d_state_buffer_prev d0 + elem (d_from a) e) = p \<longrightarrow>
                  next_frame True ?n (stride (am_scores a) 1)
                    (d_sequence_idxs a) (d_from a) (d_to a) (d_weights a) (d_emission_idxs a)
                    (d_state_buffer_prev d0) (d_state_buffer_next d0)
                    (data (am_scores a), t * stride (am_scores a) 0) (t * ?n) e (sb, eb)
                  = Inr (sb, eb[t * ?n + e := PosInf])"
  proof (intro allI impI)
    fix sb eb :: "fl list"
    assume h: "length sb = length (d_state_buffer d0) \<and>
                  length eb = length (d_edge_buffer d0) \<and>
                  sb ! (d_state_buffer_prev d0 + elem (d_from a) e) = p"
    from d0(2) wf_edge_reads(6) [OF wf e] h
    have 1: "d_state_buffer_prev d0 + elem (d_from a) e < length sb"
      by (auto simp: device_ok_def)
    from t e have "t * ?n + e < n_frames a * ?n" by (simp add: slot_less)
    with d0(2) h have 2: "t * ?n + e < length eb" by (simp add: device_ok_def)
    from h p have 3: "isinf (sb ! (d_state_buffer_prev d0 + elem (d_from a) e))" by simp
    from e wf_edge_reads(1) [OF wf e] 1 2 3
    show "next_frame True ?n (stride (am_scores a) 1)
                    (d_sequence_idxs a) (d_from a) (d_to a) (d_weights a) (d_emission_idxs a)
                    (d_state_buffer_prev d0) (d_state_buffer_next d0)
                    (data (am_scores a), t * stride (am_scores a) 0) (t * ?n) e (sb, eb)
                  = Inr (sb, eb[t * ?n + e := PosInf])"
      by (simp add: next_frame_def)
  qed
  with d0(1) show "\<exists>d. fwd_pass a t = Inr d \<and>
               (\<forall>sb eb. length sb = length (d_state_buffer d) \<and>
                  length eb = length (d_edge_buffer d) \<and>
                  sb ! (d_state_buffer_prev d + elem (d_from a) e) = p \<longrightarrow>
                  next_frame True ?n (stride (am_scores a) 1)
                    (d_sequence_idxs a) (d_from a) (d_to a) (d_weights a) (d_emission_idxs a)
                    (d_state_buffer_prev d) (d_state_buffer_next d)
                    (data (am_scores a), t * stride (am_scores a) 0) (t * ?n) e (sb, eb)
                  = Inr (sb, eb[t * ?n + e := PosInf]))"
    by blast
qed

section \<open>The sweeps of the small call\<close>

lemma example_elems:
  "elem (d_from example_args) 0 = 0" "elem (d_to example_args) 0 = 1"
  "elem (d_weights example_args) 0 = Finite 0" "elem (d_end_states example_args) 0 = 1"
  "elem (d_start_states example_args) 0 = 0" "elem (d_sequence_idxs example_args) 0 = 0"
  "emission_score example_args 0 0 = Finite 0"
  by (simp_all add: elem_def d_from_def d_to_def d_weights_def d_end_states_def
      d_start_states_def d_sequence_idxs_def d_emission_idxs_def emission_score_def
      example_data example_strides)

lemma example_forward_score_0:
  "forward_score example_args 0 (elem (d_from example_args) 0) = Inr (Finite 0)"
  by (simp add: forward_score_def example_init example_elems)

lemma example_forward_score_1:
  "forward_score example_args (Suc 0) (elem (d_from example_args) 0) = Inr PosInf"
  by (simp only: forward_score_def example_fwd_1 bindE_Inr) (simp add: example_elems)

lemma example_backward_score_1:
  "backward_score example_args (0 + 1) (elem (d_to example_args) 0) = Inr (Finite 0)"
proof -
  have 1: "n_frames example_args - (0 + 1) = Suc 0" "0 + 1 - 1 = (0::nat)"
    by (simp_all add: example_dims)
  show ?thesis
    by (simp only: backward_score_def 1 example_bwd_1 bindE_Inr example_bwd_enter_0)
       (simp add: example_elems)
qed

lemma example_last_live: "last_live_frame example_args 0 0"
  by (simp add: last_live_frame_def elem_def d_index_def example_data example_strides
      example_dims)

theorem edge_buffer_total_path_cost_witness:
  "wf_args example_args \<and> 0 < n_frames example_args \<and> 0 < n_edges example_args \<and>
   forward_score example_args 0 (elem (d_from example_args) 0) = Inr (Finite 0) \<and>
   backward_score example_args (0 + 1) (elem (d_to example_args) 0) = Inr (Finite 0) \<and>
   fbw_sweeps example_args = Inr [Finite 0, PosInf] \<and>
   \<not> isinf (Finite 0) \<and>
   [Finite 0, PosInf] ! (0 * n_edges example_args + 0)
     = Finite 0 + elem (d_weights example_args) 0 + emission_score example_args 0 0 + Finite 0"
proof -
  have t: "0 < n_frames example_args" and e: "0 < n_edges example_args"
    by (simp_all add: example_dims)
  from edge_buffer_total_path_cost [OF wf_example t e]
  obtain f b eb where
    F: "forward_score example_args 0 (elem (d_from example_args) 0) = Inr f" and
    B: "backward_score example_args (0 + 1) (elem (d_to example_args) 0) = Inr b" and
    S: "fbw_sweeps example_args = Inr eb" and
    I: "\<not> isinf f \<and> \<not> isinf b \<longrightarrow>
       eb ! (0 * n_edges example_args + 0)
         = f + elem (d_weights example_args) 0 + emission_score example_args 0 0 + b"
    by blast
  from F example_forward_score_0 have f: "f = Finite 0" by simp
  from B example_backward_score_1 have b: "b = Finite 0" by simp
  from S example_sweeps have eb: "eb = [Finite 0, PosInf]" by simp
  from I have "eb ! (0 * n_edges example_args + 0)
         = f + elem (d_weights example_args) 0 + emission_score example_args 0 0 + b"
    unfolding f b by simp
  then have "[Finite 0, PosInf] ! (0 * n_edges example_args + 0)
     = Finite 0 + elem (d_weights example_args) 0 + emission_score example_args 0 0 + Finite 0"
    unfolding f b eb .
  with wf_example t e example_forward_score_0 example_backward_score_1 example_sweeps
  show ?thesis by simp
qed

theorem backward_init_witness:
  "wf_args example_args \<and> 0 < n_frames example_args \<and> 1 < n_states example_args \<and>
   0 < n_seqs example_args \<and> elem (d_end_states example_args) 0 = 1 \<and>
   last_live_frame example_args 0 0 \<and>
   (\<exists>d. bwd_pass example_args 0 = Inr d \<and>
      (\<forall>s<n_states example_args. d_state_buffer d ! (d_state_buffer_prev d + s) = PosInf)) \<and>
   (\<exists>d d'. bwd_pass example_args (n_frames example_args - Suc 0) = Inr d \<and>
      bwd_enter example_args 0 d = Inr d' \<and>
      d_state_buffer d' ! (d_state_buffer_prev d + 1) = 0)"
proof -
  have t: "0 < n_frames example_args" and s: "1 < n_states example_args"
    and q: "0 < n_seqs example_args"
    by (simp_all add: example_dims)
  from backward_init [OF wf_example]
  have 1: "\<exists>d. bwd_pass example_args 0 = Inr d \<and>
      (\<forall>s<n_states example_args. d_state_buffer d ! (d_state_buffer_prev d + s) = PosInf)"
    by blast
  from backward_init [OF wf_example] t
  obtain d d' where d: "bwd_pass example_args (n_frames example_args - Suc 0) = Inr d"
    "bwd_enter example_args 0 d = Inr d'"
    and v: "\<forall>s<n_states example_args. d_state_buffer d' ! (d_state_buffer_prev d + s) =
               (if \<exists>idx<n_seqs example_args.
                     elem (d_end_states example_args) idx = s \<and> last_live_frame example_args idx 0
                then 0 else d_state_buffer d ! (d_state_buffer_prev d + s))"
    by blast
  from q example_elems(4) example_last_live
  have "\<exists>idx<n_seqs example_args.
          elem (d_end_states example_args) idx = 1 \<and> last_live_frame example_args idx 0"
    by blast
  moreover from v s have "d_state_buffer d' ! (d_state_buffer_prev d + 1) =
               (if \<exists>idx<n_seqs example_args.
                     elem (d_end_states example_args) idx = 1 \<and> last_live_frame example_args idx 0
                then 0 else d_state_buffer d ! (d_state_buffer_prev d + 1))"
    by blast
  ultimately have "d_state_buffer d' ! (d_state_buffer_prev d + 1) = 0"
    by (simp only: if_True)
  with d 1 t s q example_elems(4) example_last_live wf_example show ?thesis
    by blast
qed

theorem forward_init_and_skip_witness:
  "wf_args example_args \<and> 0 < n_states example_args \<and> 0 < n_seqs example_args \<and>
   elem (d_start_states example_args) 0 = 0 \<and>
   forward_score example_args 0 0 = Inr 0 \<and>
   Suc 0 < n_frames example_args \<and> 0 < n_edges example_args \<and>
   forward_score example_args (Suc 0) (elem (d_from example_args) 0) = Inr PosInf \<and>
   isinf PosInf \<and>
   (\<exists>d. fwd_pass example_args (n_frames example_args) = Inr d \<and>
      d_edge_buffer d ! (Suc 0 * n_edges example_args + 0) = PosInf)"
proof -
  have s: "0 < n_states example_args" and q: "0 < n_seqs example_args"
    and t: "Suc 0 < n_frames example_args" and e: "0 < n_edges example_args"
    by (simp_all add: example_dims)
  from q example_elems(5)
  have "\<exists>idx<n_seqs example_args. elem (d_start_states example_args) idx = 0" by blast
  with forward_init_and_skip [OF wf_example] s
  have 1: "forward_score example_args 0 0 = Inr 0" by simp
  have "forward_score example_args (Suc 0) (elem (d_from example_args) 0) = Inr PosInf \<and>
        isinf PosInf"
    using example_forward_score_1 by simp
  with forward_init_and_skip [OF wf_example] t e
  have 2: "\<exists>d. fwd_pass example_args (n_frames example_args) = Inr d \<and>
      d_edge_buffer d ! (Suc 0 * n_edges example_args + 0) = PosInf"
    by blast
  from 1 2 s q t e example_elems(5) example_forward_score_1 wf_example show ?thesis
    by simp
qed

end
